(* ===== verification/Prelude.thy ===== *)
theory Prelude
  imports Main "HOL-Library.Word" "HOL-Library.Multiset"
begin

text \<open>
  Shared vocabulary of the development: the types the services exchange (UUIDs, timestamps,
  byte strings, machine integers, results), the operations of Rust's standard library that the
  sources call on strings and integers, and the generic lemmas on lists and results that the
  component theories use.

  A Rust string or byte slice is the list of its (UTF-8) bytes, so \<^typ>\<open>string\<close> serves for both;
  the character classes of \<open>trim\<close> and \<open>to_lowercase\<close> are their ASCII part.
  A \<open>Result<T, E>\<close> is the sum \<open>E + T\<close>: \<open>Inl\<close> is \<open>Err\<close>, \<open>Inr\<close> is \<open>Ok\<close>.
  What a call reads from its environment (the clock, a fresh UUID, the answer of a broker or a
  database) is an argument of the definition that reads it.
\<close>

section \<open>Collections of facts\<close>

named_theorems result_simps \<open>rewriting of results and their combinators\<close>
named_theorems str_simps \<open>rewriting of the string functions of the standard library\<close>

section \<open>Types\<close>

type_synonym uuid = "128 word"
type_synonym u16 = "16 word"
type_synonym u32 = "32 word"
type_synonym u64 = "64 word"
type_synonym i64 = "64 word"
type_synonym timestamp = int
type_synonym bytes = string
type_synonym ('e, 'a) result = "'e + 'a"

abbreviation Ok :: "'a \<Rightarrow> ('e, 'a) result" where "Ok \<equiv> Inr"
abbreviation Err :: "'e \<Rightarrow> ('e, 'a) result" where "Err \<equiv> Inl"

definition is_ok :: "('e, 'a) result \<Rightarrow> bool" where
  "is_ok r = (case r of Inl _ \<Rightarrow> False | Inr _ \<Rightarrow> True)"

definition map_err :: "('e \<Rightarrow> 'f) \<Rightarrow> ('e, 'a) result \<Rightarrow> ('f, 'a) result" where
  "map_err f r = (case r of Inl e \<Rightarrow> Inl (f e) | Inr a \<Rightarrow> Inr a)"

definition result_bind :: "('e, 'a) result \<Rightarrow> ('a \<Rightarrow> ('e, 'b) result) \<Rightarrow> ('e, 'b) result" where
  "result_bind r k = (case r of Inl e \<Rightarrow> Inl e | Inr a \<Rightarrow> k a)"

definition ok_or :: "'e \<Rightarrow> 'a option \<Rightarrow> ('e, 'a) result" where
  "ok_or e m = (case m of None \<Rightarrow> Inl e | Some a \<Rightarrow> Inr a)"

definition ok_opt :: "('e, 'a) result \<Rightarrow> 'a option" where
  "ok_opt r = (case r of Inl _ \<Rightarrow> None | Inr a \<Rightarrow> Some a)"

definition unwrap_or :: "'a \<Rightarrow> 'a option \<Rightarrow> 'a" where
  "unwrap_or d m = (case m of None \<Rightarrow> d | Some a \<Rightarrow> a)"

definition or_else :: "'a option \<Rightarrow> 'a option \<Rightarrow> 'a option" where
  "or_else m n = (case m of None \<Rightarrow> n | Some a \<Rightarrow> Some a)"

lemma is_ok_simps [simp, result_simps]:
  "is_ok (Inl e) = False" "is_ok (Inr a) = True"
  by (simp_all add: is_ok_def)

lemma is_ok_fstE:
  assumes "is_ok (fst p)"
  obtains a b where "p = (Inr a, b)"
  using assms by (cases p; cases "fst p") auto

lemma map_err_simps [simp, result_simps]:
  "map_err f (Inl e) = Inl (f e)" "map_err f (Inr a) = Inr a"
  by (simp_all add: map_err_def)

lemma result_bind_simps [simp, result_simps]:
  "result_bind (Inl e) k = Inl e" "result_bind (Inr a) k = k a"
  by (simp_all add: result_bind_def)

lemma ok_or_simps [simp, result_simps]:
  "ok_or e None = Inl e" "ok_or e (Some a) = Inr a"
  by (simp_all add: ok_or_def)

lemma ok_opt_simps [simp, result_simps]:
  "ok_opt (Inl e) = None" "ok_opt (Inr a) = Some a"
  by (simp_all add: ok_opt_def)

lemma unwrap_or_simps [simp, result_simps]:
  "unwrap_or d None = d" "unwrap_or d (Some a) = a"
  by (simp_all add: unwrap_or_def)

lemma or_else_simps [simp, result_simps]:
  "or_else None n = n" "or_else (Some a) n = Some a"
  by (simp_all add: or_else_def)

lemma or_else_None_iff [simp]: "or_else m n = None \<longleftrightarrow> m = None \<and> n = None"
  by (cases m) simp_all

lemma result_bind_Inr_iff:
  "result_bind r k = Inr b \<longleftrightarrow> (\<exists>a. r = Inr a \<and> k a = Inr b)"
  by (cases r) simp_all

lemma result_bind_Inl_iff:
  "result_bind r k = Inl e \<longleftrightarrow> r = Inl e \<or> (\<exists>a. r = Inr a \<and> k a = Inl e)"
  by (cases r) auto

lemma map_err_Inr_iff [simp]: "map_err f r = Inr a \<longleftrightarrow> r = Inr a"
  by (cases r) simp_all

lemma is_ok_map_err [simp]: "is_ok (map_err f r) = is_ok r"
  by (cases r) simp_all

section \<open>Strings\<close>

definition starts_with :: "string \<Rightarrow> string \<Rightarrow> bool" where
  "starts_with p s \<longleftrightarrow> take (length p) s = p"

definition strip_prefix :: "string \<Rightarrow> string \<Rightarrow> string option" where
  "strip_prefix p s = (if starts_with p s then Some (drop (length p) s) else None)"

fun contains_str :: "string \<Rightarrow> string \<Rightarrow> bool" where
  "contains_str [] sub \<longleftrightarrow> sub = []"
| "contains_str (c # cs) sub \<longleftrightarrow> starts_with sub (c # cs) \<or> contains_str cs sub"

definition is_ws :: "char \<Rightarrow> bool" where
  "is_ws c \<longleftrightarrow> (of_char c :: nat) \<in> {9, 10, 11, 12, 13, 32}"

definition trim_start :: "string \<Rightarrow> string" where
  "trim_start = dropWhile is_ws"

definition trim_end :: "string \<Rightarrow> string" where
  "trim_end s = rev (dropWhile is_ws (rev s))"

definition trim :: "string \<Rightarrow> string" where
  "trim s = trim_end (trim_start s)"

definition trim_start_char :: "char \<Rightarrow> string \<Rightarrow> string" where
  "trim_start_char c = dropWhile (\<lambda>x. x = c)"

definition trim_end_char :: "char \<Rightarrow> string \<Rightarrow> string" where
  "trim_end_char c s = rev (dropWhile (\<lambda>x. x = c) (rev s))"

definition to_lower_char :: "char \<Rightarrow> char" where
  "to_lower_char c = (if 65 \<le> (of_char c :: nat) \<and> (of_char c :: nat) \<le> 90
     then char_of ((of_char c :: nat) + 32) else c)"

definition to_lowercase :: "string \<Rightarrow> string" where
  "to_lowercase = map to_lower_char"

definition trim_matches_char :: "char \<Rightarrow> string \<Rightarrow> string" where
  "trim_matches_char c s = trim_end_char c (trim_start_char c s)"

text \<open>\<open>find(c)\<close> and the two slices around the position it gives.\<close>

fun split_once :: "char \<Rightarrow> string \<Rightarrow> (string \<times> string) option" where
  "split_once d [] = None"
| "split_once d (c # cs) = (if c = d then Some ([], cs)
     else map_option (\<lambda>(a, b). (c # a, b)) (split_once d cs))"

fun split_on :: "char \<Rightarrow> string \<Rightarrow> string list" where
  "split_on d [] = [[]]"
| "split_on d (c # cs) =
     (if c = d then [] # split_on d cs
      else (case split_on d cs of [] \<Rightarrow> [[c]] | w # ws \<Rightarrow> (c # w) # ws))"

fun join_with :: "string \<Rightarrow> string list \<Rightarrow> string" where
  "join_with sep [] = []"
| "join_with sep [s] = s"
| "join_with sep (s # t # ts) = s @ sep @ join_with sep (t # ts)"

text \<open>\<open>trim_start_matches(p)\<close> removes the prefix as often as it occurs.\<close>

function trim_start_str :: "string \<Rightarrow> string \<Rightarrow> string" where
  "trim_start_str p s = (if p \<noteq> [] \<and> starts_with p s then trim_start_str p (drop (length p) s) else s)"
  by auto
termination
  by (relation "measure (\<lambda>(p, s). length s)")
    (auto simp: starts_with_def, metis diff_less length_greater_0_conv take_eq_Nil2)

declare trim_start_str.simps [simp del]

text \<open>\<open>str::parse\<close> at an unsigned type with \<open>bits\<close> bits: an optional plus sign, then at least one
  decimal digit and nothing else, in range.\<close>

definition is_digit :: "char \<Rightarrow> bool" where
  "is_digit c \<longleftrightarrow> 48 \<le> (of_char c :: nat) \<and> (of_char c :: nat) \<le> 57"

definition digits_value :: "string \<Rightarrow> nat" where
  "digits_value s = foldl (\<lambda>n c. 10 * n + ((of_char c :: nat) - 48)) 0 s"

definition parse_unsigned :: "nat \<Rightarrow> string \<Rightarrow> nat option" where
  "parse_unsigned bits s =
     (let ds = (if starts_with ''+'' s then drop 1 s else s) in
      if ds \<noteq> [] \<and> list_all is_digit ds \<and> digits_value ds < 2 ^ bits then Some (digits_value ds) else None)"

definition newline :: char where "newline = CHR 0x0A"
definition carriage :: char where "carriage = CHR 0x0D"

definition strip_cr :: "string \<Rightarrow> string" where
  "strip_cr s = (if s \<noteq> [] \<and> last s = carriage then butlast s else s)"

text \<open>\<open>str::lines\<close>: pieces ended by a line feed lose it and a carriage return before it; a last
  piece with no line feed is kept as it is unless it is empty.\<close>

definition str_lines :: "string \<Rightarrow> string list" where
  "str_lines s = (let ps = split_on newline s in
     map strip_cr (butlast ps) @ (if last ps = [] then [] else [last ps]))"

definition digit_char :: "nat \<Rightarrow> char" where
  "digit_char d = char_of (48 + d)"

fun show_nat :: "nat \<Rightarrow> string" where
  "show_nat n = (if n < 10 then [digit_char n] else show_nat (n div 10) @ [digit_char (n mod 10)])"

declare show_nat.simps [simp del]

definition show_int :: "int \<Rightarrow> string" where
  "show_int i = (if i < 0 then ''-'' @ show_nat (nat (- i)) else show_nat (nat i))"

lemma split_on_nonempty [simp]: "split_on d s \<noteq> []"
  by (induction s) (simp_all split: list.split)

lemma join_split_on [simp]: "join_with [d] (split_on d s) = s"
proof (induction s)
  case Nil
  then show ?case by simp
next
  case (Cons c s)
  then show ?case
  proof (cases "split_on d s")
    case Nil
    then show ?thesis by simp
  next
    case (Cons w ws)
    with Cons.IH show ?thesis by (cases ws) auto
  qed
qed

lemma split_on_append_sep: "d \<notin> set w \<Longrightarrow> split_on d (w @ d # s) = w # split_on d s"
  by (induction w) auto

lemma split_on_no_sep: "d \<notin> set w \<Longrightarrow> split_on d w = [w]"
  by (induction w) auto

lemma split_join:
  "ls \<noteq> [] \<Longrightarrow> \<forall>l \<in> set ls. d \<notin> set l \<Longrightarrow> split_on d (join_with [d] ls) = ls"
  by (induction "[d]" ls rule: join_with.induct) (simp_all add: split_on_append_sep split_on_no_sep)

lemma show_nat_digits: "c \<in> set (show_nat n) \<Longrightarrow> 48 \<le> (of_char c :: nat) \<and> (of_char c :: nat) \<le> 57"
proof (induction n rule: show_nat.induct)
  case (1 n)
  have "c \<in> (if n < 10 then {digit_char n} else set (show_nat (n div 10)) \<union> {digit_char (n mod 10)})"
    using 1(2) by (subst (asm) show_nat.simps) (auto split: if_splits)
  then show ?case
    using 1(1) by (auto simp: digit_char_def of_char_of take_bit_nat_eq_self_iff split: if_splits)
qed

lemma starts_with_iff: "starts_with p s \<longleftrightarrow> (\<exists>t. s = p @ t)"
  by (metis append_eq_conv_conj append_take_drop_id starts_with_def)

lemma digits_value_snoc: "digits_value (s @ [c]) = 10 * digits_value s + ((of_char c :: nat) - 48)"
  by (simp add: digits_value_def)

lemma digits_value_show_nat [simp]: "digits_value (show_nat n) = n"
proof (induction n rule: show_nat.induct)
  case (1 n)
  have d: "(of_char (digit_char k) :: nat) - 48 = k" if "k < 10" for k
    using that by (simp add: digit_char_def of_char_of take_bit_nat_eq_self_iff)
  show ?case
    using 1 d [of n] d [of "n mod 10"]
    by (subst show_nat.simps) (auto simp: digits_value_snoc digits_value_def)
qed

lemma show_nat_nonempty [simp]: "show_nat n \<noteq> []"
  by (subst show_nat.simps) simp

lemma list_all_digit_show_nat [simp]: "list_all is_digit (show_nat n)"
  using show_nat_digits by (auto simp: list_all_iff is_digit_def)

lemma parse_show_nat [simp]: "n < 2 ^ bits \<Longrightarrow> parse_unsigned bits (show_nat n) = Some n"
proof -
  assume "n < 2 ^ bits"
  moreover have "\<not> starts_with ''+'' (show_nat n)"
  proof
    assume "starts_with ''+'' (show_nat n)"
    then have "CHR ''+'' \<in> set (show_nat n)" by (auto simp: starts_with_iff)
    then show False using show_nat_digits [of "CHR ''+''" n] by simp
  qed
  ultimately show ?thesis by (simp add: parse_unsigned_def)
qed

lemma set_join_with: "set (join_with sep ls) \<subseteq> set sep \<union> (\<Union>l \<in> set ls. set l)"
  by (induction sep ls rule: join_with.induct) auto

lemma starts_with_append [simp, str_simps]: "starts_with p (p @ s)"
  by (simp add: starts_with_def)

lemma strip_prefix_append [simp, str_simps]: "strip_prefix p (p @ s) = Some s"
  by (simp add: strip_prefix_def)

lemma strip_prefix_Some_iff: "strip_prefix p s = Some t \<longleftrightarrow> s = p @ t"
  by (auto simp: strip_prefix_def starts_with_iff)

lemma contains_str_prefix [simp]: "contains_str (sub @ ys) sub"
  by (cases "sub @ ys") (auto simp: starts_with_iff, metis)

lemma contains_str_append: "contains_str (xs @ sub @ ys) sub"
  by (induction xs) simp_all

lemma contains_str_line: "v \<in> set vs \<Longrightarrow> contains_str (concat (map (\<lambda>v. v @ sep) vs)) v"
  using contains_str_append [of _ v "sep @ _"] by (fastforce dest!: split_list)

lemma join_with_split: "l \<in> set ls \<Longrightarrow> \<exists>a b. join_with sep ls = a @ l @ b"
proof (induction sep ls rule: join_with.induct)
  case (3 sep s t ts)
  show ?case
  proof (cases "l = s")
    case True
    then show ?thesis by (intro exI [of _ "[]"] exI [of _ "sep @ join_with sep (t # ts)"]) simp
  next
    case False
    then obtain a b where "join_with sep (t # ts) = a @ l @ b" using 3 by auto
    then show ?thesis by (intro exI [of _ "s @ sep @ a"] exI [of _ b]) simp
  qed
qed (auto intro: exI [of _ "[]"])

lemma contains_joined_line: "pre @ sub \<in> set ls \<Longrightarrow> contains_str (join_with sep ls) sub"
  using join_with_split [of "pre @ sub" ls sep] contains_str_append by (metis append.assoc)

section \<open>Lists\<close>

lemma find_append: "find P (xs @ ys) = (case find P xs of None \<Rightarrow> find P ys | Some x \<Rightarrow> Some x)"
  by (induction xs) simp_all

lemma find_SomeD: "find P xs = Some x \<Longrightarrow> x \<in> set xs \<and> P x"
  by (induction xs) (auto split: if_splits)

lemma find_map_option: "find P (map f xs) = map_option f (find (\<lambda>x. P (f x)) xs)"
  by (induction xs) simp_all

text \<open>An iteration order that the code does not determine (of a hash table, of the rows of a table) is a
  function that rearranges a list.\<close>

definition reorders :: "('a list \<Rightarrow> 'a list) \<Rightarrow> bool" where
  "reorders perm \<longleftrightarrow> (\<forall>xs. mset (perm xs) = mset xs)"

lemma set_reorders: "reorders perm \<Longrightarrow> set (perm xs) = set xs"
  unfolding reorders_def by (metis mset_eq_setD)

lemma distinct_reorders: "reorders perm \<Longrightarrow> distinct (perm xs) = distinct xs"
  unfolding reorders_def by (metis mset_eq_imp_distinct_iff)

lemma reorders_Nil_iff: "reorders perm \<Longrightarrow> perm xs = [] \<longleftrightarrow> xs = []"
  unfolding reorders_def by (metis mset_zero_iff)

lemma reorders_id [simp]: "reorders (\<lambda>xs. xs)"
  by (simp add: reorders_def)

section \<open>Signed 64-bit integers\<close>

lemma sint_of_int_i64:
  assumes "- (2 ^ 63) \<le> k" "k < 2 ^ 63"
  shows "sint (word_of_int k :: i64) = k"
  using assms by (simp add: sint_sbintrunc' signed_take_bit_int_eq_self)

lemma sint_of_nat_i64: "int n < 2 ^ 63 \<Longrightarrow> sint (of_nat n :: i64) = int n"
  using sint_of_int_i64 [of "int n"] by simp

lemma sint_diff_i64:
  "0 \<le> sint (a :: i64) \<Longrightarrow> 0 \<le> sint b \<Longrightarrow> sint (a - b) = sint a - sint b"
  using sint_less [of a] sint_less [of b]
  by (simp add: sint_word_ariths signed_take_bit_int_eq_self)

lemma sint_diff_wrap_i64:
  assumes "2 ^ 63 \<le> sint (a :: i64) - sint b"
  shows "sint (a - b) = sint a - sint b - 2 ^ 64"
proof -
  let ?x = "sint a - sint b"
  have e: "a - b = word_of_int ?x" by (simp flip: wi_hom_sub)
  have "sint (a - b) = (?x + 2 ^ 63) mod 2 ^ 64 - 2 ^ 63"
    unfolding e int_word_sint by simp
  moreover have "(?x + 2 ^ 63) mod 2 ^ 64 = ?x + 2 ^ 63 - 2 ^ 64"
    using assms sint_lt [of a] sint_ge [of b]
    by (subst mod_pos_geq) (auto simp: mod_pos_pos_trivial)
  ultimately show ?thesis by simp
qed

lemma unat_eq_sint_i64:
  assumes "0 \<le> sint (a :: i64)"
  shows "int (unat a) = sint a"
proof -
  have "uint (word_of_int (sint a) :: i64) = sint a"
    using assms sint_lt [of a] by (simp only: uint_word_of_int_eq) (simp add: take_bit_int_eq_self)
  then show ?thesis by simp
qed

lemma unat_Suc_less:
  fixes a m :: "'a::len word"
  assumes "a < m"
  shows "unat (a + 1) = Suc (unat a)"
proof -
  have "unat a + 1 \<le> unat m" using assms by (simp add: word_less_nat_alt)
  moreover have "unat m < 2 ^ LENGTH('a)" by (rule unsigned_less)
  ultimately have "unat a + 1 < 2 ^ LENGTH('a)" by linarith
  then show ?thesis by (simp add: unat_word_ariths)
qed

end
