(* ===== verification/EventBuffer.thy ===== *)
theory EventBuffer
  imports Prelude
begin

text \<open>
  The agent's local event buffer, \<open>agent/crates/event-buffer/src/lib.rs\<close>: a SQLite table
  \<open>event_buffer(id INTEGER PRIMARY KEY AUTOINCREMENT, payload, created_at)\<close> behind a mutex.
  Each operation holds the mutex for its whole body, so operations are atomic with respect to
  each other and are functions on the state; \<open>push\<close> is several SQLite statements without a
  transaction, so a statement that fails leaves the effects of the earlier ones, while \<open>drain\<close>
  is one transaction. Which statement fails, and the clock, are arguments.

  The interface the rest of the agent relies on, a bounded first-in first-out queue, is the
  locale \<open>bounded_fifo\<close>; its laws are discharged for the table at the end.
\<close>

section \<open>The table\<close>

record buffer_row =
  br_id :: int
  br_payload :: string
  br_created_at :: timestamp

record event_buffer =
  eb_rows :: "buffer_row list"
  eb_seq :: int  \<comment> \<open>AUTOINCREMENT: the largest id ever given (\<open>sqlite_sequence\<close>)\<close>
  eb_max_events :: u64

text \<open>The statements of the operations that can fail, and the errors they give.\<close>

datatype stmt = OpenConn | Pragma | CreateTable | InsertRow | CountRows | DeleteRows | SelectRows | CommitTx

datatype buffer_error = SqliteFailure stmt | SqliteFull | IntegralOutOfRange

definition max_rowid :: int where "max_rowid = 2 ^ 63 - 1"

text \<open>\<open>LIMIT n\<close> of SQLite: a negative limit means no limit.\<close>

definition sql_limit :: "int \<Rightarrow> 'a list \<Rightarrow> 'a list" where
  "sql_limit n xs = (if n < 0 then xs else take (nat n) xs)"

definition order_by_id :: "buffer_row list \<Rightarrow> buffer_row list" where
  "order_by_id = sort_key br_id"

definition delete_ids :: "int list \<Rightarrow> buffer_row list \<Rightarrow> buffer_row list" where
  "delete_ids ids = filter (\<lambda>r. br_id r \<notin> set ids)"

section \<open>Operations\<close>

text \<open>\<open>stored\<close> is the table the file already has, if any (\<open>CREATE TABLE IF NOT EXISTS\<close>).\<close>

definition new :: "stmt option \<Rightarrow> (buffer_row list \<times> int) option \<Rightarrow> u64
    \<Rightarrow> (buffer_error, event_buffer) result" where
  "new fault stored max_events =
     (case fault of
        Some OpenConn \<Rightarrow> Err (SqliteFailure OpenConn)
      | Some Pragma \<Rightarrow> Err (SqliteFailure Pragma)
      | Some CreateTable \<Rightarrow> Err (SqliteFailure CreateTable)
      | _ \<Rightarrow> (let (rows, sq) = unwrap_or ([], 0) stored in
               Ok \<lparr>eb_rows = rows, eb_seq = sq, eb_max_events = max_events\<rparr>))"

text \<open>The payload column is declared \<open>JSON\<close>, to which SQLite gives numeric affinity: it keeps a text as it is unless it looks like a
  number. The program pushes printed objects only, and a payload is the text that was pushed.\<close>

definition push :: "stmt option \<Rightarrow> timestamp \<Rightarrow> string \<Rightarrow> event_buffer
    \<Rightarrow> (buffer_error, unit) result \<times> event_buffer" where
  "push fault now event_json b =
     (if fault = Some InsertRow then (Err (SqliteFailure InsertRow), b)
      else if eb_seq b \<ge> max_rowid then (Err SqliteFull, b)
      else
        let row = \<lparr>br_id = eb_seq b + 1, br_payload = event_json, br_created_at = now\<rparr>;
            b1 = b\<lparr>eb_rows := eb_rows b @ [row], eb_seq := eb_seq b + 1\<rparr>
        in if fault = Some CountRows then (Err (SqliteFailure CountRows), b1)
           else
             let count = (of_nat (length (eb_rows b1)) :: i64)
             in if sint count > sint (eb_max_events b)
                then let to_delete = count - eb_max_events b;
                         victims = map br_id (sql_limit (sint to_delete) (order_by_id (eb_rows b1)))
                     in if fault = Some DeleteRows then (Err (SqliteFailure DeleteRows), b1)
                        else (Ok (), b1\<lparr>eb_rows := delete_ids victims (eb_rows b1)\<rparr>)
                else (Ok (), b1))"

text \<open>\<open>batch_size\<close> is bound as a SQL parameter: a \<open>usize\<close> above \<open>i64::MAX\<close> is refused by the
  conversion. On every error the transaction is rolled back.\<close>

definition drain :: "stmt option \<Rightarrow> u64 \<Rightarrow> event_buffer
    \<Rightarrow> (buffer_error, string list) result \<times> event_buffer" where
  "drain fault batch_size b =
     (if sint batch_size < 0 then (Err IntegralOutOfRange, b)
      else if fault = Some SelectRows then (Err (SqliteFailure SelectRows), b)
      else
        let rows = sql_limit (sint batch_size) (order_by_id (eb_rows b));
            events = map br_payload rows;
            ids = map br_id rows
        in if fault = Some DeleteRows \<and> ids \<noteq> [] then (Err (SqliteFailure DeleteRows), b)
           else if fault = Some CommitTx then (Err (SqliteFailure CommitTx), b)
           else (Ok events, b\<lparr>eb_rows := (if ids \<noteq> [] then delete_ids ids (eb_rows b) else eb_rows b)\<rparr>))"

definition len :: "stmt option \<Rightarrow> event_buffer \<Rightarrow> (buffer_error, u64) result" where
  "len fault b = (if fault = Some CountRows then Err (SqliteFailure CountRows)
                  else Ok (of_nat (length (eb_rows b))))"

definition is_empty :: "stmt option \<Rightarrow> event_buffer \<Rightarrow> (buffer_error, bool) result" where
  "is_empty fault b = result_bind (len fault b) (\<lambda>n. Ok (n = 0))"

section \<open>The interface: a bounded first-in first-out queue\<close>

text \<open>\<open>room\<close> bounds the pushes that can still succeed (row ids are never reused), \<open>val\<close> reads the
  payload of what is pushed.\<close>

locale bounded_fifo =
  fixes inv :: "'s \<Rightarrow> bool"
    and contents :: "'s \<Rightarrow> 'a list"
    and cap :: "'s \<Rightarrow> nat"
    and room :: "'s \<Rightarrow> nat"
    and val :: "'i \<Rightarrow> 'a"
    and enq :: "'i \<Rightarrow> 's \<Rightarrow> 's"
    and deq :: "nat \<Rightarrow> 's \<Rightarrow> 'a list \<times> 's"
    and batch_max :: nat
  assumes enq_inv: "inv s \<Longrightarrow> inv (enq i s)"
    and enq_cap: "cap (enq i s) = cap s"
    and enq_contents: "inv s \<Longrightarrow> 0 < room s \<Longrightarrow>
          contents (enq i s) = drop (length (contents s) + 1 - cap s) (contents s @ [val i])"
    and enq_room: "inv s \<Longrightarrow> room (enq i s) = room s - 1"
    and deq_inv: "inv s \<Longrightarrow> inv (snd (deq n s))"
    and deq_cap: "cap (snd (deq n s)) = cap s"
    and deq_room: "room (snd (deq n s)) = room s"
    and deq_result: "inv s \<Longrightarrow> n \<le> batch_max \<Longrightarrow> fst (deq n s) = take n (contents s)"
    and deq_contents: "inv s \<Longrightarrow> n \<le> batch_max \<Longrightarrow> contents (snd (deq n s)) = drop n (contents s)"
begin

definition enq_all :: "'i list \<Rightarrow> 's \<Rightarrow> 's" where
  "enq_all xs s = foldl (\<lambda>s i. enq i s) s xs"

lemma enq_all_inv: "inv s \<Longrightarrow> inv (enq_all xs s)"
  unfolding enq_all_def by (induction xs arbitrary: s) (simp_all add: enq_inv)

lemma enq_all_cap: "cap (enq_all xs s) = cap s"
  unfolding enq_all_def by (induction xs arbitrary: s) (simp_all add: enq_cap)

lemma enq_bounded:
  assumes "inv s" "0 < room s"
  shows "length (contents (enq i s)) \<le> cap s"
  using enq_contents [OF assms, of i] by simp

lemma enq_all_contents:
  assumes "inv s" "length xs \<le> room s" "length (contents s) + length xs \<le> cap s"
  shows "contents (enq_all xs s) = contents s @ map val xs"
  using assms
proof (induction xs arbitrary: s)
  case Nil
  then show ?case by (simp add: enq_all_def)
next
  case (Cons x xs)
  have c: "contents (enq x s) = contents s @ [val x]"
    using Cons.prems enq_contents [of s x] by simp
  have "enq_all (x # xs) s = enq_all xs (enq x s)"
    by (simp add: enq_all_def)
  then show ?case
    using Cons.IH [of "enq x s"] Cons.prems c
    by (simp add: enq_inv enq_cap enq_room)
qed

text \<open>In general the queue keeps the newest \<open>cap\<close> of what it had and what is pushed.\<close>

lemma enq_all_contents_drop:
  assumes "inv s" "length xs \<le> room s" "length (contents s) \<le> cap s"
  shows "contents (enq_all xs s) =
    drop (length (contents s) + length xs - cap s) (contents s @ map val xs)"
  using assms
proof (induction xs arbitrary: s)
  case Nil
  then show ?case by (simp add: enq_all_def)
next
  case (Cons x xs)
  let ?q = "contents s"
  have c: "contents (enq x s) = drop (length ?q + 1 - cap s) (?q @ [val x])"
    using Cons.prems enq_contents [of s x] by simp
  have e: "enq_all (x # xs) s = enq_all xs (enq x s)"
    by (simp add: enq_all_def)
  have "contents (enq_all xs (enq x s)) =
      drop (length (contents (enq x s)) + length xs - cap s) (contents (enq x s) @ map val xs)"
    using Cons.IH [of "enq x s"] Cons.prems c by (simp add: enq_inv enq_cap enq_room)
  also have "contents (enq x s) @ map val xs = drop (length ?q + 1 - cap s) (?q @ map val (x # xs))"
    unfolding c by (simp add: drop_append) (simp add: drop_Cons')
  finally have d: "contents (enq_all xs (enq x s)) =
      drop (length (contents (enq x s)) + length xs - cap s + (length ?q + 1 - cap s)) (?q @ map val (x # xs))"
    unfolding drop_drop .
  have "length (contents (enq x s)) = length ?q + 1 - (length ?q + 1 - cap s)"
    unfolding c by (simp del: drop_append)
  then have "length (contents (enq x s)) + length xs - cap s + (length ?q + 1 - cap s) =
      length ?q + length (x # xs) - cap s"
    using Cons.prems(3) by simp
  then show ?case using d e by metis
qed

text \<open>A batch that is taken out and put back: nothing is lost, the batch moves to the back.\<close>

lemma deq_enq_all:
  assumes "inv s" "n \<le> batch_max" "length (contents s) \<le> cap s"
    and "deq n s = (out, s')" "map val xs = out" "length xs \<le> room s"
  shows "contents (enq_all xs s') = drop n (contents s) @ take n (contents s)"
proof -
  have out: "out = take n (contents s)" and s': "contents s' = drop n (contents s)" "inv s'"
      "cap s' = cap s" "room s' = room s"
    using assms deq_result [of s n] deq_contents [of s n] deq_inv [of s n] deq_cap [of n s] deq_room [of n s]
    by simp_all
  have "length xs = length (take n (contents s))"
    using assms(5) out by (metis length_map)
  then show ?thesis
    using enq_all_contents [of s' xs] s' assms(3,5,6) out by simp
qed

end

section \<open>The table is such a queue\<close>

definition buffer_inv :: "event_buffer \<Rightarrow> bool" where
  "buffer_inv b \<longleftrightarrow>
     sorted_wrt (<) (map br_id (eb_rows b)) \<and>
     (\<forall>r \<in> set (eb_rows b). 1 \<le> br_id r \<and> br_id r \<le> eb_seq b) \<and>
     0 \<le> eb_seq b \<and> eb_seq b \<le> max_rowid \<and> 0 \<le> sint (eb_max_events b)"

definition payloads :: "event_buffer \<Rightarrow> string list" where
  "payloads b = map br_payload (eb_rows b)"

definition buffer_cap :: "event_buffer \<Rightarrow> nat" where
  "buffer_cap b = nat (sint (eb_max_events b))"

definition ids_left :: "event_buffer \<Rightarrow> nat" where
  "ids_left b = nat (max_rowid - eb_seq b)"

definition push_ok :: "timestamp \<times> string \<Rightarrow> event_buffer \<Rightarrow> event_buffer" where
  "push_ok i b = snd (push None (fst i) (snd i) b)"

definition drain_ok :: "nat \<Rightarrow> event_buffer \<Rightarrow> string list \<times> event_buffer" where
  "drain_ok n b = (case drain None (of_nat n) b of
     (Inl _, b') \<Rightarrow> ([], b') | (Inr evs, b') \<Rightarrow> (evs, b'))"

lemma sorted_wrt_less_order_by_id:
  "sorted_wrt (<) (map br_id rs) \<Longrightarrow> order_by_id rs = rs"
  unfolding order_by_id_def
  by (rule sort_key_id_if_sorted) (metis strict_sorted_iff)

lemma delete_prefix_ids:
  assumes "sorted_wrt (<) (map br_id rs)"
  shows "delete_ids (map br_id (take n rs)) rs = drop n rs"
proof -
  have "distinct (map br_id rs)"
    using assms strict_sorted_iff by blast
  then have d: "set (map br_id (take n rs)) \<inter> set (map br_id (drop n rs)) = {}"
    by (metis append_take_drop_id distinct_append map_append)
  have "delete_ids (map br_id (take n rs)) (take n rs @ drop n rs) = drop n rs"
    using d unfolding delete_ids_def filter_append
    by (auto simp: filter_empty_conv intro!: filter_True)
  then show ?thesis by simp
qed

lemma buffer_inv_length:
  assumes "buffer_inv b"
  shows "int (length (eb_rows b)) \<le> eb_seq b"
proof -
  let ?ids = "map br_id (eb_rows b)"
  have "distinct ?ids"
    using assms strict_sorted_iff unfolding buffer_inv_def by blast
  moreover have "set ?ids \<subseteq> {1..eb_seq b}"
    using assms by (auto simp: buffer_inv_def)
  ultimately have "length ?ids \<le> card {1..eb_seq b}"
    by (metis card_mono distinct_card finite_atLeastAtMost_int)
  then show ?thesis
    using assms unfolding buffer_inv_def by auto
qed

lemma buffer_inv_deleted:
  assumes "buffer_inv b"
  shows "buffer_inv (b\<lparr>eb_rows := drop n (eb_rows b)\<rparr>)"
  using assms unfolding buffer_inv_def
  by (auto simp: drop_map [symmetric] sorted_wrt_drop dest: in_set_dropD)

lemma buffer_inv_inserted:
  assumes "buffer_inv b" "eb_seq b < max_rowid"
  shows "buffer_inv (b\<lparr>eb_rows := eb_rows b @ [\<lparr>br_id = eb_seq b + 1, br_payload = p, br_created_at = t\<rparr>],
                       eb_seq := eb_seq b + 1\<rparr>)"
  using assms unfolding buffer_inv_def by (fastforce simp: sorted_wrt_append)

lemma push_ok_rows:
  assumes "buffer_inv b" "eb_seq b < max_rowid"
  shows "push_ok i b = b\<lparr>eb_seq := eb_seq b + 1, eb_rows := drop (length (eb_rows b) + 1 - buffer_cap b)
           (eb_rows b @ [\<lparr>br_id = eb_seq b + 1, br_payload = snd i, br_created_at = fst i\<rparr>])\<rparr>"
proof -
  let ?rows = "eb_rows b @ [\<lparr>br_id = eb_seq b + 1, br_payload = snd i, br_created_at = fst i\<rparr>]"
  let ?c = "of_nat (length ?rows) :: i64"
  have srt: "sorted_wrt (<) (map br_id ?rows)"
    using buffer_inv_inserted [OF assms] unfolding buffer_inv_def by simp
  have c: "sint ?c = int (length (eb_rows b)) + 1"
    using buffer_inv_length [OF assms(1)] assms(2)
    by (subst sint_of_nat_i64) (simp_all add: max_rowid_def)
  have m: "0 \<le> sint (eb_max_events b)"
    using assms(1) by (simp add: buffer_inv_def)
  have d: "sint (?c - eb_max_events b) = int (length (eb_rows b)) + 1 - sint (eb_max_events b)"
    using c m by (subst sint_diff_i64) simp_all
  show ?thesis
  proof (cases "sint ?c > sint (eb_max_events b)")
    case True
    then have "nat (sint (?c - eb_max_events b)) = length (eb_rows b) + 1 - buffer_cap b"
      "\<not> sint (?c - eb_max_events b) < 0"
      using m unfolding d c buffer_cap_def by linarith+
    then show ?thesis
      using True assms(2) delete_prefix_ids [OF srt] sorted_wrt_less_order_by_id [OF srt]
      by (simp add: push_ok_def push_def Let_def sql_limit_def del: of_nat_Suc take_append drop_append map_append)
  next
    case False
    then have "length (eb_rows b) + 1 - buffer_cap b = 0"
      using m unfolding c buffer_cap_def by linarith
    then show ?thesis
      using False assms(2) by (simp add: push_ok_def push_def Let_def del: of_nat_Suc)
  qed
qed

lemma push_ok_full: "max_rowid \<le> eb_seq b \<Longrightarrow> push_ok i b = b"
  by (simp add: push_ok_def push_def)

lemma push_keeps_cap [simp]: "eb_max_events (snd (push fault now e b)) = eb_max_events b"
  by (simp add: push_def Let_def)

lemma push_ok_inv: "buffer_inv b \<Longrightarrow> buffer_inv (push_ok i b)"
  using buffer_inv_deleted [OF buffer_inv_inserted [of b "snd i" "fst i"]]
  by (cases "eb_seq b < max_rowid") (simp_all add: push_ok_rows push_ok_full del: drop_append)

lemma drain_ok_rows:
  assumes "buffer_inv b" "n \<le> nat max_rowid"
  shows "drain_ok n b = (take n (payloads b), b\<lparr>eb_rows := drop n (eb_rows b)\<rparr>)"
proof -
  have n: "sint (of_nat n :: u64) = int n"
    using assms(2) by (subst sint_of_nat_i64) (simp_all add: max_rowid_def)
  have srt: "sorted_wrt (<) (map br_id (eb_rows b))"
    using assms(1) by (simp add: buffer_inv_def)
  show ?thesis
    using n delete_prefix_ids [OF srt, of n] sorted_wrt_less_order_by_id [OF srt]
    by (auto simp: drain_ok_def drain_def Let_def sql_limit_def payloads_def take_map)
qed

lemma drain_ok_keeps:
  "eb_max_events (snd (drain_ok n b)) = eb_max_events b" "eb_seq (snd (drain_ok n b)) = eb_seq b"
  by (simp_all add: drain_ok_def drain_def Let_def)

lemma drain_ok_inv: "buffer_inv b \<Longrightarrow> buffer_inv (snd (drain_ok n b))"
proof -
  assume inv: "buffer_inv b"
  show ?thesis
  proof (cases "sint (of_nat n :: u64) < 0")
    case True
    then show ?thesis using inv by (simp add: drain_ok_def drain_def)
  next
    case False
    have srt: "sorted_wrt (<) (map br_id (eb_rows b))"
      using inv by (simp add: buffer_inv_def)
    have "snd (drain_ok n b) = b\<lparr>eb_rows := drop (nat (sint (of_nat n :: u64))) (eb_rows b)\<rparr>"
      using False delete_prefix_ids [OF srt] sorted_wrt_less_order_by_id [OF srt]
      by (auto simp: drain_ok_def drain_def Let_def sql_limit_def)
    then show ?thesis using buffer_inv_deleted [OF inv] by simp
  qed
qed

interpretation eb: bounded_fifo buffer_inv payloads buffer_cap ids_left snd push_ok drain_ok "nat max_rowid"
proof
  fix b i n
  show "buffer_inv b \<Longrightarrow> buffer_inv (push_ok i b)" by (rule push_ok_inv)
  show "buffer_cap (push_ok i b) = buffer_cap b" by (simp add: buffer_cap_def push_ok_def)
  show "buffer_inv b \<Longrightarrow> 0 < ids_left b \<Longrightarrow>
      payloads (push_ok i b) = drop (length (payloads b) + 1 - buffer_cap b) (payloads b @ [snd i])"
    by (simp add: push_ok_rows ids_left_def payloads_def del: drop_append flip: drop_map)
  show "buffer_inv b \<Longrightarrow> ids_left (push_ok i b) = ids_left b - 1"
    by (cases "eb_seq b < max_rowid") (simp_all add: push_ok_rows push_ok_full ids_left_def)
  show "buffer_inv b \<Longrightarrow> buffer_inv (snd (drain_ok n b))" by (rule drain_ok_inv)
  show "buffer_cap (snd (drain_ok n b)) = buffer_cap b" "ids_left (snd (drain_ok n b)) = ids_left b"
    by (simp_all add: buffer_cap_def ids_left_def drain_ok_keeps)
  show "buffer_inv b \<Longrightarrow> n \<le> nat max_rowid \<Longrightarrow> fst (drain_ok n b) = take n (payloads b)"
    by (simp add: drain_ok_rows)
  show "buffer_inv b \<Longrightarrow> n \<le> nat max_rowid \<Longrightarrow> payloads (snd (drain_ok n b)) = drop n (payloads b)"
    by (simp add: drain_ok_rows payloads_def drop_map)
qed

section \<open>Histories\<close>

text \<open>Every interleaving of the agent's tasks on the shared buffer is a sequence of these atomic
  steps, with any statement failing at any of them.\<close>

inductive buffer_step :: "event_buffer \<Rightarrow> event_buffer \<Rightarrow> bool" where
  step_push: "buffer_step b (snd (push fault now e b))"
| step_drain: "buffer_step b (snd (drain fault n b))"

inductive_cases buffer_stepE: "buffer_step b b'"

lemma push_inserted_or_ok:
  "snd (push fault now e b) = b \<or> snd (push fault now e b) = push_ok (now, e) b \<or>
   (eb_seq b < max_rowid \<and> snd (push fault now e b) =
      b\<lparr>eb_rows := eb_rows b @ [\<lparr>br_id = eb_seq b + 1, br_payload = e, br_created_at = now\<rparr>],
        eb_seq := eb_seq b + 1\<rparr>)"
  by (auto simp: push_def push_ok_def Let_def)

lemma push_inv: "buffer_inv b \<Longrightarrow> buffer_inv (snd (push fault now e b))"
  using push_inserted_or_ok [of fault now e b] push_ok_inv buffer_inv_inserted by metis

lemma drain_ok_or_same:
  "snd (drain fault n b) = b \<or> snd (drain fault n b) = snd (drain_ok (unat n) b)"
  by (auto simp: drain_def drain_ok_def Let_def)

lemma drain_inv: "buffer_inv b \<Longrightarrow> buffer_inv (snd (drain fault n b))"
  using drain_ok_or_same [of fault n b] drain_ok_inv by metis

lemma buffer_step_inv: "buffer_step b b' \<Longrightarrow> buffer_inv b \<Longrightarrow> buffer_inv b'"
  by (erule buffer_stepE) (simp_all add: push_inv drain_inv)

lemma buffer_step_seq_mono: "buffer_step b b' \<Longrightarrow> eb_seq b \<le> eb_seq b'"
  by (erule buffer_stepE) (auto simp: push_def drain_def Let_def)

lemma buffer_step_old_rows:
  "buffer_step b b' \<Longrightarrow> \<forall>r \<in> set (eb_rows b'). br_id r \<le> eb_seq b \<longrightarrow> r \<in> set (eb_rows b)"
  by (erule buffer_stepE) (auto simp: push_def drain_def delete_ids_def Let_def split: if_splits)

section \<open>Properties\<close>

definition sample_buffer :: event_buffer where
  "sample_buffer = \<lparr>eb_rows = [\<lparr>br_id = 3, br_payload = ''a'', br_created_at = 7\<rparr>,
                               \<lparr>br_id = 5, br_payload = ''b'', br_created_at = 9\<rparr>],
                    eb_seq = 6, eb_max_events = 2\<rparr>"

lemma sample_buffer_inv: "buffer_inv sample_buffer"
  by (simp add: buffer_inv_def sample_buffer_def max_rowid_def)

text \<open>C15: a push whose statements succeed implements the bounded queue: the event goes to the
  back, and the oldest events beyond \<open>max_events\<close>, and only those, are evicted.\<close>

theorem push_refines_bounded_fifo:
  assumes "buffer_inv b" "eb_seq b < max_rowid"
  shows "fst (push None now e b) = Ok () \<and>
    payloads (snd (push None now e b)) =
      drop (length (payloads b) + 1 - nat (sint (eb_max_events b))) (payloads b @ [e]) \<and>
    length (payloads (snd (push None now e b))) \<le> nat (sint (eb_max_events b))"
proof -
  have r: "0 < ids_left b" using assms(2) by (simp add: ids_left_def)
  have "fst (push None now e b) = Ok ()"
    using assms(2) by (simp add: push_def Let_def)
  then show ?thesis
    using eb.enq_contents [OF assms(1) r, of "(now, e)"] eb.enq_bounded [OF assms(1) r, of "(now, e)"]
    by (simp add: push_ok_def buffer_cap_def)
qed

theorem push_refines_bounded_fifo_witness:
  "payloads (snd (push None 11 ''c'' sample_buffer)) = [''b'', ''c'']"
  using push_refines_bounded_fifo [OF sample_buffer_inv, of 11 "''c''"]
  by (simp add: sample_buffer_def max_rowid_def payloads_def)

text \<open>C16: a drain whose statements succeed returns the oldest \<open>batch_size\<close> events in order and
  removes exactly those; a drain that fails changes nothing.\<close>

theorem drain_refines_bounded_fifo:
  assumes "buffer_inv b" "0 \<le> sint n"
  shows "fst (drain None n b) = Ok (take (unat n) (payloads b)) \<and>
    payloads (snd (drain None n b)) = drop (unat n) (payloads b) \<and>
    (\<forall>fault err. fst (drain fault n b) = Err err \<longrightarrow> snd (drain fault n b) = b)"
proof -
  have le: "unat n \<le> nat max_rowid"
    using unat_eq_sint_i64 [OF assms(2)] sint_lt [of n] unfolding max_rowid_def by (subst le_nat_iff) simp_all
  have "is_ok (fst (drain None n b))"
    using assms(2) by (simp add: drain_def Let_def)
  then have "drain None n b = (Ok (fst (drain_ok (unat n) b)), snd (drain_ok (unat n) b))"
    by (auto simp: drain_ok_def split: prod.splits sum.splits)
  moreover have "\<forall>fault err. fst (drain fault n b) = Err err \<longrightarrow> snd (drain fault n b) = b"
    by (auto simp: drain_def Let_def)
  ultimately show ?thesis
    using eb.deq_result [OF assms(1) le] eb.deq_contents [OF assms(1) le] by simp
qed

theorem drain_refines_bounded_fifo_witness:
  "fst (drain None 1 sample_buffer) = Ok [''a''] \<and>
   payloads (snd (drain None 1 sample_buffer)) = [''b'']"
  using drain_refines_bounded_fifo [OF sample_buffer_inv, of 1]
  by (simp add: sample_buffer_def payloads_def)

text \<open>C22: along every history of pushes and drains, whatever statement fails at whatever step, the
  rows stay in strictly increasing id order, below the sequence counter, so an id is never
  reused and the queue order is the order of arrival.\<close>

theorem buffer_history_invariant:
  assumes "buffer_step\<^sup>*\<^sup>* b b'" "buffer_inv b"
  shows "buffer_inv b' \<and> eb_seq b \<le> eb_seq b' \<and>
    (\<forall>r \<in> set (eb_rows b'). br_id r \<le> eb_seq b \<longrightarrow> r \<in> set (eb_rows b))"
  using assms
proof (induction rule: rtranclp_induct)
  case base
  then show ?case by simp
next
  case (step y z)
  have "\<forall>r \<in> set (eb_rows z). br_id r \<le> eb_seq y \<longrightarrow> r \<in> set (eb_rows y)"
    using step.hyps(2) by (rule buffer_step_old_rows)
  then show ?case
    using step buffer_step_inv buffer_step_seq_mono by fastforce
qed

theorem buffer_history_invariant_witness:
  "buffer_step\<^sup>*\<^sup>* sample_buffer (snd (drain None 1 (snd (push (Some DeleteRows) 9 ''c'' sample_buffer)))) \<and>
   buffer_inv (snd (drain None 1 (snd (push (Some DeleteRows) 9 ''c'' sample_buffer))))"
proof -
  have r: "buffer_step\<^sup>*\<^sup>* sample_buffer (snd (drain None 1 (snd (push (Some DeleteRows) 9 ''c'' sample_buffer))))"
    by (meson step_push step_drain r_into_rtranclp rtranclp_trans)
  then show ?thesis
    using buffer_history_invariant [OF r sample_buffer_inv] by simp
qed

text \<open>The cast \<open>max_events as i64\<close> is negative from \<open>2^63\<close> on: such a capacity makes every
  successful push empty the table, the pushed event included.\<close>

lemma push_huge_capacity_empties:
  assumes neg: "sint (eb_max_events b) < 0"
    and room: "eb_seq b < max_rowid" "int (length (eb_rows b)) < max_rowid"
  shows "fst (push None now e b) = Ok () \<and> payloads (snd (push None now e b)) = []"
proof -
  let ?rows = "eb_rows b @ [\<lparr>br_id = eb_seq b + 1, br_payload = e, br_created_at = now\<rparr>]"
  let ?c = "of_nat (length ?rows) :: i64"
  have c: "sint ?c = int (length ?rows)"
    using room(2) by (subst sint_of_nat_i64) (simp_all add: max_rowid_def)
  have "sint (?c - eb_max_events b) < 0 \<or> length ?rows \<le> nat (sint (?c - eb_max_events b))"
  proof (cases "sint ?c - sint (eb_max_events b) < 2 ^ 63")
    case True
    then have "sint (?c - eb_max_events b) = sint ?c - sint (eb_max_events b)"
      using neg c by (subst sint_word_ariths(2)) (simp add: signed_take_bit_int_eq_self)
    then show ?thesis using neg c by simp
  next
    case False
    then have "sint (?c - eb_max_events b) = sint ?c - sint (eb_max_events b) - 2 ^ 64"
      by (intro sint_diff_wrap_i64) simp
    then show ?thesis using sint_ge [of "eb_max_events b"] sint_lt [of ?c] by simp
  qed
  then have "set (map br_id ?rows) \<subseteq> set (map br_id (sql_limit (sint (?c - eb_max_events b)) (order_by_id ?rows)))"
    by (auto simp: sql_limit_def order_by_id_def)
  then have "delete_ids (map br_id (sql_limit (sint (?c - eb_max_events b)) (order_by_id ?rows))) ?rows = []"
    unfolding delete_ids_def filter_empty_conv by auto
  moreover have "sint ?c > sint (eb_max_events b)" using neg c by simp
  ultimately show ?thesis
    using room(1) by (simp add: push_def Let_def payloads_def del: of_nat_Suc)
qed

end
