(* ===== verification/Osquery.thy ===== *)
theory Osquery
  imports Prelude "HOL-Library.Finite_Map" "HOL-Library.List_Lexorder" "HOL-Library.Char_ord"
begin

text \<open>
  The osquery collector of the agent, \<open>agent/crates/osquery-client/src\<close>: the differential between
  two result tables (\<open>diff.rs\<close>), the schedule kept in SQLite and the task of one scheduled query
  (\<open>scheduler.rs\<close>), and the results they produce (\<open>types.rs\<close>).

  A row is a \<open>HashMap<String, String>\<close>, here a finite map. The iteration order of Rust's hash
  containers is not specified: wherever the code iterates over one, the order is an argument
  \<open>perm\<close> that rearranges a list, and the theorems hold for every such rearrangement.
\<close>

section \<open>Types\<close>

type_synonym osquery_row = "(string, string) fmap"

record scheduled_query =
  sq_name :: string
  sq_query :: string
  sq_interval_secs :: u64
  sq_snapshot :: bool

record query_status =
  qs_code :: int
  qs_message :: string

record query_response =
  qr_status :: query_status
  qr_rows :: "osquery_row list"

datatype result_action = Snapshot | Added | Removed

fun action_as_str :: "result_action \<Rightarrow> string" where
  "action_as_str Snapshot = ''SNAPSHOT''"
| "action_as_str Added = ''ADDED''"
| "action_as_str Removed = ''REMOVED''"

record column_entry =
  ce_name :: string
  ce_value :: string

record osquery_result_row =
  orr_columns :: "column_entry list"

record osquery_result =
  or_query_name :: string
  or_agent_uuid :: string
  or_timestamp_ns :: int
  or_rows :: "osquery_result_row list"
  or_action :: result_action

section \<open>Differential\<close>

text \<open>\<open>Hash for HashableRow\<close>: the keys are collected in the map's order and sorted before they are
  fed to the hasher \<open>h\<close> with their values.\<close>

definition row_entries :: "osquery_row \<Rightarrow> (string \<times> string) list" where
  "row_entries r = sorted_list_of_fmap r"

definition hash_row :: "(string list \<Rightarrow> string list) \<Rightarrow> (string \<Rightarrow> 'h \<Rightarrow> 'h) \<Rightarrow> osquery_row \<Rightarrow> 'h \<Rightarrow> 'h" where
  "hash_row perm h r st =
     foldl (\<lambda>st k. case fmlookup r k of None \<Rightarrow> h k st | Some v \<Rightarrow> h v (h k st)) st
       (sort (perm (map fst (row_entries r))))"

text \<open>A \<open>HashSet\<close> of rows is the list of its elements without repetition.\<close>

definition hash_set_of :: "'a list \<Rightarrow> 'a list" where
  "hash_set_of rows = foldl (\<lambda>s r. if r \<in> set s then s else s @ [r]) [] rows"

definition compute_diff :: "(osquery_row list \<Rightarrow> osquery_row list) \<Rightarrow> osquery_row list \<Rightarrow> osquery_row list
    \<Rightarrow> osquery_row list \<times> osquery_row list" where
  "compute_diff perm previous_rows current_rows =
     (let prev_set = hash_set_of previous_rows;
          curr_set = hash_set_of current_rows;
          added = perm (filter (\<lambda>r. r \<notin> set prev_set) curr_set);
          removed = perm (filter (\<lambda>r. r \<notin> set curr_set) prev_set)
      in (added, removed))"

section \<open>The schedule\<close>

record schedule_row =
  sr_name :: string
  sr_query :: string
  sr_interval_secs :: int
  sr_snapshot :: int
  sr_updated_at :: timestamp

datatype schedule_error = ScheduleSqlFailure | IntervalOutOfRange | NameConflict

type_synonym schedule = "schedule_row list"

definition default_queries :: "(string \<times> string \<times> int \<times> int) list" where
  "default_queries =
     [(''running_processes'', ''SELECT pid, name, path, cmdline, uid FROM processes;'', 30, 0),
      (''listening_ports'', ''SELECT pid, port, protocol, address FROM listening_ports;'', 30, 0),
      (''users'', ''SELECT username, uid, gid, shell, directory FROM users;'', 300, 0)]"

text \<open>The seeding inserts run one by one, outside a transaction: \<open>faults\<close> says which of them fails.\<close>

fun seed :: "bool list \<Rightarrow> timestamp \<Rightarrow> (string \<times> string \<times> int \<times> int) list \<Rightarrow> schedule
    \<Rightarrow> (schedule_error, unit) result \<times> schedule" where
  "seed faults now [] t = (Ok (), t)"
| "seed faults now ((n, q, i, s) # ds) t =
     (if faults \<noteq> [] \<and> hd faults then (Err ScheduleSqlFailure, t)
      else seed (tl faults) now ds
        (t @ [\<lparr>sr_name = n, sr_query = q, sr_interval_secs = i, sr_snapshot = s, sr_updated_at = now\<rparr>]))"

definition scheduler_new :: "bool list \<Rightarrow> timestamp \<Rightarrow> schedule \<Rightarrow> (schedule_error, unit) result \<times> schedule" where
  "scheduler_new faults now t = (if length t = 0 then seed faults now default_queries t else (Ok (), t))"

text \<open>\<open>interval_secs\<close> is read as a \<open>u64\<close>: a negative stored value is an error.\<close>

definition read_schedule_row :: "schedule_row \<Rightarrow> (schedule_error, scheduled_query) result" where
  "read_schedule_row r =
     (if sr_interval_secs r < 0 then Err IntervalOutOfRange
      else Ok \<lparr>sq_name = sr_name r, sq_query = sr_query r,
               sq_interval_secs = word_of_int (sr_interval_secs r), sq_snapshot = (sr_snapshot r \<noteq> 0)\<rparr>)"

fun load_queries :: "schedule \<Rightarrow> (schedule_error, scheduled_query list) result" where
  "load_queries [] = Ok []"
| "load_queries (r # rs) =
     result_bind (read_schedule_row r) (\<lambda>q. result_bind (load_queries rs) (\<lambda>qs. Ok (q # qs)))"

text \<open>\<open>INSERT ... ON CONFLICT(name) DO UPDATE\<close>; a \<open>u64\<close> parameter above \<open>i64::MAX\<close> cannot be bound.\<close>

definition upsert_row :: "timestamp \<Rightarrow> scheduled_query \<Rightarrow> schedule \<Rightarrow> (schedule_error, schedule) result" where
  "upsert_row now q t =
     (if uint (sq_interval_secs q) > 2 ^ 63 - 1 then Err IntervalOutOfRange
      else
        let new_row = \<lparr>sr_name = sq_name q, sr_query = sq_query q, sr_interval_secs = uint (sq_interval_secs q),
                       sr_snapshot = (if sq_snapshot q then 1 else 0), sr_updated_at = now\<rparr>
        in if \<exists>r \<in> set t. sr_name r = sq_name q
           then Ok (map (\<lambda>r. if sr_name r = sq_name q then new_row else r) t)
           else Ok (t @ [new_row]))"

fun upsert_loop :: "timestamp \<Rightarrow> scheduled_query list \<Rightarrow> schedule \<Rightarrow> (schedule_error, schedule) result" where
  "upsert_loop now [] t = Ok t"
| "upsert_loop now (q # qs) t = result_bind (upsert_row now q t) (upsert_loop now qs)"

text \<open>One transaction: any failure leaves the table as it was. \<open>commit_ok\<close> is the answer of SQLite
  to the statements other than the refused parameter.\<close>

definition upsert_queries :: "bool \<Rightarrow> timestamp \<Rightarrow> scheduled_query list \<Rightarrow> schedule
    \<Rightarrow> (schedule_error, unit) result \<times> schedule" where
  "upsert_queries commit_ok now queries t =
     (case upsert_loop now queries t of
        Inl e \<Rightarrow> (Err e, t)
      | Inr t' \<Rightarrow> if commit_ok then (Ok (), t') else (Err ScheduleSqlFailure, t))"

text \<open>\<open>OsqueryCollector::update_schedule\<close>: opens the schedule (which may seed it), then upserts.\<close>

definition update_schedule :: "bool list \<Rightarrow> bool \<Rightarrow> timestamp \<Rightarrow> scheduled_query list \<Rightarrow> schedule
    \<Rightarrow> (schedule_error, unit) result \<times> schedule" where
  "update_schedule faults commit_ok now queries t =
     (case scheduler_new faults now t of
        (Inl e, t') \<Rightarrow> (Err e, t')
      | (Inr _, t') \<Rightarrow> upsert_queries commit_ok now queries t')"

section \<open>The task of one scheduled query\<close>

definition build_result :: "((string \<times> string) list \<Rightarrow> (string \<times> string) list) \<Rightarrow> int option
    \<Rightarrow> string \<Rightarrow> string \<Rightarrow> osquery_row list \<Rightarrow> result_action \<Rightarrow> osquery_result" where
  "build_result cperm now_ns query_name agent_uuid rows action =
     \<lparr>or_query_name = query_name, or_agent_uuid = agent_uuid, or_timestamp_ns = unwrap_or 0 now_ns,
      or_rows = map (\<lambda>row. \<lparr>orr_columns = map (\<lambda>(k, v). \<lparr>ce_name = k, ce_value = v\<rparr>) (cperm (row_entries row))\<rparr>) rows,
      or_action = action\<rparr>"

record query_task =
  qt_previous_rows :: "osquery_row list"
  qt_first_run :: bool
  qt_running :: bool

definition task_init :: query_task where
  "task_init = \<lparr>qt_previous_rows = [], qt_first_run = True, qt_running = True\<rparr>"

text \<open>What one tick observes: the answer of osquery, the clock at each result built, and whether
  each of the (at most two) sends finds the result channel open.\<close>

record tick_env =
  te_response :: "(string, query_response) result"
  te_now :: "int option"
  te_open :: "bool \<times> bool"

definition task_tick :: "(osquery_row list \<Rightarrow> osquery_row list) \<Rightarrow> ((string \<times> string) list \<Rightarrow> (string \<times> string) list)
    \<Rightarrow> scheduled_query \<Rightarrow> string \<Rightarrow> tick_env \<Rightarrow> query_task \<Rightarrow> query_task \<times> osquery_result list" where
  "task_tick perm cperm q agent_uuid env st =
     (case te_response env of
        Inl e \<Rightarrow> (st, [])
      | Inr response \<Rightarrow>
          if qs_code (qr_status response) \<noteq> 0 then (st, [])
          else
            let current_rows = qr_rows response;
                build = build_result cperm (te_now env) (sq_name q) agent_uuid
            in if sq_snapshot q then
                 (if fst (te_open env) then (st, [build current_rows Snapshot])
                  else (st\<lparr>qt_running := False\<rparr>, []))
               else if qt_first_run st then
                 (if fst (te_open env)
                  then (st\<lparr>qt_first_run := False, qt_previous_rows := current_rows\<rparr>, [build current_rows Snapshot])
                  else (st\<lparr>qt_running := False\<rparr>, []))
               else
                 let (added, removed) = compute_diff perm (qt_previous_rows st) current_rows in
                 if added \<noteq> [] \<and> \<not> fst (te_open env) then (st\<lparr>qt_running := False\<rparr>, [])
                 else
                   let out1 = (if added \<noteq> [] then [build added Added] else []) in
                   if removed \<noteq> [] \<and> \<not> snd (te_open env) then (st\<lparr>qt_running := False\<rparr>, out1)
                   else (st\<lparr>qt_previous_rows := current_rows\<rparr>,
                         out1 @ (if removed \<noteq> [] then [build removed Removed] else [])))"

fun task_run :: "(osquery_row list \<Rightarrow> osquery_row list) \<Rightarrow> ((string \<times> string) list \<Rightarrow> (string \<times> string) list)
    \<Rightarrow> scheduled_query \<Rightarrow> string \<Rightarrow> tick_env list \<Rightarrow> query_task \<Rightarrow> query_task \<times> osquery_result list" where
  "task_run perm cperm q agent_uuid [] st = (st, [])"
| "task_run perm cperm q agent_uuid (e # es) st =
     (if \<not> qt_running st then (st, [])
      else let (st1, out1) = task_tick perm cperm q agent_uuid e st;
               (st2, out2) = task_run perm cperm q agent_uuid es st1
           in (st2, out1 @ out2))"

text \<open>\<open>run\<close>: what is spawned. An empty or unreadable schedule starts nothing; a query with period
  zero starts a task that panics in \<open>tokio::time::interval\<close> before its first tick.\<close>

definition scheduler_run :: "schedule \<Rightarrow> (scheduled_query \<times> query_task option) list" where
  "scheduler_run t = (case load_queries t of
     Inl _ \<Rightarrow> []
   | Inr queries \<Rightarrow> map (\<lambda>q. (q, if sq_interval_secs q = 0 then None else Some task_init)) queries)"

section \<open>Lemmas on the differential\<close>

lemma reorders_rev [simp]: "reorders rev"
  by (simp add: reorders_def)

lemma hash_set_fold:
  "set (foldl (\<lambda>s r. if r \<in> set s then s else s @ [r]) acc rows) = set acc \<union> set rows \<and>
   (distinct acc \<longrightarrow> distinct (foldl (\<lambda>s r. if r \<in> set s then s else s @ [r]) acc rows))"
  by (induction rows arbitrary: acc) auto

lemma hash_set_of_set [simp]: "set (hash_set_of rows) = set rows"
  using hash_set_fold [of "[]" rows] by (simp add: hash_set_of_def)

lemma hash_set_of_distinct [simp]: "distinct (hash_set_of rows)"
  using hash_set_fold [of "[]" rows] by (simp add: hash_set_of_def)

lemma compute_diff_sets:
  assumes "reorders perm" "compute_diff perm prev cur = (added, removed)"
  shows "set added = set cur - set prev" "set removed = set prev - set cur"
    "distinct added" "distinct removed"
  using assms by (auto simp: compute_diff_def Let_def set_reorders distinct_reorders)

lemma sort_eq_if_mset_eq: "mset xs = mset ys \<Longrightarrow> sort xs = sort ys"
  by (rule properties_for_sort) simp_all

text \<open>The sorting of the keys makes the hash a function of the row, whatever the order in which
  the map yields them, which is what \<open>Eq\<close> and \<open>Hash\<close> owe each other.\<close>

lemma hash_row_order_independent:
  assumes "reorders perm" "reorders perm'"
  shows "hash_row perm h r st = hash_row perm' h r st"
proof -
  have "mset (perm (map fst (row_entries r))) = mset (perm' (map fst (row_entries r)))"
    using assms by (simp add: reorders_def)
  then have "sort (perm (map fst (row_entries r))) = sort (perm' (map fst (row_entries r)))"
    by (rule sort_eq_if_mset_eq)
  then show ?thesis
    by (simp add: hash_row_def)
qed

section \<open>Lemmas on results\<close>

definition row_of_columns :: "osquery_result_row \<Rightarrow> osquery_row" where
  "row_of_columns rr = fmap_of_list (map (\<lambda>c. (ce_name c, ce_value c)) (orr_columns rr))"

definition result_table :: "osquery_result \<Rightarrow> osquery_row list" where
  "result_table res = map row_of_columns (or_rows res)"

lemma row_entries_distinct: "distinct (map fst (row_entries r))"
  by (simp add: row_entries_def sorted_list_of_fmap_def comp_def sorted_list_of_fset.rep_eq)

lemma fmap_of_reordered_entries:
  assumes "reorders cperm"
  shows "fmap_of_list (cperm (row_entries r)) = r"
proof (rule fmap_ext)
  fix k
  have m: "mset (cperm (row_entries r)) = mset (row_entries r)"
    using assms by (simp add: reorders_def)
  then have "mset (map fst (cperm (row_entries r))) = mset (map fst (row_entries r))"
    by (metis mset_map)
  then have "distinct (map fst (cperm (row_entries r)))"
    using row_entries_distinct mset_eq_imp_distinct_iff by blast
  then have "map_of (cperm (row_entries r)) = map_of (row_entries r)"
    using m row_entries_distinct by (metis map_of_inject_set mset_eq_setD)
  then show "fmlookup (fmap_of_list (cperm (row_entries r))) k = fmlookup r k"
    by (simp add: fmlookup_of_list row_entries_def)
qed

lemma result_table_build [simp]:
  "reorders cperm \<Longrightarrow> result_table (build_result cperm now n u rows act) = rows"
  by (induction rows)
    (simp_all add: result_table_def build_result_def row_of_columns_def comp_def case_prod_beta
      fmap_of_reordered_entries)

lemma build_result_action [simp]: "or_action (build_result cperm now n u rows act) = act"
  by (simp add: build_result_def)

text \<open>What a consumer of the result stream reconstructs.\<close>

definition apply_result :: "osquery_row set \<Rightarrow> osquery_result \<Rightarrow> osquery_row set" where
  "apply_result S res = (case or_action res of
     Snapshot \<Rightarrow> set (result_table res)
   | Added \<Rightarrow> S \<union> set (result_table res)
   | Removed \<Rightarrow> S - set (result_table res))"

definition replay :: "osquery_row set \<Rightarrow> osquery_result list \<Rightarrow> osquery_row set" where
  "replay S rs = foldl apply_result S rs"

definition good_response :: "tick_env \<Rightarrow> osquery_row list option" where
  "good_response env = (case te_response env of
     Inl _ \<Rightarrow> None | Inr r \<Rightarrow> if qs_code (qr_status r) = 0 then Some (qr_rows r) else None)"

definition last_table :: "osquery_row set \<Rightarrow> tick_env list \<Rightarrow> osquery_row set" where
  "last_table S es = foldl (\<lambda>S e. case good_response e of None \<Rightarrow> S | Some rows \<Rightarrow> set rows) S es"

text \<open>What the task remembers agrees with what the consumer has.\<close>

definition task_sync :: "scheduled_query \<Rightarrow> query_task \<Rightarrow> osquery_row set \<Rightarrow> bool" where
  "task_sync q st S \<longleftrightarrow> sq_snapshot q \<or> qt_first_run st \<or> S = set (qt_previous_rows st)"

lemma task_tick_bad: "good_response env = None \<Longrightarrow> task_tick perm cperm q u env st = (st, [])"
  by (auto simp: good_response_def task_tick_def split: sum.splits if_splits)

lemma task_tick_good:
  assumes "good_response env = Some rows" "te_open env = (True, True)"
    and "compute_diff perm (qt_previous_rows st) rows = (added, removed)"
  shows "task_tick perm cperm q u env st =
    (let build = build_result cperm (te_now env) (sq_name q) u in
     if sq_snapshot q then (st, [build rows Snapshot])
     else if qt_first_run st
     then (st\<lparr>qt_first_run := False, qt_previous_rows := rows\<rparr>, [build rows Snapshot])
     else (st\<lparr>qt_previous_rows := rows\<rparr>,
           (if added \<noteq> [] then [build added Added] else []) @ (if removed \<noteq> [] then [build removed Removed] else [])))"
  using assms by (auto simp: good_response_def task_tick_def Let_def split: sum.splits if_splits)

lemma replay_simps [simp]:
  "replay S [] = S" "replay S (r # rs) = replay (apply_result S r) rs"
  by (simp_all add: replay_def)

lemma apply_build [simp]:
  assumes "reorders cperm"
  shows "apply_result S (build_result cperm now n u rows Snapshot) = set rows"
    "apply_result S (build_result cperm now n u rows Added) = S \<union> set rows"
    "apply_result S (build_result cperm now n u rows Removed) = S - set rows"
  using assms by (simp_all add: apply_result_def)

lemma task_tick_sync:
  assumes "reorders perm" "reorders cperm" "te_open env = (True, True)" "task_sync q st S"
    and "task_tick perm cperm q u env st = (st', out)"
  shows "qt_running st' = qt_running st \<and>
    replay S out = (case good_response env of None \<Rightarrow> S | Some rows \<Rightarrow> set rows) \<and>
    task_sync q st' (replay S out)"
proof (cases "good_response env")
  case None
  then show ?thesis using assms(4,5) by (simp add: task_tick_bad)
next
  case (Some rows)
  obtain added removed where d: "compute_diff perm (qt_previous_rows st) rows = (added, removed)"
    by fastforce
  note tick = task_tick_good [OF Some assms(3) d, of cperm q u]
  note ds = compute_diff_sets [OF assms(1) d]
  show ?thesis
  proof (cases "sq_snapshot q \<or> qt_first_run st")
    case True
    then show ?thesis
      using assms(2,5) Some tick by (auto simp: task_sync_def Let_def split: if_splits)
  next
    case False
    then have "S = set (qt_previous_rows st)"
      using assms(4) by (simp add: task_sync_def)
    moreover have "(S \<union> set added) - set removed = set rows"
      using ds calculation by auto
    moreover have "st' = st\<lparr>qt_previous_rows := rows\<rparr>" "replay S out = (S \<union> set added) - set removed"
      using assms(2,5) tick False by (auto simp: Let_def split: if_splits)
    ultimately show ?thesis
      using Some by (simp add: task_sync_def)
  qed
qed

lemma replay_append: "replay S (xs @ ys) = replay (replay S xs) ys"
  by (simp add: replay_def)

lemma task_run_sync:
  assumes "reorders perm" "reorders cperm" "\<forall>e \<in> set es. te_open e = (True, True)"
    and "qt_running st" "task_sync q st S"
  shows "replay S (snd (task_run perm cperm q u es st)) = last_table S es"
  using assms(3-5)
proof (induction es arbitrary: st S)
  case Nil
  then show ?case by (simp add: replay_def last_table_def)
next
  case (Cons e es)
  obtain st1 out1 where t: "task_tick perm cperm q u e st = (st1, out1)" by fastforce
  have "te_open e = (True, True)" using Cons.prems(1) by simp
  note s = task_tick_sync [OF assms(1,2) this Cons.prems(3) t]
  have "qt_running st1" "task_sync q st1 (replay S out1)"
    and r: "replay S out1 = (case good_response e of None \<Rightarrow> S | Some rows \<Rightarrow> set rows)"
    using s Cons.prems(2) by blast+
  then have "replay (replay S out1) (snd (task_run perm cperm q u es st1)) = last_table (replay S out1) es"
    using Cons.IH Cons.prems(1) by simp
  then show ?case
    using t r Cons.prems(2) by (simp add: replay_append last_table_def case_prod_beta)
qed

section \<open>Lemmas on the schedule\<close>

definition schedule_inv :: "schedule \<Rightarrow> bool" where
  "schedule_inv t \<longleftrightarrow> distinct (map sr_name t) \<and>
     (\<forall>r \<in> set t. 0 \<le> sr_interval_secs r \<and> sr_interval_secs r < 2 ^ 63)"

definition query_named :: "string \<Rightarrow> scheduled_query list \<Rightarrow> scheduled_query option" where
  "query_named n qs = find (\<lambda>q. sq_name q = n) qs"

lemma load_queries_ok:
  assumes "schedule_inv t"
  shows "load_queries t = Ok (map (\<lambda>r. \<lparr>sq_name = sr_name r, sq_query = sr_query r,
    sq_interval_secs = word_of_int (sr_interval_secs r), sq_snapshot = (sr_snapshot r \<noteq> 0)\<rparr>) t)"
  using assms by (induction t) (simp_all add: schedule_inv_def read_schedule_row_def)

definition row_of_query :: "timestamp \<Rightarrow> scheduled_query \<Rightarrow> schedule_row" where
  "row_of_query now q = \<lparr>sr_name = sq_name q, sr_query = sq_query q, sr_interval_secs = uint (sq_interval_secs q),
     sr_snapshot = (if sq_snapshot q then 1 else 0), sr_updated_at = now\<rparr>"

definition row_named :: "string \<Rightarrow> schedule \<Rightarrow> schedule_row option" where
  "row_named n t = find (\<lambda>r. sr_name r = n) t"

lemma row_named_append:
  "row_named n (t @ [r]) = (case row_named n t of Some x \<Rightarrow> Some x | None \<Rightarrow> if sr_name r = n then Some r else None)"
  by (induction t) (simp_all add: row_named_def)

lemma row_named_None: "row_named n t = None \<longleftrightarrow> (\<forall>r \<in> set t. sr_name r \<noteq> n)"
  by (auto simp: row_named_def find_None_iff)

lemma row_named_replace:
  assumes "sr_name new = m"
  shows "row_named n (map (\<lambda>r. if sr_name r = m then new else r) t) =
    (if n = m then (if \<exists>r \<in> set t. sr_name r = m then Some new else None) else row_named n t)"
  using assms by (induction t) (auto simp: row_named_def)

lemma upsert_row_ok:
  assumes "schedule_inv t" "upsert_row now q t = Inr t'"
  shows "schedule_inv t'" and "row_named n t' = (if n = sq_name q then Some (row_of_query now q) else row_named n t)"
proof -
  let ?new = "row_of_query now q"
  have i: "uint (sq_interval_secs q) < 2 ^ 63"
    using assms(2) by (auto simp: upsert_row_def split: if_splits)
  have t': "t' = (if \<exists>r \<in> set t. sr_name r = sq_name q
      then map (\<lambda>r. if sr_name r = sq_name q then ?new else r) t else t @ [?new])"
    using assms(2) by (auto simp: upsert_row_def row_of_query_def Let_def split: if_splits)
  have nm: "sr_name ?new = sq_name q" "0 \<le> sr_interval_secs ?new \<and> sr_interval_secs ?new < 2 ^ 63"
    using i by (simp_all add: row_of_query_def)
  have "sr_name \<circ> (\<lambda>r. if sr_name r = sq_name q then ?new else r) = sr_name"
    using nm(1) by auto
  then show "schedule_inv t'"
    using assms(1) nm unfolding t' schedule_inv_def by auto
  show "row_named n t' = (if n = sq_name q then Some ?new else row_named n t)"
  proof (cases "\<exists>r \<in> set t. sr_name r = sq_name q")
    case True
    then show ?thesis unfolding t' by (simp add: row_named_replace nm)
  next
    case False
    then have "row_named (sq_name q) t = None" by (simp add: row_named_None)
    then show ?thesis using False unfolding t' by (auto simp: row_named_append nm split: option.split)
  qed
qed

lemma upsert_loop_ok:
  assumes "schedule_inv t" "upsert_loop now qs t = Inr t'"
  shows "schedule_inv t' \<and> row_named n t' =
    (case find (\<lambda>q. sq_name q = n) (rev qs) of Some q \<Rightarrow> Some (row_of_query now q) | None \<Rightarrow> row_named n t)"
  using assms
proof (induction qs arbitrary: t)
  case Nil
  then show ?case by simp
next
  case (Cons q qs)
  from Cons.prems(2) obtain t1 where t1: "upsert_row now q t = Inr t1" "upsert_loop now qs t1 = Inr t'"
    by (auto simp: result_bind_Inr_iff)
  note u = upsert_row_ok [OF Cons.prems(1) t1(1)]
  show ?case
    using Cons.IH [OF u(1) t1(2)] u(2) by (auto simp: find_append split: option.splits)
qed

lemma upsert_loop_total:
  "\<forall>q \<in> set qs. uint (sq_interval_secs q) < 2 ^ 63 \<Longrightarrow> \<exists>t'. upsert_loop now qs t = Inr t'"
  by (induction qs arbitrary: t) (auto simp: upsert_row_def Let_def)

lemma query_of_row_of_query:
  "read_schedule_row (row_of_query now q) = Ok q" if "uint (sq_interval_secs q) < 2 ^ 63"
  by (simp add: read_schedule_row_def row_of_query_def)

lemma query_named_loaded:
  assumes "schedule_inv t" "load_queries t = Inr qs"
  shows "query_named n qs = Option.bind (row_named n t) (\<lambda>r. ok_opt (read_schedule_row r))"
  using assms
proof (induction t arbitrary: qs)
  case Nil
  then show ?case by (simp add: query_named_def row_named_def)
next
  case (Cons r t)
  then show ?case
    by (auto simp: query_named_def row_named_def schedule_inv_def result_bind_Inr_iff read_schedule_row_def
        split: if_splits)
qed

section \<open>Properties\<close>

definition sample_row :: "string \<Rightarrow> osquery_row" where
  "sample_row p = fmap_of_list [(''pid'', p)]"

definition sample_tick :: "osquery_row list \<Rightarrow> tick_env" where
  "sample_tick rows = \<lparr>te_response = Ok \<lparr>qr_status = \<lparr>qs_code = 0, qs_message = ''OK''\<rparr>, qr_rows = rows\<rparr>,
     te_now = Some 5, te_open = (True, True)\<rparr>"

definition sample_query :: scheduled_query where
  "sample_query = \<lparr>sq_name = ''users'', sq_query = ''SELECT 1;'', sq_interval_secs = 60, sq_snapshot = False\<rparr>"

text \<open>C32: the differential is exact: for every iteration order of the hash sets, \<open>added\<close> lists
  without repetition the rows of the current table that the previous one lacks, \<open>removed\<close> those
  of the previous table that the current one lacks, and applying both to the previous table
  gives the current one.\<close>

theorem compute_diff_exact:
  assumes "reorders perm" "compute_diff perm prev cur = (added, removed)"
  shows "set added = set cur - set prev \<and> set removed = set prev - set cur \<and>
    distinct added \<and> distinct removed \<and> (set prev - set removed) \<union> set added = set cur"
  using compute_diff_sets [OF assms] by auto

theorem compute_diff_exact_witness:
  "set (fst (compute_diff rev [sample_row ''1'', sample_row ''2''] [sample_row ''3'']))
     = set [sample_row ''3''] - set [sample_row ''1'', sample_row ''2'']"
  using compute_diff_exact [OF reorders_rev, of "[sample_row ''1'', sample_row ''2'']" "[sample_row ''3'']"]
  by (metis prod.collapse)

text \<open>C33: whatever osquery answers tick after tick (errors and non-zero status codes included),
  a consumer that replays the results a query's task sends, SNAPSHOT replacing its table, ADDED
  adding to it and REMOVED removing from it, holds exactly the rows of the last good answer, in
  snapshot mode and in differential mode.\<close>

theorem task_results_track_table:
  assumes "reorders perm" "reorders cperm" "\<forall>e \<in> set es. te_open e = (True, True)"
  shows "replay {} (snd (task_run perm cperm q u es task_init)) = last_table {} es"
  using task_run_sync [OF assms, of task_init q "{}" u] by (simp add: task_init_def task_sync_def)

theorem task_results_track_table_witness:
  "replay {} (snd (task_run rev rev sample_query ''u''
      [sample_tick [sample_row ''1'', sample_row ''2''], sample_tick [sample_row ''2'', sample_row ''3'']] task_init))
   = {sample_row ''2'', sample_row ''3''}"
  using task_results_track_table [of rev rev
      "[sample_tick [sample_row ''1'', sample_row ''2''], sample_tick [sample_row ''2'', sample_row ''3'']]"]
  by (simp add: sample_tick_def last_table_def good_response_def)

text \<open>What is upserted is what is loaded: after a committed upsert, loading the schedule gives
  for every name the last query of the batch with that name, or, when the batch has none, the
  query the schedule had before; names stay unique.\<close>

lemma upsert_load_roundtrip:
  assumes "schedule_inv t" "\<forall>q \<in> set qs. uint (sq_interval_secs q) < 2 ^ 63"
  shows "\<exists>t' old new. upsert_queries True now qs t = (Ok (), t') \<and> schedule_inv t' \<and>
    load_queries t = Ok old \<and> load_queries t' = Ok new \<and>
    (\<forall>n. query_named n new = or_else (query_named n (rev qs)) (query_named n old))"
proof -
  obtain t' where t': "upsert_loop now qs t = Inr t'"
    using upsert_loop_total [OF assms(2)] by blast
  note u = upsert_loop_ok [OF assms(1) t']
  obtain old new where l: "load_queries t = Ok old" "load_queries t' = Ok new"
    using load_queries_ok [OF assms(1)] load_queries_ok [OF conjunct1 [OF u]] by blast
  have "query_named n new = or_else (query_named n (rev qs)) (query_named n old)" for n
  proof (cases "find (\<lambda>q. sq_name q = n) (rev qs)")
    case None
    then show ?thesis
      using u query_named_loaded [OF assms(1) l(1)] query_named_loaded [OF _ l(2)]
      by (simp add: query_named_def)
  next
    case (Some q)
    then have "q \<in> set qs" using find_SomeD by fastforce
    then show ?thesis
      using Some u query_named_loaded [OF _ l(2)] assms(2)
      by (simp add: query_named_def query_of_row_of_query)
  qed
  then show ?thesis
    using t' u l by (auto simp: upsert_queries_def)
qed

lemma upsert_load_roundtrip_witness:
  "\<exists>t' old new. upsert_queries True 7 [sample_query] (snd (scheduler_new [] 3 [])) = (Ok (), t') \<and>
    schedule_inv t' \<and> load_queries (snd (scheduler_new [] 3 [])) = Ok old \<and> load_queries t' = Ok new \<and>
    (\<forall>n. query_named n new = or_else (query_named n (rev [sample_query])) (query_named n old))"
  by (rule upsert_load_roundtrip)
    (simp_all add: schedule_inv_def scheduler_new_def default_queries_def sample_query_def)

text \<open>The seeding is not atomic: when the second insert fails the first row stays, and the next
  start finds a non-empty table and never seeds the rest.\<close>

lemma seeding_failure_is_permanent:
  "map sr_name (snd (scheduler_new [False, True] now [])) = [''running_processes''] \<and>
   scheduler_new faults now' (snd (scheduler_new [False, True] now [])) =
     (Ok (), snd (scheduler_new [False, True] now []))"
  by (simp add: scheduler_new_def default_queries_def)

end
