(* ===== verification/Json.thy ===== *)
theory Json
  imports Prelude "HOL-Library.AList"
begin

text \<open>
  The JSON values (\<open>serde_json::Value\<close>) that every service reads and builds, with the accessors
  the sources call on them: \<open>get\<close>, the index \<open>v["k"]\<close>, \<open>as_str\<close>, \<open>as_i64\<close>, \<open>as_f64\<close>,
  \<open>as_array\<close>, \<open>as_object\<close> and the insertion of a key. Parsing and printing of JSON text
  (\<open>from_slice\<close>, \<open>to_vec\<close>) are third-party code and stay parameters of the definitions
  that call them.

  A number is the integer it holds (between \<open>- 2^63\<close> and \<open>2^64 - 1\<close>) or the bits of a
  double. An object is an association list with distinct keys; its order is not observed.
\<close>

datatype json =
    JNull
  | JBool bool
  | JInt int
  | JFloat "64 word"
  | JString string
  | JArray "json list"
  | JObject "(string \<times> json) list"

fun as_str :: "json \<Rightarrow> string option" where
  "as_str (JString s) = Some s"
| "as_str _ = None"

fun as_i64 :: "json \<Rightarrow> int option" where
  "as_i64 (JInt i) = (if - (2 ^ 63) \<le> i \<and> i < 2 ^ 63 then Some i else None)"
| "as_i64 _ = None"

fun as_array :: "json \<Rightarrow> json list option" where
  "as_array (JArray xs) = Some xs"
| "as_array _ = None"

fun as_object :: "json \<Rightarrow> (string \<times> json) list option" where
  "as_object (JObject kvs) = Some kvs"
| "as_object _ = None"

text \<open>\<open>Value::get\<close> with a string key: \<open>None\<close> unless the value is an object with that key.\<close>

definition jget :: "string \<Rightarrow> json \<Rightarrow> json option" where
  "jget k v = Option.bind (as_object v) (\<lambda>kvs. map_of kvs k)"

text \<open>The index \<open>v["k"]\<close>: the null value where \<open>get\<close> returns nothing.\<close>

definition jindex :: "json \<Rightarrow> string \<Rightarrow> json" where
  "jindex v k = unwrap_or JNull (jget k v)"

definition jinsert :: "string \<Rightarrow> json \<Rightarrow> (string \<times> json) list \<Rightarrow> (string \<times> json) list" where
  "jinsert k x kvs = AList.update k x kvs"

text \<open>Looking one level further, as \<open>get("payload").and_then(|p| p.get(k))\<close> does.\<close>

definition jget2 :: "string \<Rightarrow> string \<Rightarrow> json \<Rightarrow> json option" where
  "jget2 k k' v = Option.bind (jget k v) (jget k')"

definition get_str :: "string \<Rightarrow> json \<Rightarrow> string option" where
  "get_str k v = Option.bind (jget k v) as_str"

lemma jget_JObject [simp]: "jget k (JObject kvs) = map_of kvs k"
  by (simp add: jget_def)

lemma jget_not_object [simp]: "as_object v = None \<Longrightarrow> jget k v = None"
  by (simp add: jget_def)

lemma map_of_jinsert [simp]: "map_of (jinsert k x kvs) = (map_of kvs)(k \<mapsto> x)"
  by (simp add: jinsert_def update_conv')

lemma jget_jinsert [simp]:
  "jget k' (JObject (jinsert k x kvs)) = (if k' = k then Some x else jget k' (JObject kvs))"
  by simp

lemma distinct_jinsert [simp]:
  "distinct (map fst kvs) \<Longrightarrow> distinct (map fst (jinsert k x kvs))"
  by (simp add: jinsert_def distinct_update)

lemma as_str_Some_iff [simp]: "as_str v = Some s \<longleftrightarrow> v = JString s"
  by (cases v) simp_all

lemma as_array_Some_iff [simp]: "as_array v = Some xs \<longleftrightarrow> v = JArray xs"
  by (cases v) simp_all

lemma as_object_Some_iff [simp]: "as_object v = Some xs \<longleftrightarrow> v = JObject xs"
  by (cases v) simp_all

end
