(* ===== verification/Proto.thy ===== *)
theory Proto
  imports Json
begin

text \<open>
  The messages of the fleet protocol, \<open>sdk/proto/fleet.proto\<close>, as both ends exchange them: the
  structs the build generates from this file have one field per field of the message, an
  \<open>Option\<close> for a message-typed field and an enum under an \<open>Option\<close> for the \<open>oneof\<close>. The models of
  \<open>sdk/src/models\<close> and the agent's own event types (\<open>agent/crates/fleet-client/src/types.rs\<close>)
  follow, then the status a call of the service can fail with and the JSON codec of \<open>sdk/src/codec.rs\<close>.
\<close>

record register_request =
  rq_hostname :: string
  rq_os_version :: string
  rq_agent_version :: string
  rq_machine_id :: string

record osquery_schedule =
  os_name :: string
  os_query :: string
  os_interval_secs :: int

record proto_agent_config =
  pac_osquery_schedule :: "osquery_schedule list"
  pac_heartbeat_interval_secs :: int
  pac_batch_size :: int

record register_response =
  rs_node_id :: string
  rs_token :: string
  rs_config :: "proto_agent_config option"

record proto_event =
  pe_node_id :: string
  pe_event_type :: string
  pe_payload :: bytes
  pe_timestamp_ns :: i64
  pe_sequence_id :: string

record isolate_command =
  ic_isolate :: bool
  ic_reason :: string

datatype command =
    Isolate isolate_command
  | ConfigUpdate "proto_agent_config option"
  | Ack string

record server_command =
  sc_command :: "command option"

record heartbeat_request =
  hr_node_id :: string
  hr_status :: string
  hr_events_buffered :: i64

record heartbeat_response =
  hb_ok :: bool

section \<open>Models of the sdk\<close>

record event_batch =
  bt_node_id :: uuid
  bt_events :: "json list"

record event_ack =
  ack_success :: bool
  ack_error :: "string option"

record enrollment_request =
  enr_enrollment_secret :: string
  enr_hostname :: string
  enr_os_version :: string
  enr_agent_version :: string
  enr_platform :: string

record enrollment_response =
  ens_node_id :: uuid
  ens_status :: string

datatype agent_message_type = EnrollmentRequest | EventBatch | Heartbeat

record agent_message =
  am_message_type :: agent_message_type
  am_payload :: json
  am_timestamp :: timestamp
  am_node_id :: "uuid option"

datatype server_message_type = EnrollmentResponse | HeartbeatResponse | EventAck | Command | ErrorMessage

record server_message =
  sm_message_type :: server_message_type
  sm_payload :: json
  sm_timestamp :: timestamp

section \<open>The agent's events\<close>

datatype event_type = Osquery | Process | File | Network

fun event_type_as_i32 :: "event_type \<Rightarrow> int" where
  "event_type_as_i32 Osquery = 0"
| "event_type_as_i32 Process = 1"
| "event_type_as_i32 File = 2"
| "event_type_as_i32 Network = 3"

datatype agent_status = Healthy | Degraded | Isolated

fun agent_status_as_str :: "agent_status \<Rightarrow> string" where
  "agent_status_as_str Healthy = ''healthy''"
| "agent_status_as_str Degraded = ''degraded''"
| "agent_status_as_str Isolated = ''isolated''"

record agent_event =
  ae_node_id :: string
  ae_event_type :: int
  ae_payload :: json
  ae_timestamp_ns :: int
  ae_sequence_id :: string

text \<open>\<open>#[derive(Serialize)]\<close> of \<open>AgentEvent\<close>: an object with the fields under their names.\<close>

definition agent_event_json :: "agent_event \<Rightarrow> json" where
  "agent_event_json e = JObject
     [(''node_id'', JString (ae_node_id e)), (''event_type'', JInt (ae_event_type e)),
      (''payload'', ae_payload e), (''timestamp_ns'', JInt (ae_timestamp_ns e)),
      (''sequence_id'', JString (ae_sequence_id e))]"

section \<open>Calls of the service\<close>

datatype grpc_code = InvalidArgument | Unauthenticated | Internal | Unavailable | NotFound

record grpc_status =
  gs_code :: grpc_code
  gs_message :: string

definition status_of :: "grpc_code \<Rightarrow> string \<Rightarrow> grpc_status" where
  "status_of c m = \<lparr>gs_code = c, gs_message = m\<rparr>"

text \<open>Metadata of a request: header names and values.\<close>

type_synonym metadata = "(string \<times> string) list"

section \<open>The JSON codec\<close>

text \<open>\<open>to_vec\<close> and \<open>from_slice\<close> are \<open>serde_json\<close>'s, with the message of the error they give.\<close>

definition codec_encode :: "('t \<Rightarrow> (string, bytes) result) \<Rightarrow> 't \<Rightarrow> bytes \<Rightarrow> (grpc_status, bytes) result" where
  "codec_encode to_vec item dst =
     result_bind (map_err (status_of Internal) (to_vec item)) (\<lambda>b. Ok (dst @ b))"

definition codec_decode :: "(bytes \<Rightarrow> (string, 'u) result) \<Rightarrow> bytes \<Rightarrow> (grpc_status, 'u option) result \<times> bytes" where
  "codec_decode from_slice src =
     (if src = [] then (Ok None, src)
      else (result_bind (map_err (status_of Internal) (from_slice src)) (\<lambda>item. Ok (Some item)), []))"

lemma codec_roundtrip:
  assumes "codec_encode to_vec item [] = Ok buf" "buf \<noteq> []"
    and "\<And>x b. to_vec x = Ok b \<Longrightarrow> from_slice b = Ok x"
  shows "codec_decode from_slice buf = (Ok (Some item), [])"
  using assms by (auto simp: codec_encode_def codec_decode_def result_bind_Inr_iff)

end
