(* ===== verification/Isolation.thy ===== *)
theory Isolation
  imports Json Proto
begin

text \<open>
  Network isolation of a host, \<open>agent/crates/isolation/src/lib.rs\<close>, and the dispatch of the fleet
  server's commands to it, \<open>agent/crates/agent-core/src/command_handler.rs\<close>. The program \<open>nft\<close> is
  not part of the repository: its runs are the fields of a record over the state \<open>'w\<close> of the host's
  packet filter; what the theorems need of it, and what its rules mean, is in the theory \<open>Quarantine\<close>.
\<close>

section \<open>Addresses\<close>

datatype ip_addr = V4 "32 word" | V6 "128 word"

definition hex_digit :: "nat \<Rightarrow> char" where
  "hex_digit d = (if d < 10 then char_of (48 + d) else char_of (87 + d))"

fun show_hex :: "nat \<Rightarrow> string" where
  "show_hex n = (if n < 16 then [hex_digit n] else show_hex (n div 16) @ [hex_digit (n mod 16)])"

declare show_hex.simps [simp del]

definition show_v4 :: "32 word \<Rightarrow> string" where
  "show_v4 a = join_with ''.'' (map (\<lambda>k. show_nat (unat (take_bit 8 (drop_bit k a)))) [24, 16, 8, 0])"

definition v6_segments :: "128 word \<Rightarrow> nat list" where
  "v6_segments a = map (\<lambda>k. unat (take_bit 16 (drop_bit k a))) [112, 96, 80, 64, 48, 32, 16, 0]"

text \<open>The first longest run of zero segments, as (start, length).\<close>

fun zero_span :: "nat list \<Rightarrow> nat \<Rightarrow> nat \<times> nat \<Rightarrow> nat \<times> nat \<Rightarrow> nat \<times> nat" where
  "zero_span [] i cur best = best"
| "zero_span (s # ss) i cur best =
     (if s = 0
      then let cur' = (if snd cur = 0 then (i, 1) else (fst cur, snd cur + 1))
           in zero_span ss (i + 1) cur' (if snd cur' > snd best then cur' else best)
      else zero_span ss (i + 1) (0, 0) best)"

definition show_v6 :: "128 word \<Rightarrow> string" where
  "show_v6 a = (let segs = v6_segments a in
     if take 6 segs = [0, 0, 0, 0, 0, 0xffff] then ''::ffff:'' @ show_v4 (ucast a)
     else let (start, n) = zero_span segs 0 (0, 0) (0, 0) in
          if n > 1
          then join_with '':'' (map show_hex (take start segs)) @ ''::'' @
               join_with '':'' (map show_hex (drop (start + n) segs))
          else join_with '':'' (map show_hex segs))"

fun show_ip :: "ip_addr \<Rightarrow> string" where
  "show_ip (V4 a) = show_v4 a"
| "show_ip (V6 a) = show_v6 a"

section \<open>The isolation manager\<close>

record isolation_manager =
  im_fleet_ip :: ip_addr
  im_fleet_port :: u16

datatype nft_outcome =
    SpawnFailed string
  | WriteFailed string
  | WaitFailed string
  | Exited bool string  \<comment> \<open>success of the exit status, and standard error\<close>

record 'w nft =
  nft_load :: "string \<Rightarrow> 'w \<Rightarrow> nft_outcome \<times> 'w"  \<comment> \<open>\<open>nft -f -\<close> with the given input\<close>
  nft_run :: "string list \<Rightarrow> 'w \<Rightarrow> nft_outcome \<times> 'w"  \<comment> \<open>\<open>nft\<close> with the given arguments\<close>

definition ip_family :: "ip_addr \<Rightarrow> string" where
  "ip_family ip = (case ip of V4 _ \<Rightarrow> ''ip'' | V6 _ \<Rightarrow> ''ip6'')"

definition isolation_ruleset :: "isolation_manager \<Rightarrow> string" where
  "isolation_ruleset m =
     (let fam = ip_family (im_fleet_ip m); ip = show_ip (im_fleet_ip m); port = show_nat (unat (im_fleet_port m)) in
      join_with [newline]
       [''table inet aigis_isolation {'',
        ''    chain input {'',
        ''        type filter hook input priority -100; policy drop;'',
        ''        ct state established,related accept'',
        ''        iif lo accept'',
        ''        '' @ fam @ '' saddr '' @ ip @ '' tcp sport '' @ port @ '' accept'',
        ''    }'',
        ''    chain output {'',
        ''        type filter hook output priority -100; policy drop;'',
        ''        ct state established,related accept'',
        ''        oif lo accept'',
        ''        '' @ fam @ '' daddr '' @ ip @ '' tcp dport '' @ port @ '' accept'',
        ''    }'',
        ''    chain forward {'',
        ''        type filter hook forward priority -100; policy drop;'',
        ''    }'',
        ''}''])"

definition isolate :: "'w nft \<Rightarrow> isolation_manager \<Rightarrow> 'w \<Rightarrow> (string, unit) result \<times> 'w" where
  "isolate n m w =
     (case nft_load n (isolation_ruleset m) w of
        (SpawnFailed e, w') \<Rightarrow> (Err ''Failed to spawn nft process'', w')
      | (WriteFailed e, w') \<Rightarrow> (Err ''Failed to write ruleset to nft stdin'', w')
      | (WaitFailed e, w') \<Rightarrow> (Err ''Failed to wait for nft output'', w')
      | (Exited success err, w') \<Rightarrow>
          if success then (Ok (), w') else (Err (''nft failed to apply rules: '' @ err), w'))"

text \<open>\<open>Command::output\<close> spawns, writes nothing and waits: any of its failures is the same error.\<close>

definition delete_args :: "string list" where
  "delete_args = [''delete'', ''table'', ''inet'', ''aigis_isolation'']"

definition list_args :: "string list" where
  "list_args = [''list'', ''table'', ''inet'', ''aigis_isolation'']"

definition de_isolate :: "'w nft \<Rightarrow> 'w \<Rightarrow> (string, unit) result \<times> 'w" where
  "de_isolate n w =
     (case nft_run n delete_args w of
        (Exited success err, w') \<Rightarrow>
          if \<not> success then
            (let err_lower = to_lowercase err in
             if \<not> contains_str err_lower ''no such file or directory'' \<and>
                \<not> contains_str err_lower ''does not exist'' \<and>
                \<not> contains_str err_lower ''could not process rule''
             then (Err (''nft delete table failed: '' @ err), w')
             else (Ok (), w'))
          else (Ok (), w')
      | (_, w') \<Rightarrow> (Err ''Failed to execute nft command'', w'))"

definition is_isolated :: "'w nft \<Rightarrow> 'w \<Rightarrow> (string, bool) result \<times> 'w" where
  "is_isolated n w =
     (case nft_run n list_args w of
        (Exited success err, w') \<Rightarrow> (Ok success, w')
      | (_, w') \<Rightarrow> (Err ''Failed to execute nft command'', w'))"

section \<open>Commands\<close>

definition status_json :: "string \<Rightarrow> json" where
  "status_json s = JObject [(''status'', JString s)]"

definition handle :: "'w nft \<Rightarrow> isolation_manager \<Rightarrow> server_command \<Rightarrow> 'w \<Rightarrow> (string, json) result \<times> 'w" where
  "handle n m msg w =
     (case sc_command msg of
        None \<Rightarrow> (Err ''missing command'', w)
      | Some (Isolate icmd) \<Rightarrow>
          if ic_isolate icmd
          then (case isolate n m w of (r, w') \<Rightarrow> (result_bind r (\<lambda>_. Ok (status_json ''isolated'')), w'))
          else (case de_isolate n w of (r, w') \<Rightarrow> (result_bind r (\<lambda>_. Ok (status_json ''unisolated'')), w'))
      | Some (ConfigUpdate cfg) \<Rightarrow> (Ok (status_json ''config_updated''), w)
      | Some (Ack sequence_id) \<Rightarrow> (Ok (status_json ''acked''), w))"

section \<open>Lemmas\<close>

lemma newline_code: "(of_char newline :: nat) = 10"
  by (simp add: newline_def)

lemma newline_show_nat [simp]: "newline \<notin> set (show_nat n)"
  using show_nat_digits [of newline n] newline_code by auto

text \<open>An address prints in hexadecimal digits, dots and colons.\<close>

definition addr_char :: "char \<Rightarrow> bool" where
  "addr_char c \<longleftrightarrow> is_digit c \<or> c \<in> set ''abcdef.:''"

lemma addr_char_hex: "d < 16 \<Longrightarrow> addr_char (hex_digit d)"
proof (cases "d < 10")
  case True
  then show ?thesis by (simp add: addr_char_def is_digit_def hex_digit_def of_char_of take_bit_nat_eq_self_iff)
next
  case False
  moreover assume "d < 16"
  ultimately have "d = 10 \<or> d = 11 \<or> d = 12 \<or> d = 13 \<or> d = 14 \<or> d = 15" by presburger
  then show ?thesis by (elim disjE) (simp_all add: addr_char_def hex_digit_def char_of_def bit_0)
qed

lemma addr_char_show_hex: "c \<in> set (show_hex n) \<Longrightarrow> addr_char c"
proof (induction n rule: show_hex.induct)
  case (1 n)
  then show ?case by (subst (asm) (2) show_hex.simps) (auto split: if_splits simp: addr_char_hex)
qed

lemma addr_char_join:
  assumes "\<forall>c \<in> set sep. addr_char c" "\<And>x c. c \<in> set (f x) \<Longrightarrow> addr_char c" "c \<in> set (join_with sep (map f xs))"
  shows "addr_char c"
  using set_join_with [of sep "map f xs"] assms by auto

lemma addr_char_v4: "c \<in> set (show_v4 a) \<Longrightarrow> addr_char c"
  unfolding show_v4_def
  by (erule addr_char_join [rotated 2]) (auto simp: addr_char_def is_digit_def dest: show_nat_digits)

lemma addr_char_show_ip: "c \<in> set (show_ip ip) \<Longrightarrow> addr_char c"
proof -
  have sep: "\<forall>c \<in> set '':''. addr_char c" "\<forall>c \<in> set ''::ffff:''. addr_char c" by (simp_all add: addr_char_def)
  have "c \<in> set (show_v6 a) \<Longrightarrow> addr_char c" for a
    using sep addr_char_v4 addr_char_join [OF sep(1), of show_hex, OF addr_char_show_hex]
    by (auto simp: show_v6_def Let_def split: prod.splits if_splits)
  then show "c \<in> set (show_ip ip) \<Longrightarrow> addr_char c" using addr_char_v4 by (cases ip) auto
qed

lemma addr_char_not: "\<not> addr_char newline" "\<not> addr_char (CHR '' '')"
  by (simp_all add: addr_char_def is_digit_def newline_def)

lemma newline_show_ip [simp]: "newline \<notin> set (show_ip ip)"
  using addr_char_show_ip addr_char_not by blast

lemma isolation_ruleset_lines:
  "split_on newline (isolation_ruleset m) =
     (let fam = ip_family (im_fleet_ip m); ip = show_ip (im_fleet_ip m); port = show_nat (unat (im_fleet_port m)) in
       [''table inet aigis_isolation {'',
        ''    chain input {'',
        ''        type filter hook input priority -100; policy drop;'',
        ''        ct state established,related accept'',
        ''        iif lo accept'',
        ''        '' @ fam @ '' saddr '' @ ip @ '' tcp sport '' @ port @ '' accept'',
        ''    }'',
        ''    chain output {'',
        ''        type filter hook output priority -100; policy drop;'',
        ''        ct state established,related accept'',
        ''        oif lo accept'',
        ''        '' @ fam @ '' daddr '' @ ip @ '' tcp dport '' @ port @ '' accept'',
        ''    }'',
        ''    chain forward {'',
        ''        type filter hook forward priority -100; policy drop;'',
        ''    }'',
        ''}''])"
proof -
  have "newline \<notin> set (ip_family ip)" for ip
    by (simp add: ip_family_def newline_def split: ip_addr.split)
  then show ?thesis
    unfolding isolation_ruleset_def Let_def
    by (intro split_join) (simp_all, simp_all add: newline_def)
qed

section \<open>Properties\<close>

text \<open>A packet filter that holds one table or none; \<open>strict_nft\<close> refuses a delete for lack of
  permission when the state says so.\<close>

definition strict_nft :: "bool \<Rightarrow> bool nft" where
  "strict_nft refuse = \<lparr>nft_load = (\<lambda>txt w. (Exited True [], True)),
     nft_run = (\<lambda>args w. if args = delete_args
       then (if refuse then (Exited False ''Error: Could not process rule: Operation not permitted'', w)
             else if w then (Exited True [], False)
             else (Exited False ''Error: No such file or directory'', w))
       else (Exited w [], w))\<rparr>"

lemma list_args_not_delete: "list_args \<noteq> delete_args" "delete_args \<noteq> list_args"
  by (simp_all add: list_args_def delete_args_def)

text \<open>A delete that \<open>nft\<close> refuses is taken for a missing table, because every refusal of \<open>nft\<close> says
  that it could not process the rule: the command is answered with status unisolated while the
  host stays isolated.\<close>

lemma de_isolate_masks_refusal:
  "handle (strict_nft True) m \<lparr>sc_command = Some (Isolate \<lparr>ic_isolate = False, ic_reason = []\<rparr>)\<rparr> True
     = (Ok (status_json ''unisolated''), True) \<and>
   is_isolated (strict_nft True) True = (Ok True, True)"
  by (simp add: handle_def de_isolate_def strict_nft_def is_isolated_def to_lowercase_def to_lower_char_def
      list_args_not_delete starts_with_def Let_def) code_simp

end
