(* ===== verification/FleetClient.thy ===== *)
theory FleetClient
  imports Proto
begin

text \<open>
  The agent's connection to the fleet server, \<open>agent/crates/fleet-client/src/lib.rs\<close>: connecting with
  and without a token, the retry loop, enrollment, the sending of event batches, heartbeats and the
  reception of commands. The transport (tonic), the UUID parser and the JSON printer are third-party:
  the answers of the transport are arguments, and so are the parser and the printer.
\<close>

section \<open>State\<close>

text \<open>The sending half of the outbound channel: whether its receiver is alive, and what was sent.\<close>

record out_chan =
  oc_open :: bool
  oc_sent :: "proto_event list"

text \<open>The receiving half of the inbound channel: what is queued, and whether its sender is alive.\<close>

record in_chan =
  ich_open :: bool
  ich_queue :: "server_command list"

record fleet_client =
  fc_endpoint :: string
  fc_client :: bool
  fc_outbound_tx :: "out_chan option"
  fc_inbound_rx :: "in_chan option"
  fc_node_id :: "uuid option"
  fc_token :: "string option"

datatype client_error =
    InvalidEndpoint
  | TransportError string
  | InvalidMetadata
  | RpcFailed grpc_status
  | NotConnected
  | StreamNotConnected
  | MalformedNodeId string
  | SendChannelClosed
  | InboundClosed

definition client_new :: "string \<Rightarrow> fleet_client" where
  "client_new endpoint = \<lparr>fc_endpoint = endpoint, fc_client = False, fc_outbound_tx = None,
     fc_inbound_rx = None, fc_node_id = None, fc_token = None\<rparr>"

section \<open>Connecting\<close>

text \<open>What one connection attempt meets: whether the endpoint parses, the transport's answer,
  whether the authorization header is a legal metadata value, and the answer to \<open>event_stream\<close>.\<close>

record connect_env =
  cn_endpoint_ok :: bool
  cn_transport :: "(string, unit) result"
  cn_header_ok :: bool
  cn_event_stream :: "(grpc_status, unit) result"

text \<open>Without a token no stream is opened: both far ends of the new channels are dropped when
  \<open>connect\<close> returns, so the channels that are stored are closed.\<close>

definition connect :: "connect_env \<Rightarrow> string option \<Rightarrow> fleet_client
    \<Rightarrow> (client_error, unit) result \<times> fleet_client" where
  "connect env token c =
     (if \<not> cn_endpoint_ok env then (Err InvalidEndpoint, c)
      else case cn_transport env of
        Inl e \<Rightarrow> (Err (TransportError e), c)
      | Inr _ \<Rightarrow>
          let c1 = c\<lparr>fc_client := True, fc_token := token\<rparr> in
          (case token of
             None \<Rightarrow> (Ok (), c1\<lparr>fc_outbound_tx := Some \<lparr>oc_open = False, oc_sent = []\<rparr>,
                              fc_inbound_rx := Some \<lparr>ich_open = False, ich_queue = []\<rparr>\<rparr>)
           | Some t \<Rightarrow>
               if \<not> cn_header_ok env then (Err InvalidMetadata, c1)
               else case cn_event_stream env of
                 Inl st \<Rightarrow> (Err (RpcFailed st), c1)
               | Inr _ \<Rightarrow> (Ok (), c1\<lparr>fc_outbound_tx := Some \<lparr>oc_open = True, oc_sent = []\<rparr>,
                                   fc_inbound_rx := Some \<lparr>ich_open = True, ich_queue = []\<rparr>\<rparr>)))"

text \<open>The retry loop over the attempts' environments; \<open>attempt\<close> counts those already made. It
  gives \<open>None\<close> when the environments run out while it is still retrying. The delays slept are
  \<open>base_delay * 2 ^ min attempt 5\<close>, in milliseconds; the product of a \<open>Duration\<close> panics beyond \<open>2 ^ 64\<close> seconds, so that the
  delays are those of a base below \<open>2 ^ 59\<close> seconds.\<close>

definition retry_delay :: "nat \<Rightarrow> u32 \<Rightarrow> nat" where
  "retry_delay base_delay attempt = base_delay * 2 ^ min (unat attempt) 5"

fun retry_loop :: "u32 \<Rightarrow> nat \<Rightarrow> string option \<Rightarrow> u32 \<Rightarrow> connect_env list \<Rightarrow> fleet_client
    \<Rightarrow> ((client_error, unit) result \<times> fleet_client \<times> nat list) option" where
  "retry_loop max_attempts base_delay token attempt [] c = None"
| "retry_loop max_attempts base_delay token attempt (env # envs) c =
     (let attempt' = attempt + 1 in
      case connect env token c of
        (Inr _, c1) \<Rightarrow> Some (Ok (), c1, [])
      | (Inl e, c1) \<Rightarrow>
          if max_attempts > 0 \<and> attempt' \<ge> max_attempts then Some (Err e, c1, [])
          else map_option (\<lambda>(r, c2, ds). (r, c2, retry_delay base_delay attempt' # ds))
                 (retry_loop max_attempts base_delay token attempt' envs c1))"

definition connect_with_retry :: "u32 \<Rightarrow> nat \<Rightarrow> string option \<Rightarrow> connect_env list \<Rightarrow> fleet_client
    \<Rightarrow> ((client_error, unit) result \<times> fleet_client \<times> nat list) option" where
  "connect_with_retry max_attempts base_delay token envs c = retry_loop max_attempts base_delay token 0 envs c"

section \<open>Enrollment\<close>

text \<open>A secret that is not a legal metadata value is left out silently.\<close>

definition enroll_with_secret :: "(string \<Rightarrow> bool) \<Rightarrow> (string \<Rightarrow> uuid option)
    \<Rightarrow> (metadata \<Rightarrow> register_request \<Rightarrow> (grpc_status, register_response) result)
    \<Rightarrow> register_request \<Rightarrow> string option \<Rightarrow> fleet_client
    \<Rightarrow> (client_error, register_response) result \<times> fleet_client" where
  "enroll_with_secret legal_value uuid_parse register_agent request secret c =
     (if \<not> fc_client c then (Err NotConnected, c)
      else
        let headers = (case secret of
              Some sec \<Rightarrow> if legal_value sec then [(''x-enrollment-secret'', sec)] else []
            | None \<Rightarrow> [])
        in case register_agent headers request of
             Inl st \<Rightarrow> (Err (RpcFailed st), c)
           | Inr response \<Rightarrow>
               (case uuid_parse (rs_node_id response) of
                  None \<Rightarrow> (Err (MalformedNodeId (rs_node_id response)), c)
                | Some u \<Rightarrow> (Ok response, c\<lparr>fc_node_id := Some u, fc_token := Some (rs_token response)\<rparr>)))"

definition enroll :: "(string \<Rightarrow> bool) \<Rightarrow> (string \<Rightarrow> uuid option)
    \<Rightarrow> (metadata \<Rightarrow> register_request \<Rightarrow> (grpc_status, register_response) result)
    \<Rightarrow> register_request \<Rightarrow> fleet_client \<Rightarrow> (client_error, register_response) result \<times> fleet_client" where
  "enroll legal_value uuid_parse register_agent request c =
     enroll_with_secret legal_value uuid_parse register_agent request None c"

section \<open>Events\<close>

definition event_type_text :: "json \<Rightarrow> string" where
  "event_type_text v =
     (case as_str v of
        Some s \<Rightarrow> s
      | None \<Rightarrow> (case as_i64 v of
          Some i \<Rightarrow> if i = 0 then ''osquery'' else if i = 1 then ''process'' else if i = 2 then ''file''
                    else if i = 3 then ''network'' else show_int i
        | None \<Rightarrow> ''''))"

text \<open>\<open>None\<close>: the payload cannot be printed and the event is skipped.\<close>

definition to_proto_event :: "(json \<Rightarrow> bytes option) \<Rightarrow> json \<Rightarrow> proto_event option" where
  "to_proto_event to_vec v =
     map_option (\<lambda>p. \<lparr>pe_node_id = unwrap_or [] (as_str (jindex v ''node_id'')),
        pe_event_type = event_type_text (jindex v ''event_type''),
        pe_payload = p,
        pe_timestamp_ns = word_of_int (unwrap_or 0 (as_i64 (jindex v ''timestamp_ns''))),
        pe_sequence_id = unwrap_or [] (as_str (jindex v ''sequence_id''))\<rparr>)
       (to_vec (jindex v ''payload''))"

text \<open>\<open>closes_after\<close>: how many more events the receiver takes before it is dropped, \<open>None\<close> when
  it stays. A full channel only makes the sender wait.\<close>

fun send_loop :: "(json \<Rightarrow> bytes option) \<Rightarrow> nat option \<Rightarrow> json list \<Rightarrow> out_chan
    \<Rightarrow> (client_error, event_ack) result \<times> out_chan" where
  "send_loop to_vec k [] tx = (Ok \<lparr>ack_success = True, ack_error = None\<rparr>, tx)"
| "send_loop to_vec k (v # vs) tx =
     (case to_proto_event to_vec v of
        None \<Rightarrow> send_loop to_vec k vs tx
      | Some e \<Rightarrow>
          if \<not> oc_open tx \<or> k = Some 0 then (Err SendChannelClosed, tx\<lparr>oc_open := False\<rparr>)
          else send_loop to_vec (map_option (\<lambda>n. n - 1) k) vs (tx\<lparr>oc_sent := oc_sent tx @ [e]\<rparr>))"

definition send_events :: "(json \<Rightarrow> bytes option) \<Rightarrow> nat option \<Rightarrow> event_batch \<Rightarrow> fleet_client
    \<Rightarrow> (client_error, event_ack) result \<times> fleet_client" where
  "send_events to_vec closes_after batch c =
     (case fc_outbound_tx c of
        None \<Rightarrow> (Err StreamNotConnected, c)
      | Some tx \<Rightarrow> (case send_loop to_vec closes_after (bt_events batch) tx of
          (r, tx') \<Rightarrow> (r, c\<lparr>fc_outbound_tx := Some tx'\<rparr>)))"

section \<open>Heartbeat and commands\<close>

definition client_heartbeat :: "(string \<Rightarrow> bool) \<Rightarrow> (uuid \<Rightarrow> string)
    \<Rightarrow> (metadata \<Rightarrow> heartbeat_request \<Rightarrow> (grpc_status, heartbeat_response) result)
    \<Rightarrow> heartbeat_request \<Rightarrow> fleet_client \<Rightarrow> (client_error, heartbeat_response) result" where
  "client_heartbeat legal_value uuid_str heartbeat request c =
     (let req = \<lparr>hr_node_id = unwrap_or [] (map_option uuid_str (fc_node_id c)),
                 hr_status = hr_status request, hr_events_buffered = hr_events_buffered request\<rparr> in
      if \<not> fc_client c then Err NotConnected
      else case fc_token c of
        None \<Rightarrow> map_err RpcFailed (heartbeat [] req)
      | Some t \<Rightarrow> if \<not> legal_value (''Bearer '' @ t) then Err InvalidMetadata
                  else map_err RpcFailed (heartbeat [(''authorization'', ''Bearer '' @ t)] req))"

definition try_receive :: "fleet_client \<Rightarrow> (client_error, server_command option) result \<times> fleet_client" where
  "try_receive c =
     (case fc_inbound_rx c of
        None \<Rightarrow> (Err NotConnected, c)
      | Some rx \<Rightarrow> (case ich_queue rx of
          msg # rest \<Rightarrow> (Ok (Some msg), c\<lparr>fc_inbound_rx := Some (rx\<lparr>ich_queue := rest\<rparr>)\<rparr>)
        | [] \<Rightarrow> if ich_open rx then (Ok None, c) else (Err InboundClosed, c)))"

text \<open>\<open>receive\<close> waits while the queue is empty and the sender alive: that wait is \<open>None\<close>.\<close>

definition receive :: "fleet_client \<Rightarrow> ((client_error, server_command option) result \<times> fleet_client) option" where
  "receive c =
     (case fc_inbound_rx c of
        None \<Rightarrow> Some (Err NotConnected, c)
      | Some rx \<Rightarrow> (case ich_queue rx of
          msg # rest \<Rightarrow> Some (Ok (Some msg), c\<lparr>fc_inbound_rx := Some (rx\<lparr>ich_queue := rest\<rparr>)\<rparr>)
        | [] \<Rightarrow> if ich_open rx then None else Some (Ok None, c)))"

section \<open>Lemmas\<close>

definition attempt_succeeds :: "string option \<Rightarrow> connect_env \<Rightarrow> bool" where
  "attempt_succeeds token env \<longleftrightarrow> cn_endpoint_ok env \<and> is_ok (cn_transport env) \<and>
     (token = None \<or> cn_header_ok env \<and> is_ok (cn_event_stream env))"

lemma connect_ok_iff: "is_ok (fst (connect env token c)) \<longleftrightarrow> attempt_succeeds token env"
  by (auto simp: connect_def attempt_succeeds_def Let_def split: sum.splits option.splits)

lemma connect_ok_state:
  "connect env token c = (Ok (), c') \<Longrightarrow> fc_client c' \<and> fc_token c' = token \<and>
     fc_outbound_tx c' = Some \<lparr>oc_open = (token \<noteq> None), oc_sent = []\<rparr>"
  by (auto simp: connect_def Let_def split: sum.splits option.splits if_splits)

lemma retry_loop_returns:
  assumes "attempt < max_attempts" "unat max_attempts - unat attempt \<le> length envs"
  shows "\<exists>r c' ds. retry_loop max_attempts base token attempt envs c = Some (r, c', ds) \<and>
    length ds < unat max_attempts - unat attempt \<and>
    (\<forall>i < length ds. ds ! i = retry_delay base (attempt + 1 + of_nat i)) \<and>
    (is_ok r \<longleftrightarrow> (\<exists>env \<in> set (take (unat max_attempts - unat attempt) envs). attempt_succeeds token env)) \<and>
    (is_ok r \<longrightarrow> fc_client c' \<and> fc_token c' = token)"
  using assms
proof (induction envs arbitrary: attempt c)
  case Nil
  then show ?case by (simp add: word_less_nat_alt)
next
  case (Cons env envs)
  have s: "unat (attempt + 1) = Suc (unat attempt)"
    using Cons.prems(1) by (rule unat_Suc_less)
  have lt: "unat attempt < unat max_attempts"
    using Cons.prems(1) by (simp add: word_less_nat_alt)
  have pos: "max_attempts > 0" using Cons.prems(1) by (simp add: word_less_nat_alt)
  have tk: "take (unat max_attempts - unat attempt) (env # envs) =
      env # take (unat max_attempts - unat (attempt + 1)) envs"
    using lt s by (simp add: take_Cons')
  obtain r1 c1 where c1: "connect env token c = (r1, c1)" by fastforce
  show ?case
  proof (cases r1)
    case (Inr u)
    then have "attempt_succeeds token env" using connect_ok_iff [of env token c] c1 by simp
    then show ?thesis
      using Inr c1 connect_ok_state [of env token c c1] lt by (auto simp: tk)
  next
    case (Inl e)
    have no: "\<not> attempt_succeeds token env" using connect_ok_iff [of env token c] c1 Inl by simp
    show ?thesis
    proof (cases "attempt + 1 \<ge> max_attempts")
      case True
      then have "unat max_attempts - unat (attempt + 1) = 0" by (simp add: word_le_nat_alt)
      then show ?thesis using True Inl c1 pos no lt by (auto simp: tk)
    next
      case False
      then have less: "attempt + 1 < max_attempts" by simp
      have "unat max_attempts - unat (attempt + 1) \<le> length envs" using Cons.prems(2) s by simp
      then obtain r c' ds where ih: "retry_loop max_attempts base token (attempt + 1) envs c1 = Some (r, c', ds)"
        "length ds < unat max_attempts - unat (attempt + 1)"
        "\<forall>i < length ds. ds ! i = retry_delay base (attempt + 1 + 1 + of_nat i)"
        "is_ok r \<longleftrightarrow> (\<exists>env \<in> set (take (unat max_attempts - unat (attempt + 1)) envs). attempt_succeeds token env)"
        "is_ok r \<longrightarrow> fc_client c' \<and> fc_token c' = token"
        using Cons.IH [OF less, of c1] by blast
      have "(retry_delay base (attempt + 1) # ds) ! i = retry_delay base (attempt + 1 + of_nat i)"
        if "i < length (retry_delay base (attempt + 1) # ds)" for i
        using that ih(3) by (cases i) (auto simp: add.assoc)
      then show ?thesis
        using False Inl c1 no ih s by (auto simp: tk)
    qed
  qed
qed

definition printable :: "(json \<Rightarrow> bytes option) \<Rightarrow> json list \<Rightarrow> proto_event list" where
  "printable to_vec vs = List.map_filter (to_proto_event to_vec) vs"

lemma printable_simps [simp]:
  "printable to_vec [] = []"
  "printable to_vec (v # vs) = (case to_proto_event to_vec v of None \<Rightarrow> printable to_vec vs
     | Some e \<Rightarrow> e # printable to_vec vs)"
  by (simp_all add: printable_def map_filter_simps split: option.split)

lemma send_loop_sent:
  "send_loop to_vec k vs tx = (r, tx') \<Longrightarrow>
   (\<exists>n. oc_sent tx' = oc_sent tx @ take n (printable to_vec vs)) \<and>
   (is_ok r \<longrightarrow> oc_sent tx' = oc_sent tx @ printable to_vec vs \<and> r = Ok \<lparr>ack_success = True, ack_error = None\<rparr>)"
proof (induction vs arbitrary: k tx)
  case Nil
  then show ?case by simp
next
  case (Cons v vs)
  show ?case
  proof (cases "to_proto_event to_vec v")
    case None
    then show ?thesis using Cons by simp
  next
    case (Some e)
    show ?thesis
    proof (cases "\<not> oc_open tx \<or> k = Some 0")
      case True
      then have "oc_sent tx' = oc_sent tx @ take 0 (printable to_vec (v # vs))" "\<not> is_ok r"
        using Some Cons.prems by auto
      then show ?thesis by blast
    next
      case False
      then have "send_loop to_vec (map_option (\<lambda>n. n - 1) k) vs (tx\<lparr>oc_sent := oc_sent tx @ [e]\<rparr>) = (r, tx')"
        using Some Cons.prems by (simp split: if_splits)
      note ih = Cons.IH [OF this]
      then obtain n where "oc_sent tx' = oc_sent tx @ take (Suc n) (printable to_vec (v # vs))"
        using Some by auto
      moreover have "is_ok r \<longrightarrow> oc_sent tx' = oc_sent tx @ printable to_vec (v # vs) \<and>
          r = Ok \<lparr>ack_success = True, ack_error = None\<rparr>"
        using ih Some by simp
      ultimately show ?thesis by blast
    qed
  qed
qed

lemma send_loop_open:
  "oc_open tx \<Longrightarrow> is_ok (fst (send_loop to_vec None vs tx))"
  by (induction vs arbitrary: tx) (auto split: option.splits)

section \<open>Properties\<close>

definition refused_env :: connect_env where
  "refused_env = \<lparr>cn_endpoint_ok = True, cn_transport = Err ''refused'', cn_header_ok = True, cn_event_stream = Ok ()\<rparr>"

definition good_env :: connect_env where
  "good_env = \<lparr>cn_endpoint_ok = True, cn_transport = Ok (), cn_header_ok = True, cn_event_stream = Ok ()\<rparr>"

text \<open>C35: With a positive limit the retry loop ends: it makes at most \<open>max_attempts\<close> attempts, succeeds
  exactly when one of them succeeds, sleeps \<open>base * 2 ^ min k 5\<close> after the failed attempt \<open>k\<close>, and a
  success leaves the client connected with the token that was asked for.\<close>

theorem connect_with_retry_bounded:
  assumes "0 < max_attempts" "unat max_attempts \<le> length envs"
  shows "\<exists>r c' ds. connect_with_retry max_attempts base token envs c = Some (r, c', ds) \<and>
    length ds < unat max_attempts \<and>
    (\<forall>i < length ds. ds ! i = retry_delay base (1 + of_nat i) \<and> ds ! i \<le> 32 * base) \<and>
    (is_ok r \<longleftrightarrow> (\<exists>env \<in> set (take (unat max_attempts) envs). attempt_succeeds token env)) \<and>
    (is_ok r \<longrightarrow> fc_client c' \<and> fc_token c' = token)"
proof -
  have "retry_delay base a \<le> 32 * base" for a
  proof -
    have "(2::nat) ^ min (unat a) 5 \<le> 2 ^ 5" by (rule power_increasing) simp_all
    then show ?thesis by (simp add: retry_delay_def)
  qed
  then show ?thesis
    using retry_loop_returns [of 0 max_attempts envs base token c] assms
    by (simp add: connect_with_retry_def) metis
qed

theorem connect_with_retry_bounded_witness:
  "\<exists>r c' ds. connect_with_retry 3 1000 (Some ''t'') [refused_env, refused_env, good_env] (client_new ''http://f'')
      = Some (r, c', ds) \<and> is_ok r \<and> fc_token c' = Some ''t'' \<and> length ds < 3"
  using connect_with_retry_bounded [of 3 "[refused_env, refused_env, good_env]" 1000 "Some ''t''" "client_new ''http://f''"]
  by (fastforce simp: attempt_succeeds_def good_env_def)

text \<open>What goes out on the stream is the batch: a send that is acknowledged has queued the
  conversion of every event whose payload prints, in order and once, after what was queued before;
  a send that fails has queued a prefix of it; on an open stream that stays open the send is
  acknowledged.\<close>

lemma send_events_in_order:
  assumes "send_events to_vec k batch c = (r, c')" "fc_outbound_tx c = Some tx"
  shows "\<exists>tx' n. fc_outbound_tx c' = Some tx' \<and>
      oc_sent tx' = oc_sent tx @ take n (List.map_filter (to_proto_event to_vec) (bt_events batch)) \<and>
      (is_ok r \<longrightarrow> oc_sent tx' = oc_sent tx @ List.map_filter (to_proto_event to_vec) (bt_events batch)) \<and>
      (oc_open tx \<and> k = None \<longrightarrow> r = Ok \<lparr>ack_success = True, ack_error = None\<rparr>)"
proof -
  obtain tx' where t: "send_loop to_vec k (bt_events batch) tx = (r, tx')" "fc_outbound_tx c' = Some tx'"
    using assms by (auto simp: send_events_def split: prod.splits)
  show ?thesis
    using send_loop_sent [OF t(1)] send_loop_open [of tx to_vec "bt_events batch"] t by (auto simp: printable_def)
qed

lemma send_events_in_order_witness:
  "fst (send_events (\<lambda>_. Some ''{}'') None \<lparr>bt_node_id = 1, bt_events = [JNull, JObject [(''event_type'', JInt 2)]]\<rparr>
     (snd (connect good_env (Some ''t'') (client_new ''http://f'')))) = Ok \<lparr>ack_success = True, ack_error = None\<rparr>"
proof -
  have "fc_outbound_tx (snd (connect good_env (Some ''t'') (client_new ''http://f'')))
      = Some \<lparr>oc_open = True, oc_sent = []\<rparr>"
    by (simp add: connect_def good_env_def Let_def)
  then show ?thesis
    using send_events_in_order [OF surjective_pairing] by fastforce
qed

text \<open>An attempt whose stream is refused has already replaced the token and the client but keeps the
  channels of the previous connection.\<close>

lemma connect_stream_refused:
  assumes "cn_endpoint_ok env" "cn_transport env = Ok u" "cn_header_ok env" "cn_event_stream env = Err st"
  shows "connect env (Some t) c = (Err (RpcFailed st), c\<lparr>fc_client := True, fc_token := Some t\<rparr>)"
  using assms by (simp add: connect_def Let_def)

end
