(* ===== verification/AgentCore.thy ===== *)
theory AgentCore
  imports EventBuffer Osquery Isolation FleetClient
begin

text \<open>
  The agent's core, \<open>agent/crates/agent-core/src\<close>: the configuration, the encoding of an osquery
  result as an agent event, the task that buffers results (with its drain at shutdown), the
  command listener with its exponential backoff and reconnection, the orchestrator's variant of the
  encoding, and the reading of the machine's identity (\<open>orchestrator.rs\<close>) and the environment
  check (\<open>preflight.rs\<close>).
\<close>

section \<open>Configuration\<close>

record agent_server_section =
  ass_bind_addr :: string
  ass_port :: u16

record agent_section =
  as_node_id :: "uuid option"
  as_name :: string
  as_log_level :: string
  as_log_format :: string
  as_log_dir :: string
  as_data_dir :: string
  as_event_buffer_db :: string
  as_event_buffer_max :: u64
  as_event_drain_batch :: u32
  as_event_drain_interval_secs :: u64
  as_server :: agent_server_section

record osquery_section =
  oqs_socket_path :: string
  oqs_conf_path :: string
  oqs_flags_path :: string
  oqs_pid_file :: string
  oqs_log_path :: string
  oqs_connect_timeout_secs :: u64
  oqs_query_timeout_secs :: u64

record fleet_section =
  fs_host :: string
  fs_port :: u16
  fs_endpoint :: string
  fs_enrollment_secret :: string
  fs_tls_ca_cert :: string
  fs_tls_client_cert :: "string option"
  fs_tls_client_key :: "string option"
  fs_heartbeat_interval_secs :: u64
  fs_reconnect_interval_secs :: u64
  fs_max_reconnect_attempts :: u32

record isolation_section =
  is_enabled :: bool
  is_fleet_ip :: string
  is_fleet_port :: u16

record agent_config =
  ac_agent :: agent_section
  ac_osquery :: osquery_section
  ac_fleet :: fleet_section
  ac_isolation :: isolation_section

section \<open>Encoding of results\<close>

text \<open>\<open>serde_json::to_value\<close> on the derived serialization of \<open>OsqueryResult\<close>; the fields are strings,
  integers and lists, for which it has no failing case. \<open>to_string\<close> prints a JSON value.\<close>

definition osquery_result_json :: "osquery_result \<Rightarrow> json" where
  "osquery_result_json r = JObject
     [(''query_name'', JString (or_query_name r)), (''agent_uuid'', JString (or_agent_uuid r)),
      (''timestamp_ns'', JInt (or_timestamp_ns r)),
      (''rows'', JArray (map (\<lambda>row. JObject [(''columns'', JArray (map (\<lambda>c. JObject
          [(''name'', JString (ce_name c)), (''value'', JString (ce_value c))]) (orr_columns row)))]) (or_rows r))),
      (''action'', JString (action_as_str (or_action r)))]"

definition osquery_event :: "string \<Rightarrow> osquery_result \<Rightarrow> agent_event" where
  "osquery_event sequence_id r =
     \<lparr>ae_node_id = or_agent_uuid r, ae_event_type = event_type_as_i32 Proto.Osquery,
      ae_payload = osquery_result_json r, ae_timestamp_ns = or_timestamp_ns r, ae_sequence_id = sequence_id\<rparr>"

definition encode_osquery_result :: "(json \<Rightarrow> string option) \<Rightarrow> string \<Rightarrow> osquery_result \<Rightarrow> string option" where
  "encode_osquery_result to_string new_uuid r = to_string (agent_event_json (osquery_event new_uuid r))"

text \<open>The orchestrator's variant buffers an empty string when printing fails.\<close>

definition encode_result :: "(json \<Rightarrow> string option) \<Rightarrow> string \<Rightarrow> osquery_result \<Rightarrow> string" where
  "encode_result to_string new_uuid r = unwrap_or [] (to_string (agent_event_json (osquery_event new_uuid r)))"

section \<open>The osquery task\<close>

text \<open>A result as it arrives: with the identifier drawn for it, and what its push meets.\<close>

record arrival =
  ar_result :: osquery_result
  ar_uuid :: string
  ar_now :: timestamp
  ar_fault :: "stmt option"

datatype osq_input =
    RecvResult arrival
  | ChannelClosed
  | ShutdownFired "arrival list"  \<comment> \<open>with what is still queued in the channel\<close>

definition buffer_arrival :: "(json \<Rightarrow> string option) \<Rightarrow> event_buffer \<Rightarrow> arrival \<Rightarrow> event_buffer" where
  "buffer_arrival to_string b a =
     (case encode_osquery_result to_string (ar_uuid a) (ar_result a) of
        None \<Rightarrow> b
      | Some j \<Rightarrow> snd (push (ar_fault a) (ar_now a) j b))"

text \<open>The task and whether it has left its loop.\<close>

definition osquery_task_step :: "(json \<Rightarrow> string option) \<Rightarrow> osq_input \<Rightarrow> event_buffer \<Rightarrow> event_buffer \<times> bool" where
  "osquery_task_step to_string inp b =
     (case inp of
        ShutdownFired queued \<Rightarrow> (foldl (buffer_arrival to_string) b queued, True)
      | ChannelClosed \<Rightarrow> (b, True)
      | RecvResult a \<Rightarrow> (buffer_arrival to_string b a, False))"

fun osquery_task :: "(json \<Rightarrow> string option) \<Rightarrow> osq_input list \<Rightarrow> event_buffer \<Rightarrow> event_buffer \<times> bool" where
  "osquery_task to_string [] b = (b, False)"
| "osquery_task to_string (i # is) b =
     (case osquery_task_step to_string i b of
        (b', True) \<Rightarrow> (b', True)
      | (b', False) \<Rightarrow> osquery_task to_string is b')"

section \<open>The command task\<close>

definition CMD_MAX_BACKOFF_ERRORS :: u32 where "CMD_MAX_BACKOFF_ERRORS = 8"
definition CMD_BACKOFF_BASE_MS :: u64 where "CMD_BACKOFF_BASE_MS = 50"
definition CMD_BACKOFF_CEILING_MS :: u64 where "CMD_BACKOFF_CEILING_MS = 12800"
definition CMD_POLL_INTERVAL_MS :: u64 where "CMD_POLL_INTERVAL_MS = 5"

definition saturating_succ :: "u32 \<Rightarrow> u32" where
  "saturating_succ n = (if n = - 1 then n else n + 1)"

definition backoff_ms :: "u32 \<Rightarrow> u64" where
  "backoff_ms consecutive_errors =
     min (CMD_BACKOFF_BASE_MS * 2 ^ unat (min consecutive_errors CMD_MAX_BACKOFF_ERRORS)) CMD_BACKOFF_CEILING_MS"

record 'w cmd_task =
  ct_errors :: u32
  ct_client :: fleet_client
  ct_host :: 'w
  ct_responses :: "(string, json) result list"
  ct_sleeps :: "u64 list"
  ct_running :: bool

text \<open>One iteration: whether shutdown is seen at its head and during its sleep, and what a
  reconnection meets.\<close>

record cmd_env =
  cm_cancelled :: bool
  cm_cancelled_in_sleep :: bool
  cm_connect :: connect_env

definition command_task_step :: "'w nft \<Rightarrow> isolation_manager \<Rightarrow> cmd_env \<Rightarrow> 'w cmd_task \<Rightarrow> 'w cmd_task" where
  "command_task_step n m env st =
     (if cm_cancelled env then st\<lparr>ct_running := False\<rparr>
      else case try_receive (ct_client st) of
        (Inr None, c1) \<Rightarrow>
          st\<lparr>ct_errors := 0, ct_client := c1, ct_sleeps := ct_sleeps st @ [CMD_POLL_INTERVAL_MS],
             ct_running := \<not> cm_cancelled_in_sleep env\<rparr>
      | (Inr (Some msg), c1) \<Rightarrow>
          (case handle n m msg (ct_host st) of
             (resp, w') \<Rightarrow> st\<lparr>ct_errors := 0, ct_client := c1, ct_host := w',
                              ct_responses := ct_responses st @ [resp]\<rparr>)
      | (Inl e, c1) \<Rightarrow>
          (let errors = saturating_succ (ct_errors st);
               ms = backoff_ms errors
           in case connect (cm_connect env) (fc_token c1) c1 of
                (r, c2) \<Rightarrow> st\<lparr>ct_errors := (if is_ok r then 0 else errors), ct_client := c2,
                              ct_sleeps := ct_sleeps st @ [ms], ct_running := \<not> cm_cancelled_in_sleep env\<rparr>))"

fun command_task :: "'w nft \<Rightarrow> isolation_manager \<Rightarrow> cmd_env list \<Rightarrow> 'w cmd_task \<Rightarrow> 'w cmd_task" where
  "command_task n m [] st = st"
| "command_task n m (e # es) st =
     (if ct_running st then command_task n m es (command_task_step n m e st) else st)"

section \<open>Waiting for the tasks\<close>

text \<open>After the shutdown token fires, \<open>run\<close> waits for the two tasks one after the other, each at most the grace period; times are in
  milliseconds, and a task that never ends has no end. A wait that times out drops the handle of the task, which detaches it: the
  task goes on. The result is the time \<open>run\<close> returns at and which tasks it saw end.\<close>

definition GRACE_MS :: nat where "GRACE_MS = 5000"

definition join_within :: "nat \<Rightarrow> nat option \<Rightarrow> nat \<times> bool" where
  "join_within now task_end =
     (case task_end of
        Some e \<Rightarrow> if e \<le> now + GRACE_MS then (max now e, True) else (now + GRACE_MS, False)
      | None \<Rightarrow> (now + GRACE_MS, False))"

definition await_tasks :: "nat \<Rightarrow> nat option \<Rightarrow> nat option \<Rightarrow> nat \<times> bool \<times> bool" where
  "await_tasks fired osquery_end command_end =
     (let (t1, osquery_done) = join_within fired osquery_end;
          (t2, command_done) = join_within t1 command_end
      in (t2, osquery_done, command_done))"

section \<open>Identity of the machine\<close>

definition nonempty_trimmed :: "string option \<Rightarrow> string option" where
  "nonempty_trimmed file = (case file of None \<Rightarrow> None
     | Some s \<Rightarrow> if trim s = [] then None else Some (trim s))"

text \<open>The contents of the two files, \<open>None\<close> when unreadable.\<close>

definition read_machine_id :: "string option \<Rightarrow> string option \<Rightarrow> string" where
  "read_machine_id etc_machine_id dbus_machine_id =
     unwrap_or ''unknown-machine-id''
       (or_else (nonempty_trimmed etc_machine_id) (nonempty_trimmed dbus_machine_id))"

definition hostname_or_default :: "string option \<Rightarrow> string" where
  "hostname_or_default host = unwrap_or ''unknown-host'' host"

record os_release =
  osr_name :: "string option"
  osr_version :: "string option"
  osr_pretty_name :: "string option"

definition os_release_line :: "os_release \<Rightarrow> string \<Rightarrow> os_release" where
  "os_release_line st line =
     (let trimmed = trim line in
      if starts_with ''#'' trimmed \<or> trimmed = [] then st
      else case split_once (CHR ''='') trimmed of
        None \<Rightarrow> st
      | Some (k, v) \<Rightarrow>
          let key = trim k; val = trim_matches_char (CHR 0x22) (trim v) in
          if key = ''PRETTY_NAME'' then st\<lparr>osr_pretty_name := Some val\<rparr>
          else if key = ''NAME'' then st\<lparr>osr_name := Some val\<rparr>
          else if key = ''VERSION'' then st\<lparr>osr_version := Some val\<rparr>
          else st)"

text \<open>\<open>None\<close>: the file does not exist; \<open>Some None\<close>: it cannot be opened; otherwise the text up to
  its first line that is not UTF-8.\<close>

definition get_os_version :: "string option option \<Rightarrow> string" where
  "get_os_version file =
     (case file of
        None \<Rightarrow> ''Unknown Linux (os-release not found)''
      | Some None \<Rightarrow> ''Unknown Linux (unable to open os-release)''
      | Some (Some text) \<Rightarrow>
          let st = foldl os_release_line \<lparr>osr_name = None, osr_version = None, osr_pretty_name = None\<rparr> (str_lines text) in
          (case osr_pretty_name st of
             Some pretty \<Rightarrow> pretty
           | None \<Rightarrow>
               let os_name = unwrap_or ''Linux'' (osr_name st) in
               (case osr_version st of Some ver \<Rightarrow> os_name @ '' '' @ ver | None \<Rightarrow> os_name)))"

section \<open>Environment check\<close>

record preflight_report =
  pf_config_dir_writable :: "(string, unit) result"
  pf_data_dir_writable :: "(string, unit) result"
  pf_log_dir_writable :: "(string, unit) result"
  pf_bpf_jit_enabled :: "(string, bool) result"
  pf_inotify_watches :: "(string, u64) result"
  pf_osqueryd_installed :: "(string, string) result"
  pf_nft_installed :: "(string, string) result"
  pf_is_root :: bool

definition report_is_ok :: "preflight_report \<Rightarrow> bool" where
  "report_is_ok r \<longleftrightarrow> is_ok (pf_config_dir_writable r) \<and> is_ok (pf_data_dir_writable r) \<and>
     is_ok (pf_log_dir_writable r) \<and> is_ok (pf_osqueryd_installed r) \<and> is_ok (pf_nft_installed r) \<and> pf_is_root r"

text \<open>The host as the check sees it; \<open>hs_parse_u64\<close> is \<open>str::parse::<u64>\<close>.\<close>

record host =
  hs_uid :: u32
  hs_exists :: "string \<Rightarrow> bool"
  hs_create_dir :: "string \<Rightarrow> (string, unit) result"
  hs_write :: "string \<Rightarrow> (string, unit) result"
  hs_read :: "string \<Rightarrow> (string, string) result"
  hs_which :: "string \<Rightarrow> bool"
  hs_parse_u64 :: "string \<Rightarrow> (string, u64) result"

definition path_join :: "string \<Rightarrow> string \<Rightarrow> string" where
  "path_join p f = (if p = [] \<or> last p = CHR ''/'' then p @ f else p @ ''/'' @ f)"

definition check_dir_writable :: "host \<Rightarrow> string \<Rightarrow> (string, unit) result" where
  "check_dir_writable h path =
     result_bind
       (if hs_exists h path then Ok ()
        else map_err (\<lambda>e. ''Directory does not exist and failed to create: '' @ e) (hs_create_dir h path))
       (\<lambda>_. map_err (\<lambda>e. ''Not writable: '' @ e) (hs_write h (path_join path ''.aigis_zero_preflight_temp'')))"

definition find_program :: "host \<Rightarrow> string \<Rightarrow> string \<Rightarrow> string \<Rightarrow> string \<Rightarrow> (string, string) result" where
  "find_program h cmd path1 path2 missing =
     (if hs_which h cmd then Ok ''Found in PATH''
      else if hs_exists h path1 then Ok path1
      else if hs_exists h path2 then Ok path2
      else Err missing)"

text \<open>\<open>parent\<close> is \<open>Path::parent\<close>.\<close>

definition run_preflight :: "(string \<Rightarrow> string option) \<Rightarrow> host \<Rightarrow> agent_config \<Rightarrow> preflight_report" where
  "run_preflight parent h config =
     \<lparr>pf_config_dir_writable = check_dir_writable h
        (unwrap_or ''/etc/aigis-zero'' (parent (oqs_flags_path (ac_osquery config)))),
      pf_data_dir_writable = check_dir_writable h (as_data_dir (ac_agent config)),
      pf_log_dir_writable = check_dir_writable h (as_log_dir (ac_agent config)),
      pf_bpf_jit_enabled =
        (case hs_read h ''/proc/sys/net/core/bpf_jit_enable'' of
           Inl e \<Rightarrow> Err (''Failed to read bpf_jit_enable: '' @ e)
         | Inr s \<Rightarrow> Ok (trim s = ''1'')),
      pf_inotify_watches =
        result_bind (map_err (\<lambda>e. ''Failed to read max_user_watches: '' @ e)
            (hs_read h ''/proc/sys/fs/inotify/max_user_watches''))
          (\<lambda>s. map_err (\<lambda>e. ''Failed to parse integer: '' @ e) (hs_parse_u64 h (trim s))),
      pf_osqueryd_installed = find_program h ''osqueryd'' ''/opt/osquery/bin/osqueryd'' ''/usr/bin/osqueryd''
        ''osqueryd executable not found (osquery package is required)'',
      pf_nft_installed = find_program h ''nft'' ''/usr/sbin/nft'' ''/sbin/nft''
        ''nft executable not found (nftables is required for isolation)'',
      pf_is_root = (hs_uid h = 0)\<rparr>"

definition dir_status_line :: "string \<Rightarrow> (string, unit) result \<Rightarrow> string" where
  "dir_status_line name status = (case status of
     Inr _ \<Rightarrow> ''  [OK]   '' @ name @ '' is accessible and writable''
   | Inl e \<Rightarrow> ''  [FAIL] '' @ name @ '' check failed: '' @ e)"

definition report_print :: "preflight_report \<Rightarrow> string list" where
  "report_print r =
     [''Aigis-Zero Agent Pre-flight Environment Check'',
      if pf_is_root r then ''  [OK]   Running as root (UID 0)''
      else ''  [FAIL] Not running as root (required for isolation & raw operations)'',
      dir_status_line ''Config Directory'' (pf_config_dir_writable r),
      dir_status_line ''Data Directory'' (pf_data_dir_writable r),
      dir_status_line ''Log Directory'' (pf_log_dir_writable r),
      (case pf_bpf_jit_enabled r of
         Inr True \<Rightarrow> ''  [OK]   BPF JIT compilation is enabled''
       | Inr False \<Rightarrow> ''  [WARN] BPF JIT compilation is disabled (performance might be affected)''
       | Inl e \<Rightarrow> ''  [WARN] Could not verify BPF JIT: '' @ e),
      (case pf_inotify_watches r of
         Inr val \<Rightarrow> if val \<ge> 524288
           then ''  [OK]   inotify max_user_watches limit is sufficient ('' @ show_nat (unat val) @ '')''
           else ''  [WARN] inotify max_user_watches limit is low ('' @ show_nat (unat val) @ ''); recommended >= 524288''
       | Inl e \<Rightarrow> ''  [WARN] Could not verify inotify max_user_watches: '' @ e),
      (case pf_osqueryd_installed r of
         Inr path \<Rightarrow> ''  [OK]   osqueryd found: '' @ path
       | Inl e \<Rightarrow> ''  [FAIL] osqueryd check failed: '' @ e),
      (case pf_nft_installed r of
         Inr path \<Rightarrow> ''  [OK]   nft (nftables) found: '' @ path
       | Inl e \<Rightarrow> ''  [FAIL] nft (nftables) check failed: '' @ e)]"

section \<open>Lemmas\<close>

lemma min_le_8: "unat (min (e :: u32) 8) \<le> 8"
  by (simp add: min_def word_le_nat_alt)

lemma backoff_ms_nat:
  "unat (backoff_ms e) = min (50 * 2 ^ min (unat e) 8) 12800"
proof -
  have k: "unat (min e 8) = min (unat e) 8"
    by (simp add: min_def word_le_nat_alt)
  have "min (unat e) 8 \<in> {0, 1, 2, 3, 4, 5, 6, 7, 8}" by auto
  then show ?thesis
    unfolding backoff_ms_def CMD_BACKOFF_BASE_MS_def CMD_BACKOFF_CEILING_MS_def CMD_MAX_BACKOFF_ERRORS_def k
    by (elim insertE) simp_all
qed

text \<open>A task that meets no fault pushes what it encodes.\<close>

definition clean_arrival :: "(json \<Rightarrow> string option) \<Rightarrow> arrival \<Rightarrow> bool" where
  "clean_arrival to_string a \<longleftrightarrow> ar_fault a = None \<and>
     encode_osquery_result to_string (ar_uuid a) (ar_result a) \<noteq> None"

definition arrival_text :: "(json \<Rightarrow> string option) \<Rightarrow> arrival \<Rightarrow> string" where
  "arrival_text to_string a = the (encode_osquery_result to_string (ar_uuid a) (ar_result a))"

lemma buffer_arrivals_enq_all:
  assumes "\<forall>a \<in> set as. clean_arrival to_string a"
  shows "foldl (buffer_arrival to_string) b as =
    eb.enq_all (map (\<lambda>a. (ar_now a, arrival_text to_string a)) as) b"
  using assms
  by (induction as arbitrary: b)
    (auto simp: eb.enq_all_def buffer_arrival_def clean_arrival_def arrival_text_def push_ok_def)

lemma osquery_task_received:
  "osquery_task to_string (map RecvResult as @ is) b =
     osquery_task to_string is (foldl (buffer_arrival to_string) b as)"
  by (induction as arbitrary: b) (simp_all add: osquery_task_step_def)

lemma try_receive_queued:
  "fc_inbound_rx c = Some rx \<Longrightarrow> ich_queue rx = msg # rest \<Longrightarrow>
     try_receive c = (Ok (Some msg), c\<lparr>fc_inbound_rx := Some (rx\<lparr>ich_queue := rest\<rparr>)\<rparr>)"
  by (simp add: try_receive_def)

definition handle_all :: "'w nft \<Rightarrow> isolation_manager \<Rightarrow> server_command list \<Rightarrow> 'w \<Rightarrow> (string, json) result list \<times> 'w" where
  "handle_all n m msgs w = foldl (\<lambda>(rs, w) msg. case handle n m msg w of (r, w') \<Rightarrow> (rs @ [r], w')) ([], w) msgs"

text \<open>The wait is bounded by two grace periods; tasks that end within the first of them are both seen to end, and a task that never ends
  is left running.\<close>

lemma await_tasks_bounded:
  assumes "await_tasks fired a b = (t, x, y)"
  shows "fired \<le> t" "t \<le> fired + 2 * GRACE_MS" "x \<longleftrightarrow> (\<exists>e. a = Some e \<and> e \<le> fired + GRACE_MS)" "b = None \<Longrightarrow> \<not> y"
  using assms by (auto simp: await_tasks_def join_within_def Let_def max_def split: option.splits if_splits)

lemma await_tasks_clean:
  "\<lbrakk>e \<le> fired + GRACE_MS; e' \<le> fired + GRACE_MS\<rbrakk> \<Longrightarrow> await_tasks fired (Some e) (Some e') = (max fired (max e e'), True, True)"
  by (auto simp: await_tasks_def join_within_def max_def)

lemma handle_fold_prefix:
  "foldl (\<lambda>(rs, w) msg. case handle n m msg w of (r, w') \<Rightarrow> (rs @ [r], w')) (rs0, w) msgs =
     (rs0 @ fst (handle_all n m msgs w), snd (handle_all n m msgs w))"
  unfolding handle_all_def
proof (induction msgs arbitrary: rs0 w)
  case Nil
  then show ?case by simp
next
  case (Cons msg msgs)
  show ?case
    using Cons [of "rs0 @ [fst (handle n m msg w)]"] Cons [of "[fst (handle n m msg w)]"]
    by (simp add: case_prod_beta)
qed

lemma handle_all_Cons:
  "handle_all n m (msg # msgs) w =
     (case handle n m msg w of (r, w') \<Rightarrow> (r # fst (handle_all n m msgs w'), snd (handle_all n m msgs w')))"
  using handle_fold_prefix [of n m "[fst (handle n m msg w)]" "snd (handle n m msg w)" msgs]
  by (simp add: handle_all_def case_prod_beta)

lemma command_task_queued:
  assumes "ct_running st" "fc_inbound_rx (ct_client st) = Some rx" "ich_queue rx = msgs"
    and "length es = length msgs" "\<forall>e \<in> set es. \<not> cm_cancelled e"
  shows "ct_responses (command_task n m es st) = ct_responses st @ fst (handle_all n m msgs (ct_host st)) \<and>
    ct_host (command_task n m es st) = snd (handle_all n m msgs (ct_host st)) \<and>
    ct_running (command_task n m es st) \<and> ct_sleeps (command_task n m es st) = ct_sleeps st"
  using assms
proof (induction msgs arbitrary: st rx es)
  case Nil
  then show ?case by (simp add: handle_all_def)
next
  case (Cons msg msgs)
  obtain e es' where es: "es = e # es'" using Cons.prems(4) by (cases es) auto
  obtain r w' where h: "handle n m msg (ct_host st) = (r, w')" by fastforce
  let ?c = "(ct_client st)\<lparr>fc_inbound_rx := Some (rx\<lparr>ich_queue := msgs\<rparr>)\<rparr>"
  let ?st = "st\<lparr>ct_errors := 0, ct_client := ?c, ct_host := w', ct_responses := ct_responses st @ [r]\<rparr>"
  have step: "command_task_step n m e st = ?st"
    using Cons.prems es h try_receive_queued [OF Cons.prems(2,3)] by (simp add: command_task_step_def)
  have "ct_responses (command_task n m es' ?st) = ct_responses ?st @ fst (handle_all n m msgs (ct_host ?st)) \<and>
    ct_host (command_task n m es' ?st) = snd (handle_all n m msgs (ct_host ?st)) \<and>
    ct_running (command_task n m es' ?st) \<and> ct_sleeps (command_task n m es' ?st) = ct_sleeps ?st"
    by (rule Cons.IH) (use Cons.prems es in auto)
  then show ?case
    using es step Cons.prems(1) h by (simp add: handle_all_Cons)
qed

section \<open>Properties\<close>

text \<open>The backoff of the command listener after \<open>n > 0\<close> consecutive transport errors is
  \<open>100 * 2 ^ (min n 8 - 1)\<close> milliseconds: it starts at 100 ms, doubles up to the ceiling of 12800 ms,
  never overflows and never decreases with the number of errors.\<close>

lemma backoff_doubles_to_ceiling:
  assumes "0 < n"
  shows "unat (backoff_ms n) = 100 * 2 ^ (min (unat n) 8 - 1) \<and>
    100 \<le> unat (backoff_ms n) \<and> unat (backoff_ms n) \<le> 12800 \<and>
    (\<forall>m. n \<le> m \<longrightarrow> backoff_ms n \<le> backoff_ms m)"
proof -
  have pos: "0 < unat n" using assms by (simp add: word_less_nat_alt)
  have "min (unat n) 8 \<in> {1, 2, 3, 4, 5, 6, 7, 8}" using pos by auto
  then have "unat (backoff_ms n) = 100 * 2 ^ (min (unat n) 8 - 1) \<and>
      100 \<le> unat (backoff_ms n) \<and> unat (backoff_ms n) \<le> 12800"
    unfolding backoff_ms_nat by (elim insertE) simp_all
  moreover have "backoff_ms n \<le> backoff_ms m" if "n \<le> m" for m
  proof -
    have "min (unat n) 8 \<le> min (unat m) 8" using that by (auto simp: word_le_nat_alt)
    then have "(2::nat) ^ min (unat n) 8 \<le> 2 ^ min (unat m) 8" by (rule power_increasing) simp
    then show ?thesis
      unfolding word_le_nat_alt backoff_ms_nat by (intro min.mono mult_le_mono2) simp_all
  qed
  ultimately show ?thesis by blast
qed

lemma backoff_doubles_to_ceiling_witness:
  "unat (backoff_ms 3) = 400 \<and> backoff_ms 3 \<le> backoff_ms 20"
  using backoff_doubles_to_ceiling [of 3] by simp

text \<open>No result is lost at shutdown: the results the task received, followed by those still in
  the channel when the shutdown token fires, are all in the buffer, encoded, in order and behind
  what the buffer had, up to the buffer's capacity, and the task leaves its loop.\<close>

lemma osquery_task_buffers_all:
  assumes "buffer_inv b" "length (payloads b) \<le> buffer_cap b" "length as + length qs \<le> ids_left b"
    and "\<forall>a \<in> set (as @ qs). clean_arrival to_string a"
  shows "snd (osquery_task to_string (map RecvResult as @ [ShutdownFired qs]) b) \<and>
    payloads (fst (osquery_task to_string (map RecvResult as @ [ShutdownFired qs]) b)) =
      drop (length (payloads b) + (length as + length qs) - buffer_cap b)
        (payloads b @ map (arrival_text to_string) (as @ qs))"
proof -
  have "foldl (buffer_arrival to_string) (foldl (buffer_arrival to_string) b as) qs =
      eb.enq_all (map (\<lambda>a. (ar_now a, arrival_text to_string a)) (as @ qs)) b"
    using buffer_arrivals_enq_all [OF assms(4), of b] by simp
  then show ?thesis
    using eb.enq_all_contents_drop [OF assms(1), of "map (\<lambda>a. (ar_now a, arrival_text to_string a)) (as @ qs)"] assms(2,3)
    by (simp add: osquery_task_received osquery_task_step_def comp_def del: drop_append)
qed

definition sample_arrival :: "string \<Rightarrow> arrival" where
  "sample_arrival u = \<lparr>ar_result = build_result (\<lambda>xs. xs) (Some 5) ''users'' ''n1'' [] Snapshot,
     ar_uuid = u, ar_now = 9, ar_fault = None\<rparr>"

definition print_sequence :: "json \<Rightarrow> string option" where
  "print_sequence j = as_str (jindex j ''sequence_id'')"

lemma osquery_task_buffers_all_witness:
  "payloads (fst (osquery_task print_sequence [RecvResult (sample_arrival ''x''), ShutdownFired [sample_arrival ''y'']]
      sample_buffer)) = [''x'', ''y'']"
  using osquery_task_buffers_all [OF sample_buffer_inv, of "[sample_arrival ''x'']" "[sample_arrival ''y'']" print_sequence]
  by (simp add: sample_buffer_def payloads_def buffer_cap_def ids_left_def max_rowid_def clean_arrival_def
      encode_osquery_result_def print_sequence_def sample_arrival_def agent_event_json_def jindex_def jget_def
      arrival_text_def osquery_event_def)

text \<open>The command listener answers the queued commands one by one, in the order the server sent
  them, each on the host as the previous one left it, without sleeping between them.\<close>

lemma command_task_in_order:
  assumes "ct_running st" "fc_inbound_rx (ct_client st) = Some rx"
    and "length es = length (ich_queue rx)" "\<forall>e \<in> set es. \<not> cm_cancelled e"
  shows "ct_responses (command_task n m es st) = ct_responses st @ fst (handle_all n m (ich_queue rx) (ct_host st)) \<and>
    ct_host (command_task n m es st) = snd (handle_all n m (ich_queue rx) (ct_host st)) \<and>
    ct_sleeps (command_task n m es st) = ct_sleeps st"
  using command_task_queued [OF assms(1,2) refl assms(3,4)] by blast

definition sample_cmd_task :: "bool cmd_task" where
  "sample_cmd_task = \<lparr>ct_errors = 3,
     ct_client = (client_new ''http://f'')\<lparr>fc_inbound_rx := Some \<lparr>ich_open = True,
       ich_queue = [\<lparr>sc_command = None\<rparr>, \<lparr>sc_command = Some (Ack ''s'')\<rparr>]\<rparr>\<rparr>,
     ct_host = False, ct_responses = [], ct_sleeps = [], ct_running = True\<rparr>"

lemma command_task_in_order_witness:
  "ct_responses (command_task (strict_nft False) \<lparr>im_fleet_ip = V4 1, im_fleet_port = 1\<rparr>
     [\<lparr>cm_cancelled = False, cm_cancelled_in_sleep = False, cm_connect = good_env\<rparr>,
      \<lparr>cm_cancelled = False, cm_cancelled_in_sleep = False, cm_connect = good_env\<rparr>] sample_cmd_task)
   = [Err ''missing command'', Ok (status_json ''acked'')]"
  using command_task_in_order [of sample_cmd_task _
     "[\<lparr>cm_cancelled = False, cm_cancelled_in_sleep = False, cm_connect = good_env\<rparr>,
      \<lparr>cm_cancelled = False, cm_cancelled_in_sleep = False, cm_connect = good_env\<rparr>]"
     "strict_nft False" "\<lparr>im_fleet_ip = V4 1, im_fleet_port = 1\<rparr>"]
  by (simp add: sample_cmd_task_def handle_all_def handle_def)

text \<open>The environment check and its report agree: the check passes exactly when no printed line
  is marked as a failure.\<close>

lemma preflight_report_consistent:
  "report_is_ok r \<longleftrightarrow> filter (starts_with ''  [FAIL]'') (report_print r) = []"
  by (auto simp: report_is_ok_def report_print_def dir_status_line_def starts_with_def is_ok_def
      split: sum.splits bool.splits)

end
