(* ===== verification/AgentBin.thy ===== *)
theory AgentBin
  imports AgentCore
begin

text \<open>
  The agent's executable, \<open>agent/crates/agent-bin/src/main.rs\<close>: saving the node id to the
  configuration file, reading the fleet server's address from the endpoint, the start-up sequence
  (connect, enroll, save, connect with the token), the heartbeat and the loop that drains the
  event buffer into the stream.
\<close>

section \<open>Saving the node id\<close>

definition node_id_line :: "(uuid \<Rightarrow> string) \<Rightarrow> uuid \<Rightarrow> string" where
  "node_id_line uuid_str node_id = ''node_id = '' @ [CHR 0x22] @ uuid_str node_id @ [CHR 0x22]"

definition agent_header :: "string \<Rightarrow> bool" where
  "agent_header l \<longleftrightarrow> trim l = ''[agent]''"

definition node_id_entry :: "string \<Rightarrow> bool" where
  "node_id_entry l \<longleftrightarrow> starts_with ''node_id'' l"

definition section_line :: "string \<Rightarrow> bool" where
  "section_line l \<longleftrightarrow> starts_with ''['' l"

text \<open>The loop over the lines: (in the agent section, inserted, lines).\<close>

fun save_loop :: "string \<Rightarrow> bool \<Rightarrow> string list \<Rightarrow> bool \<times> bool \<times> string list" where
  "save_loop new_line in_agent [] = (in_agent, False, [])"
| "save_loop new_line in_agent (l # ls) =
     (if agent_header l then
        (case save_loop new_line True ls of (a, i, r) \<Rightarrow> (a, i, l # r))
      else if in_agent \<and> node_id_entry l then (in_agent, True, new_line # ls)
      else if in_agent \<and> section_line l then (in_agent, True, new_line # l # ls)
      else (case save_loop new_line in_agent ls of (a, i, r) \<Rightarrow> (a, i, l # r)))"

definition save_lines :: "string \<Rightarrow> string list \<Rightarrow> string list" where
  "save_lines new_line ls =
     (case save_loop new_line False ls of
        (in_agent, inserted, r) \<Rightarrow> if in_agent \<and> \<not> inserted then r @ [new_line] else r)"

text \<open>\<open>content\<close>: what reading the file gives; the result is what is written back.\<close>

definition save_node_id_to_config :: "(uuid \<Rightarrow> string) \<Rightarrow> string option \<Rightarrow> uuid \<Rightarrow> string option" where
  "save_node_id_to_config uuid_str content node_id =
     map_option (\<lambda>text. join_with [newline] (save_lines (node_id_line uuid_str node_id) (str_lines text))) content"

section \<open>The endpoint\<close>

text \<open>\<open>ip_parse\<close> is the parser of \<open>IpAddr\<close>, \<open>resolve\<close> the first address a lookup of
  \<open>host:port\<close> gives.\<close>

definition parse_endpoint :: "(string \<Rightarrow> ip_addr option) \<Rightarrow> (string \<Rightarrow> ip_addr option) \<Rightarrow> string \<Rightarrow> ip_addr \<times> u16" where
  "parse_endpoint ip_parse resolve endpoint =
     (let clean = trim_start_str ''https://'' (trim_start_str ''http://'' endpoint);
          host_port = hd (split_on (CHR ''/'') clean);
          parts = split_on (CHR '':'') host_port;
          host = hd parts;
          port = (of_nat (unwrap_or 50051 (if length parts > 1 then parse_unsigned 16 (parts ! 1) else None)) :: u16);
          ip = unwrap_or (V4 0x7F000001)
                 (or_else (ip_parse (trim_end_char (CHR '']'') (trim_start_char (CHR ''['') host)))
                          (resolve (host @ '':'' @ show_nat (unat port))))
      in (ip, port))"

section \<open>Start-up\<close>

record startup_env =
  su_connects :: "connect_env list"
  su_hostname :: "string option"
  su_os_release :: "string option option"
  su_machine_ids :: "string option \<times> string option"
  su_version :: string
  su_legal_value :: "string \<Rightarrow> bool"
  su_register :: "metadata \<Rightarrow> register_request \<Rightarrow> (grpc_status, register_response) result"
  su_reconnects :: "connect_env list"
  su_force_enroll :: bool  \<comment> \<open>the \<open>--enroll\<close> flag\<close>
  su_config_text :: "string option"

datatype startup_error = ConnectFailed client_error | HostnameFailed | EnrollFailed client_error
  | ConfigUnreadable | ReconnectFailed client_error

record started =
  st_node_id :: uuid
  st_client :: fleet_client
  st_saved_config :: "string option"  \<comment> \<open>what was written to the configuration file\<close>

definition enrollment_secret :: "fleet_section \<Rightarrow> string option" where
  "enrollment_secret f = (if fs_enrollment_secret f = [] then None else Some (fs_enrollment_secret f))"

definition register_request_of :: "startup_env \<Rightarrow> string \<Rightarrow> register_request" where
  "register_request_of env host =
     \<lparr>rq_hostname = host, rq_os_version = get_os_version (su_os_release env),
      rq_agent_version = su_version env,
      rq_machine_id = read_machine_id (fst (su_machine_ids env)) (snd (su_machine_ids env))\<rparr>"

text \<open>\<open>None\<close>: still retrying a connection. \<open>enroll_with_secret\<close> has parsed the node id already, so
  the second parse of the same text cannot fail.\<close>

definition agent_startup :: "(string \<Rightarrow> uuid option) \<Rightarrow> (uuid \<Rightarrow> string) \<Rightarrow> startup_env \<Rightarrow> agent_config
    \<Rightarrow> (startup_error, started) result option" where
  "agent_startup uuid_parse uuid_str env config =
     (let f = ac_fleet config;
          delay = 1000 * unat (fs_reconnect_interval_secs f)
      in case connect_with_retry (fs_max_reconnect_attempts f) delay None (su_connects env) (client_new (fs_endpoint f)) of
        None \<Rightarrow> None
      | Some (Inl e, _, _) \<Rightarrow> Some (Err (ConnectFailed e))
      | Some (Inr _, c1, _) \<Rightarrow>
          (case su_hostname env of
             None \<Rightarrow> Some (Err HostnameFailed)
           | Some host \<Rightarrow>
               (case enroll_with_secret (su_legal_value env) uuid_parse (su_register env)
                       (register_request_of env host) (enrollment_secret f) c1 of
                  (Inl e, _) \<Rightarrow> Some (Err (EnrollFailed e))
                | (Inr resp, c2) \<Rightarrow>
                    let node_id = unwrap_or 0 (uuid_parse (rs_node_id resp));
                        save = (as_node_id (ac_agent config) \<noteq> Some node_id \<or> su_force_enroll env);
                        written = (if save then save_node_id_to_config uuid_str (su_config_text env) node_id else None)
                    in if save \<and> written = None then Some (Err ConfigUnreadable)
                       else case connect_with_retry (fs_max_reconnect_attempts f) delay (Some (rs_token resp)) (su_reconnects env) c2 of
                         None \<Rightarrow> None
                       | Some (Inl e, _, _) \<Rightarrow> Some (Err (ReconnectFailed e))
                       | Some (Inr _, c3, _) \<Rightarrow>
                           Some (Ok \<lparr>st_node_id = node_id, st_client = c3, st_saved_config = written\<rparr>))))"

section \<open>Heartbeat\<close>

definition heartbeat_tick :: "(string \<Rightarrow> bool) \<Rightarrow> (uuid \<Rightarrow> string)
    \<Rightarrow> (metadata \<Rightarrow> heartbeat_request \<Rightarrow> (grpc_status, heartbeat_response) result)
    \<Rightarrow> stmt option \<Rightarrow> uuid \<Rightarrow> event_buffer \<Rightarrow> fleet_client \<Rightarrow> (client_error, heartbeat_response) result" where
  "heartbeat_tick legal_value uuid_str rpc fault node_id b c =
     (let count = unwrap_or 0 (ok_opt (len fault b));
          req = \<lparr>hr_node_id = uuid_str node_id, hr_status = ''healthy'', hr_events_buffered = count\<rparr>
      in client_heartbeat legal_value uuid_str rpc req c)"

section \<open>The drain loop\<close>

text \<open>What one iteration meets: faults of the drain and of each push back, the clock at each push
  back, and when the stream's receiver goes away.\<close>

record drain_env =
  de_drain_fault :: "stmt option"
  de_closes_after :: "nat option"
  de_push :: "nat \<Rightarrow> stmt option \<times> timestamp"

definition requeue :: "(nat \<Rightarrow> stmt option \<times> timestamp) \<Rightarrow> string list \<Rightarrow> event_buffer \<Rightarrow> event_buffer" where
  "requeue envs events b =
     foldl (\<lambda>b (i, e). snd (push (fst (envs i)) (snd (envs i)) e b)) b (zip [0..<length events] events)"

definition drain_tick :: "(string \<Rightarrow> json option) \<Rightarrow> (json \<Rightarrow> bytes option) \<Rightarrow> drain_env \<Rightarrow> uuid \<Rightarrow> u32
    \<Rightarrow> event_buffer \<Rightarrow> fleet_client \<Rightarrow> event_buffer \<times> fleet_client" where
  "drain_tick from_str to_vec env node_id batch_size b c =
     (case drain (de_drain_fault env) (ucast batch_size) b of
        (Inl _, b1) \<Rightarrow> (b1, c)
      | (Inr events, b1) \<Rightarrow>
          if events = [] then (b1, c)
          else
            let parsed_events = List.map_filter from_str events in
            if parsed_events = [] then (b1, c)
            else case send_events to_vec (de_closes_after env) \<lparr>bt_node_id = node_id, bt_events = parsed_events\<rparr> c of
              (Inr ack, c1) \<Rightarrow> if ack_success ack then (b1, c1) else (requeue (de_push env) events b1, c1)
            | (Inl _, c1) \<Rightarrow> (requeue (de_push env) events b1, c1))"

section \<open>Lemmas on the configuration file\<close>

lemma save_loop_not_inserted:
  "save_loop nl a ls = (a', False, r) \<Longrightarrow> r = ls \<and> (a' \<longleftrightarrow> a \<or> (\<exists>l \<in> set ls. agent_header l))"
  by (induction nl a ls arbitrary: a' r rule: save_loop.induct) (fastforce split: if_splits prod.splits)+

lemma save_loop_needs_header:
  "save_loop nl a ls = (a', True, r) \<Longrightarrow> a \<or> (\<exists>l \<in> set ls. agent_header l)"
  by (induction nl a ls arbitrary: a' r rule: save_loop.induct) (fastforce split: if_splits prod.splits)+

lemma save_loop_again:
  assumes "node_id_entry nl" "\<not> agent_header nl"
  shows "save_loop nl a ls = (a', True, r) \<Longrightarrow> save_loop nl a r = (a', True, r)"
proof (induction ls arbitrary: a a' r)
  case Nil
  then show ?case by simp
next
  case (Cons l ls)
  consider "agent_header l" | "\<not> agent_header l" "a" "node_id_entry l \<or> section_line l"
    | "\<not> agent_header l" "\<not> (a \<and> (node_id_entry l \<or> section_line l))" by blast
  then show ?case
  proof cases
    case 1
    then obtain r' where r': "save_loop nl True ls = (a', True, r')" "r = l # r'"
      using Cons.prems by (auto split: prod.splits)
    show ?thesis using Cons.IH [OF r'(1)] r'(2) 1 by simp
  next
    case 2
    then show ?thesis using Cons.prems assms by (auto split: if_splits)
  next
    case 3
    then obtain r' where r': "save_loop nl a ls = (a', True, r')" "r = l # r'"
      using Cons.prems by (auto split: prod.splits if_splits)
    show ?thesis using Cons.IH [OF r'(1)] r'(2) 3 by auto
  qed
qed

lemma save_loop_append_new:
  assumes "node_id_entry nl" "\<not> agent_header nl"
  shows "save_loop nl a ls = (True, False, r) \<Longrightarrow> save_loop nl a (ls @ [nl]) = (True, True, ls @ [nl])"
  using assms
  by (induction nl a ls arbitrary: r rule: save_loop.induct) (auto split: if_splits prod.splits)

text \<open>The node id the agent section has: the first \<open>node_id\<close> line after \<open>[agent]\<close> and before the
  next section.\<close>

fun agent_node_line :: "bool \<Rightarrow> string list \<Rightarrow> string option" where
  "agent_node_line in_agent [] = None"
| "agent_node_line in_agent (l # ls) =
     (if agent_header l then agent_node_line True ls
      else if in_agent \<and> node_id_entry l then Some l
      else if in_agent \<and> section_line l then None
      else agent_node_line in_agent ls)"

lemma agent_node_line_saved:
  assumes "node_id_entry nl" "\<not> agent_header nl"
  shows "save_loop nl a ls = (a', True, r) \<Longrightarrow> agent_node_line a r = Some nl"
  using assms
  by (induction nl a ls arbitrary: a' r rule: save_loop.induct) (auto split: if_splits prod.splits)

lemma agent_node_line_appended:
  assumes "node_id_entry nl" "\<not> agent_header nl"
  shows "save_loop nl a ls = (True, False, r) \<Longrightarrow> agent_node_line a (ls @ [nl]) = Some nl"
  using assms
  by (induction nl a ls arbitrary: r rule: save_loop.induct) (auto split: if_splits prod.splits)

lemma node_id_line_facts:
  "node_id_entry (node_id_line s u)" "\<not> agent_header (node_id_line s u)"
proof -
  show "node_id_entry (node_id_line s u)"
    by (simp add: node_id_line_def node_id_entry_def starts_with_def)
  have "trim (node_id_line s u) = node_id_line s u"
    by (simp add: node_id_line_def trim_def trim_start_def trim_end_def is_ws_def)
  then show "\<not> agent_header (node_id_line s u)"
    by (simp add: node_id_line_def agent_header_def)
qed

lemma save_lines_cases:
  obtains (none) "\<not> (\<exists>l \<in> set ls. agent_header l)" "save_lines nl ls = ls" "save_loop nl False ls = (False, False, ls)"
  | (appended) "save_loop nl False ls = (True, False, ls)" "save_lines nl ls = ls @ [nl]"
  | (inserted) a r where "save_loop nl False ls = (a, True, r)" "save_lines nl ls = r"
proof -
  obtain a i r where s: "save_loop nl False ls = (a, i, r)" by (cases "save_loop nl False ls") auto
  show thesis
  proof (cases i)
    case True
    then show thesis using s inserted by (simp add: save_lines_def)
  next
    case False
    with s have "r = ls" "a \<longleftrightarrow> (\<exists>l \<in> set ls. agent_header l)"
      using save_loop_not_inserted by fastforce+
    then show thesis using s False none appended by (cases a) (auto simp: save_lines_def)
  qed
qed

section \<open>Lemmas on the endpoint\<close>

lemma show_v4_chars: "c \<in> set (show_v4 a) \<Longrightarrow> is_digit c \<or> c = CHR ''.''"
  using set_join_with [of "''.''" "map (\<lambda>k. show_nat (unat (take_bit 8 (drop_bit k a)))) [24, 16, 8, 0]"]
    show_nat_digits
  by (auto simp: show_v4_def is_digit_def)

text \<open>A host without brackets: an IPv4 address or a name.\<close>

definition plain_host :: "string \<Rightarrow> bool" where
  "plain_host h \<longleftrightarrow> list_all (\<lambda>c. c \<notin> set ''/:[]'') h"

lemma trim_start_str_absent: "c \<in> set p \<Longrightarrow> c \<notin> set s \<Longrightarrow> trim_start_str p s = s"
  by (subst trim_start_str.simps) (auto simp: starts_with_def dest: arg_cong [of _ _ set] in_set_takeD)

lemma parse_endpoint_host:
  assumes "scheme \<in> {''http://'', ''https://''}" "plain_host h"
    and "or_else (ip_parse h) (resolve (h @ '':'' @ show_nat (unat port))) = Some ip"
  shows "parse_endpoint ip_parse resolve (scheme @ h @ '':'' @ show_nat (unat port)) = (ip, port)"
proof -
  let ?p = "show_nat (unat port)"
  have p: "c \<in> set ?p \<Longrightarrow> is_digit c" for c using show_nat_digits by (simp add: is_digit_def)
  have d: "\<not> is_digit (CHR ''/'')" "\<not> is_digit (CHR '':'')" by (simp_all add: is_digit_def)
  have no: "CHR ''/'' \<notin> set (h @ '':'' @ ?p)" "CHR '':'' \<notin> set h" "CHR '':'' \<notin> set ?p" "CHR ''['' \<notin> set h" "CHR '']'' \<notin> set h"
    using p d assms(2) by (auto simp: plain_host_def list_all_iff)
  have t: "trim_start_str ''http://'' (h @ '':'' @ ?p) = h @ '':'' @ ?p" "trim_start_str ''https://'' (h @ '':'' @ ?p) = h @ '':'' @ ?p"
    by (rule trim_start_str_absent [of "CHR ''/''"]; use no(1) in simp)+
  have "trim_start_str ''http://'' (''http://'' @ h @ '':'' @ ?p) = h @ '':'' @ ?p"
    "trim_start_str ''http://'' (''https://'' @ h @ '':'' @ ?p) = ''https://'' @ h @ '':'' @ ?p"
    "trim_start_str ''https://'' (''https://'' @ h @ '':'' @ ?p) = h @ '':'' @ ?p"
    using t by (subst trim_start_str.simps, simp add: starts_with_def)+
  then have t1: "trim_start_str ''https://'' (trim_start_str ''http://'' (scheme @ h @ '':'' @ ?p)) = h @ '':'' @ ?p"
    using assms(1) t by auto
  have s1: "split_on (CHR ''/'') (h @ '':'' @ ?p) = [h @ '':'' @ ?p]" by (rule split_on_no_sep) (rule no(1))
  have s2: "split_on (CHR '':'') (h @ '':'' @ ?p) = [h, ?p]"
    using split_on_append_sep [OF no(2), of ?p] split_on_no_sep [OF no(3)] by simp
  have "dropWhile (\<lambda>x. x = c) xs = xs" if "c \<notin> set xs" for c :: char and xs using that by (cases xs) auto
  then have tr: "trim_end_char (CHR '']'') (trim_start_char (CHR ''['') h) = h"
    using no(4,5) by (simp add: trim_end_char_def trim_start_char_def)
  have pp: "parse_unsigned 16 ?p = Some (unat port)"
    using unsigned_less [of port] by (intro parse_show_nat) simp
  show ?thesis
    unfolding parse_endpoint_def Let_def t1 s1 list.sel s2 using assms(3) tr pp by simp
qed

lemma plain_host_v4: "plain_host (show_v4 a)"
  using show_v4_chars [of _ a] by (fastforce simp: plain_host_def list_all_iff is_digit_def)

section \<open>Lemmas on the drain loop\<close>

lemma requeue_enq_all:
  assumes "\<forall>i. fst (envs i) = None"
  shows "requeue envs events b =
    eb.enq_all (map (\<lambda>(i, e). (snd (envs i), e)) (zip [0..<length events] events)) b"
proof -
  have "(\<lambda>b (i, e). snd (push (fst (envs i)) (snd (envs i)) e b)) =
      (\<lambda>b x. push_ok (case x of (i, e) \<Rightarrow> (snd (envs i), e)) b)"
    using assms by (auto simp: push_ok_def fun_eq_iff)
  then show ?thesis
    by (simp add: requeue_def eb.enq_all_def foldl_map)
qed

lemma requeue_rotates:
  assumes "buffer_inv b" "n \<le> nat max_rowid" "length (payloads b) \<le> buffer_cap b"
    and "\<forall>i. fst (envs i) = None" "length (payloads b) \<le> ids_left b"
  shows "payloads (requeue envs (take n (payloads b)) (snd (drain_ok n b))) =
    drop n (payloads b) @ take n (payloads b)"
proof -
  let ?evs = "take n (payloads b)"
  let ?xs = "map (\<lambda>(i, e). (snd (envs i), e)) (zip [0..<length ?evs] ?evs)"
  have "map snd ?xs = ?evs"
    by (rule nth_equalityI) simp_all
  moreover have "drain_ok n b = (?evs, snd (drain_ok n b))"
    using eb.deq_result [OF assms(1,2)] by (metis prod.collapse)
  ultimately show ?thesis
    using eb.deq_enq_all [OF assms(1-3), of ?evs "snd (drain_ok n b)" ?xs] requeue_enq_all [OF assms(4)] assms(5)
    by simp
qed

lemma drain_u32:
  assumes "buffer_inv b"
  shows "drain None (ucast (n :: u32)) b = (Ok (take (unat n) (payloads b)), snd (drain_ok (unat n) b))"
proof -
  have lt: "uint n < 2 ^ 32" using unsigned_less [of n] by simp
  have le: "unat n \<le> nat max_rowid" using lt unfolding max_rowid_def by (subst le_nat_iff) simp_all
  have s: "0 \<le> sint (ucast n :: u64)"
    using sint_of_nat_i64 [of "unat n"] lt by simp
  have "drain None (ucast n) b = (Ok (fst (drain_ok (unat n) b)), snd (drain_ok (unat n) b))"
    using s by (auto simp: drain_ok_def drain_def Let_def)
  then show ?thesis using eb.deq_result [OF assms le] by simp
qed

lemma u32_batch_max: "unat (n :: u32) \<le> nat max_rowid"
proof -
  have "uint n < 2 ^ 32" using unsigned_less [of n] by simp
  then show ?thesis unfolding max_rowid_def by (subst le_nat_iff) simp_all
qed

lemma send_events_ok_success:
  "send_events to_vec k batch c = (Inr ack, c') \<Longrightarrow> ack_success ack"
  using send_loop_sent [of to_vec k "bt_events batch"]
  by (fastforce simp: send_events_def split: option.splits prod.splits)

section \<open>Properties\<close>

text \<open>Saving the node id takes effect and is idempotent: if the file has an agent section, the
  node id the section has afterwards is the saved one; a file without one is left as it was; and
  saving the same id again changes nothing.\<close>

lemma save_node_id_effective:
  "(if \<exists>l \<in> set ls. agent_header l
    then agent_node_line False (save_lines (node_id_line uuid_str u) ls) = Some (node_id_line uuid_str u)
    else save_lines (node_id_line uuid_str u) ls = ls) \<and>
   save_lines (node_id_line uuid_str u) (save_lines (node_id_line uuid_str u) ls) =
     save_lines (node_id_line uuid_str u) ls"
proof -
  let ?nl = "node_id_line uuid_str u"
  note nl = node_id_line_facts [of uuid_str u]
  show ?thesis
  proof (cases rule: save_lines_cases [of ls ?nl])
    case none
    then show ?thesis by simp
  next
    case appended
    then have "\<exists>l \<in> set ls. agent_header l"
      using save_loop_not_inserted by fastforce
    then show ?thesis
      using appended agent_node_line_appended [OF nl appended(1)] save_loop_append_new [OF nl appended(1)]
      by (simp add: save_lines_def)
  next
    case (inserted a r)
    have "\<exists>l \<in> set ls. agent_header l"
      using save_loop_needs_header inserted(1) by blast
    then show ?thesis
      using inserted agent_node_line_saved [OF nl inserted(1)] save_loop_again [OF nl inserted(1)]
      by (simp add: save_lines_def)
  qed
qed

text \<open>The fleet server's address is read back from the endpoint: for every IPv4 address and
  port, the endpoint \<open>http://address:port\<close> gives that address and that port, which are those the
  isolation rules let through. The hypothesis is that the address parser reads what \<open>Display\<close> prints.\<close>

lemma parse_endpoint_roundtrip:
  assumes "ip_parse (show_ip (V4 a)) = Some (V4 a)"
  shows "parse_endpoint ip_parse resolve (''http://'' @ show_ip (V4 a) @ '':'' @ show_nat (unat port)) = (V4 a, port)"
  using parse_endpoint_host [of "''http://''" "show_v4 a" ip_parse resolve port "V4 a"] plain_host_v4 assms by simp

lemma parse_endpoint_roundtrip_witness:
  "parse_endpoint (\<lambda>s. if s = ''10.0.0.7'' then Some (V4 0x0A000007) else None) (\<lambda>_. None) ''http://10.0.0.7:80''
     = (V4 0x0A000007, 80)"
proof -
  have s: "show_ip (V4 0x0A000007) = ''10.0.0.7''" "show_nat (unat (80 :: u16)) = ''80''" by code_simp+
  show ?thesis
    using parse_endpoint_roundtrip [of "\<lambda>s. if s = ''10.0.0.7'' then Some (V4 0x0A000007) else None"
        "0x0A000007" "\<lambda>_. None" 80] s by simp
qed

text \<open>A tick of the drain loop loses no event to a failing connection. The events it takes are
  either handed to the stream, in order, those that do not parse or print excepted; or the send
  fails and all of them go back to the buffer behind the others, a prefix having gone out. Nothing
  is evicted, and on a stream that is open and stays open they are handed over.\<close>

lemma drain_tick_conserves:
  assumes "buffer_inv b" "length (payloads b) \<le> buffer_cap b" "length (payloads b) \<le> ids_left b"
    and "de_drain_fault env = None" "\<forall>i. fst (de_push env i) = None" "fc_outbound_tx c = Some tx"
    and "drain_tick from_str to_vec env node_id n b c = (b', c')"
  shows "\<exists>tx'. fc_outbound_tx c' = Some tx' \<and>
    (let taken = take (unat n) (payloads b);
         rest = drop (unat n) (payloads b);
         converted = List.map_filter (to_proto_event to_vec) (List.map_filter from_str taken);
         delivered = (payloads b' = rest \<and> oc_sent tx' = oc_sent tx @ converted);
         requeued = (payloads b' = rest @ taken \<and> (\<exists>k. oc_sent tx' = oc_sent tx @ take k converted))
     in (delivered \<or> requeued) \<and> (oc_open tx \<and> de_closes_after env = None \<longrightarrow> delivered))"
proof -
  let ?q = "payloads b"
  let ?taken = "take (unat n) ?q"
  let ?parsed = "List.map_filter from_str ?taken"
  let ?b1 = "snd (drain_ok (unat n) b)"
  have d: "drain (de_drain_fault env) (ucast n) b = (Ok ?taken, ?b1)"
    using drain_u32 [OF assms(1)] assms(4) by simp
  have b1: "payloads ?b1 = drop (unat n) ?q"
    using eb.deq_contents [OF assms(1) u32_batch_max] .
  have rq: "payloads (requeue (de_push env) ?taken ?b1) = drop (unat n) ?q @ ?taken"
    using requeue_rotates [OF assms(1) u32_batch_max assms(2,5,3)] .
  show ?thesis
  proof (cases "?taken = [] \<or> ?parsed = []")
    case True
    then have "b' = ?b1" "c' = c" "?parsed = []"
      using assms(7) d by (auto simp: drain_tick_def Let_def map_filter_simps split: if_splits)
    then show ?thesis using assms(6) b1 by (simp add: Let_def map_filter_simps)
  next
    case False
    let ?batch = "\<lparr>bt_node_id = node_id, bt_events = ?parsed\<rparr>"
    obtain r c1 where s: "send_events to_vec (de_closes_after env) ?batch c = (r, c1)" by fastforce
    obtain tx' where t: "send_loop to_vec (de_closes_after env) ?parsed tx = (r, tx')" "fc_outbound_tx c1 = Some tx'"
      using s assms(6) by (auto simp: send_events_def split: prod.splits)
    have e: "b' = (if is_ok r then ?b1 else requeue (de_push env) ?taken ?b1)" "c' = c1"
      using assms(7) d s False send_events_ok_success [of to_vec "de_closes_after env" ?batch c]
      by (auto simp: drain_tick_def Let_def split: sum.splits if_splits)
    show ?thesis
      using send_loop_sent [OF t(1)] send_loop_open [of tx to_vec ?parsed] e t b1 rq
      by (cases "is_ok r") (auto simp: Let_def printable_def)
  qed
qed

text \<open>What osquery produced is what the server gets: the event the core encodes, once buffered,
  read back and converted for the stream, carries the agent's id, the type osquery, the printed
  result as payload, the result's timestamp and the drawn sequence id. The hypothesis is that
  parsing undoes the printing of the event.\<close>

lemma osquery_event_end_to_end:
  assumes "to_string (agent_event_json (osquery_event sequence_id r)) = Some s \<Longrightarrow>
      from_str s = Some (agent_event_json (osquery_event sequence_id r))"
    and "encode_osquery_result to_string sequence_id r = Some s"
    and "to_vec (osquery_result_json r) = Some p"
    and "- (2 ^ 63) \<le> or_timestamp_ns r" "or_timestamp_ns r < 2 ^ 63"
  shows "Option.bind (from_str s) (to_proto_event to_vec) =
    Some \<lparr>pe_node_id = or_agent_uuid r, pe_event_type = ''osquery'', pe_payload = p,
          pe_timestamp_ns = word_of_int (or_timestamp_ns r), pe_sequence_id = sequence_id\<rparr>"
proof -
  have "from_str s = Some (agent_event_json (osquery_event sequence_id r))"
    using assms(1,2) by (simp add: encode_osquery_result_def)
  then show ?thesis
    using assms(3-5)
    by (simp add: to_proto_event_def agent_event_json_def osquery_event_def jindex_def event_type_text_def)
qed

definition sample_result :: osquery_result where
  "sample_result = build_result (\<lambda>xs. xs) (Some 5) ''users'' ''n1'' [] Snapshot"

lemma osquery_event_end_to_end_witness:
  "Option.bind ((\<lambda>_. Some (agent_event_json (osquery_event ''s1'' sample_result))) ''text'') (to_proto_event (\<lambda>_. Some ''{}'')) =
    Some \<lparr>pe_node_id = ''n1'', pe_event_type = ''osquery'', pe_payload = ''{}'',
          pe_timestamp_ns = 5, pe_sequence_id = ''s1''\<rparr>"
  using osquery_event_end_to_end [of "\<lambda>_. Some ''text''" "''s1''" sample_result "''text''"
      "\<lambda>_. Some (agent_event_json (osquery_event ''s1'' sample_result))" "\<lambda>_. Some ''{}''" "''{}''"]
  by (simp add: encode_osquery_result_def sample_result_def build_result_def)

definition sample_drain_env :: drain_env where
  "sample_drain_env = \<lparr>de_drain_fault = None, de_closes_after = Some 0, de_push = (\<lambda>i. (None, 100))\<rparr>"

lemma drain_tick_conserves_witness:
  "payloads (fst (drain_tick (\<lambda>s. Some (JString s)) (\<lambda>_. Some ''{}'') sample_drain_env 1 1 sample_buffer
      (snd (connect good_env (Some ''t'') (client_new ''http://f''))))) \<in> {[''b''], [''b'', ''a'']}"
proof -
  let ?c = "snd (connect good_env (Some ''t'') (client_new ''http://f''))"
  let ?r = "drain_tick (\<lambda>s. Some (JString s)) (\<lambda>_. Some ''{}'') sample_drain_env 1 1 sample_buffer ?c"
  have tx: "fc_outbound_tx ?c = Some \<lparr>oc_open = True, oc_sent = []\<rparr>"
    by (simp add: connect_def good_env_def Let_def)
  have p: "payloads sample_buffer = [''a'', ''b'']" by (simp add: sample_buffer_def payloads_def)
  have c: "length (payloads sample_buffer) \<le> buffer_cap sample_buffer"
    "length (payloads sample_buffer) \<le> ids_left sample_buffer"
    by (simp_all add: sample_buffer_def payloads_def buffer_cap_def ids_left_def max_rowid_def)
  show ?thesis
    using drain_tick_conserves [OF sample_buffer_inv c _ _ tx, of sample_drain_env _ _ 1 1 "fst ?r" "snd ?r"] p
    by (auto simp: sample_drain_env_def Let_def)
qed

end
