(* ===== verification/Runs.thy ===== *)
theory Runs
  imports "HOL-Library.Multiset"
begin

text \<open>
  Labelled step relations, shared by the theories that compose concurrent tasks. A step \<open>step s obs s'\<close>
  goes from \<open>s\<close> to \<open>s'\<close> and shows the observations \<open>obs\<close>; \<open>runs\<close> is its closure, with the observations
  of all steps in order. The locale \<open>step_invariant\<close> is the contract of an inductive invariant and
  \<open>conserving\<close>, which extends it, that of a stage that neither loses, invents nor reorders items: what
  it holds before a step and what enters are what leaves and what it holds afterwards. Where items may
  be reordered on the way the contract is \<open>conserving_bag\<close>, which every conserving stage meets.
\<close>

inductive runs :: "('s \<Rightarrow> 'o list \<Rightarrow> 's \<Rightarrow> bool) \<Rightarrow> 's \<Rightarrow> 'o list \<Rightarrow> 's \<Rightarrow> bool" for step where
  runs_nil: "runs step s [] s"
| runs_snoc: "runs step s tr s1 \<Longrightarrow> step s1 obs s2 \<Longrightarrow> runs step s (tr @ obs) s2"

lemma runs_step: "step s obs s' \<Longrightarrow> runs step s obs s'"
  using runs_snoc [OF runs_nil] by fastforce

lemma runs_trans:
  assumes "runs step s1 tr2 s2" "runs step s0 tr1 s1"
  shows "runs step s0 (tr1 @ tr2) s2"
  using assms by (induction rule: runs.induct) (auto simp flip: append_assoc intro: runs_snoc)

lemma runs_step_then: "step s obs s1 \<Longrightarrow> runs step s1 tr s2 \<Longrightarrow> runs step s (obs @ tr) s2"
  by (rule runs_trans [OF _ runs_step])

text \<open>The items a trace shows, by a function of its observations.\<close>

definition shown :: "('o \<Rightarrow> 'a list) \<Rightarrow> 'o list \<Rightarrow> 'a list" where
  "shown f tr = concat (map f tr)"

lemma shown_simps [simp]:
  "shown f [] = []" "shown f (x # tr) = f x @ shown f tr" "shown f (tr1 @ tr2) = shown f tr1 @ shown f tr2"
  by (simp_all add: shown_def)

lemma shown_map: "shown f (map g xs) = concat (map (\<lambda>x. f (g x)) xs)"
  by (simp add: shown_def comp_def)

lemma concat_map_single [simp]: "concat (map (\<lambda>x. [x]) xs) = xs"
  by (induction xs) simp_all

lemma concat_map_Nil [simp]: "concat (map (\<lambda>x. []) xs) = []"
  by (induction xs) simp_all

locale step_invariant =
  fixes step :: "'s \<Rightarrow> 'o list \<Rightarrow> 's \<Rightarrow> bool"
    and inv :: "'s \<Rightarrow> bool"
  assumes step_inv: "inv s \<Longrightarrow> step s obs s' \<Longrightarrow> inv s'"
begin

lemma runs_inv: "runs step s tr s' \<Longrightarrow> inv s \<Longrightarrow> inv s'"
  by (induction rule: runs.induct) (auto intro: step_inv)

end

locale conserving = step_invariant +
  fixes into outof :: "'o \<Rightarrow> 'a list"
    and held :: "'s \<Rightarrow> 'a list"
  assumes step_conserves: "inv s \<Longrightarrow> step s obs s' \<Longrightarrow> held s @ shown into obs = shown outof obs @ held s'"
begin

lemma runs_conserves: "runs step s tr s' \<Longrightarrow> inv s \<Longrightarrow> held s @ shown into tr = shown outof tr @ held s'"
proof (induction rule: runs.induct)
  case (runs_snoc s tr s1 obs s2)
  have "held s1 @ shown into obs = shown outof obs @ held s2"
    using step_conserves runs_inv runs_snoc by blast
  then show ?case using runs_snoc by (metis append_assoc shown_simps(3))
qed simp

lemma runs_from_empty: "runs step s tr s' \<Longrightarrow> inv s \<Longrightarrow> held s = [] \<Longrightarrow> shown into tr = shown outof tr @ held s'"
  using runs_conserves by fastforce

end

locale conserving_bag = step_invariant +
  fixes into outof :: "'o \<Rightarrow> 'a list"
    and held :: "'s \<Rightarrow> 'a list"
  assumes step_conserves_bag: "inv s \<Longrightarrow> step s obs s' \<Longrightarrow>
    mset (held s) + mset (shown into obs) = mset (shown outof obs) + mset (held s')"
begin

lemma runs_conserves_bag:
  "runs step s tr s' \<Longrightarrow> inv s \<Longrightarrow> mset (held s) + mset (shown into tr) = mset (shown outof tr) + mset (held s')"
proof (induction rule: runs.induct)
  case (runs_snoc s tr s1 obs s2)
  have "mset (held s1) + mset (shown into obs) = mset (shown outof obs) + mset (held s2)"
    using step_conserves_bag runs_inv runs_snoc by blast
  moreover have "mset (held s) + mset (shown into tr) = mset (shown outof tr) + mset (held s1)"
    using runs_snoc by blast
  ultimately show ?case by (metis add.assoc mset_append shown_simps(3))
qed simp

end

sublocale conserving \<subseteq> bag: conserving_bag
  by unfold_locales (metis step_conserves mset_append)

end
