(* ===== verification/AgentSystem.thy ===== *)
theory AgentSystem
  imports AgentBin Runs
begin

text \<open>
  The running agent: the tasks that \<open>AgentCore::run\<close> (\<open>agent-core/src/lib.rs\<close>) and \<open>agent-bin/src/main.rs\<close>
  spawn, interleaved over what they share: the channel of osquery results, the event buffer, and the
  fleet client behind its mutex. The tasks' operations are those of the theories \<open>AgentCore\<close> and
  \<open>AgentBin\<close>; here each is cut where it waits and where it takes or frees a lock, and the pieces are the
  rules of the step relation \<open>agent_step\<close>.

  The drain task removes a batch from the buffer, waits for the client, sends, and on a failure pushes
  the events back one by one, keeping the client until the last; the osquery task may push in between.
  Nobody fires the shutdown token of the core: on the signal \<open>main\<close> returns, and with the runtime all
  tasks end where they are.
\<close>

section \<open>State\<close>

datatype drain_pc =
    DrainIdle
  | DrainTaken "string list"  \<comment> \<open>removed from the buffer, waiting for the client\<close>
  | DrainRequeue "string list"  \<comment> \<open>still to be pushed back, the client locked\<close>

record 'w agent_system =
  sy_channel :: "osquery_result list"
  sy_collecting :: bool
  sy_buffer :: event_buffer
  sy_command :: "'w cmd_task"  \<comment> \<open>with the fleet client\<close>
  sy_drain :: drain_pc
  sy_up :: bool

record 'w agent_params =
  ap_to_string :: "json \<Rightarrow> string option"
  ap_from_str :: "string \<Rightarrow> json option"
  ap_to_vec :: "json \<Rightarrow> bytes option"
  ap_node_id :: uuid
  ap_batch :: u32
  ap_drain_secs :: u64
  ap_heartbeat_secs :: u64
  ap_nft :: "'w nft"
  ap_isolation :: isolation_manager

definition RESULT_CHANNEL :: nat where "RESULT_CHANNEL = 100"

text \<open>What a run shows: an event entering the buffer; a result that did not print; an event that leaves,
  refused by the database, evicted, delivered, dropped because it does not read, or dropped with the process;
  a message put on the stream; a heartbeat and its answer.\<close>

datatype agent_obs =
    AgBuffered string
  | AgUnprintable osquery_result
  | AgRefused string
  | AgEvicted string
  | AgDelivered string
  | AgUnreadable string
  | AgDropped string
  | AgResultDropped osquery_result
  | AgStreamed proto_event
  | AgHeartbeat "(client_error, heartbeat_response) result"

section \<open>Operations\<close>

text \<open>A push, with what it costs: the event itself, where no row is inserted, or the oldest events.\<close>

definition buffer_push :: "stmt option \<Rightarrow> timestamp \<Rightarrow> string \<Rightarrow> event_buffer \<Rightarrow> agent_obs list \<times> event_buffer" where
  "buffer_push fault now e b =
     (let b1 = snd (push fault now e b) in
      if eb_seq b1 = eb_seq b then ([AgRefused e], b1)
      else (map AgEvicted (take (Suc (length (eb_rows b)) - length (eb_rows b1)) (payloads b @ [e])), b1))"

text \<open>The osquery task receives a result.\<close>

definition collect_result :: "'w agent_params \<Rightarrow> arrival \<Rightarrow> osquery_result list \<Rightarrow> 'w agent_system
    \<Rightarrow> agent_obs list \<times> 'w agent_system" where
  "collect_result p a rest s =
     (let s1 = s\<lparr>sy_channel := rest\<rparr> in
      case encode_osquery_result (ap_to_string p) (ar_uuid a) (ar_result a) of
        None \<Rightarrow> ([AgUnprintable (ar_result a)], s1)
      | Some j \<Rightarrow> (case buffer_push (ar_fault a) (ar_now a) j (sy_buffer s) of
          (obs, b1) \<Rightarrow> (AgBuffered j # obs, s1\<lparr>sy_buffer := b1\<rparr>)))"

text \<open>The drain task's tick up to the lock, the sending under it, and a push back.\<close>

definition drain_take :: "'w agent_params \<Rightarrow> stmt option \<Rightarrow> 'w agent_system \<Rightarrow> agent_obs list \<times> 'w agent_system" where
  "drain_take p fault s =
     (case drain fault (ucast (ap_batch p)) (sy_buffer s) of
        (Inl e, b1) \<Rightarrow> ([], s\<lparr>sy_buffer := b1\<rparr>)
      | (Inr events, b1) \<Rightarrow>
          if events = [] then ([], s\<lparr>sy_buffer := b1\<rparr>)
          else if List.map_filter (ap_from_str p) events = [] then (map AgUnreadable events, s\<lparr>sy_buffer := b1\<rparr>)
          else ([], s\<lparr>sy_buffer := b1, sy_drain := DrainTaken events\<rparr>))"

definition stream_of :: "fleet_client \<Rightarrow> proto_event list" where
  "stream_of c = (case fc_outbound_tx c of None \<Rightarrow> [] | Some tx \<Rightarrow> oc_sent tx)"

text \<open>The event a text of the buffer becomes on the stream. A text that does not parse is filtered out of the batch, and an event whose
  payload does not print is skipped while the batch is sent; neither is pushed back when the rest of the batch goes out.\<close>

definition readable :: "'w agent_params \<Rightarrow> string \<Rightarrow> proto_event option" where
  "readable p e = Option.bind (ap_from_str p e) (to_proto_event (ap_to_vec p))"

definition outcome_of :: "'w agent_params \<Rightarrow> string \<Rightarrow> agent_obs" where
  "outcome_of p e = (if readable p e = None then AgUnreadable e else AgDelivered e)"

definition drain_send :: "'w agent_params \<Rightarrow> nat option \<Rightarrow> string list \<Rightarrow> 'w agent_system \<Rightarrow> agent_obs list \<times> 'w agent_system" where
  "drain_send p closes_after events s =
     (let c = ct_client (sy_command s);
          batch = \<lparr>bt_node_id = ap_node_id p, bt_events = List.map_filter (ap_from_str p) events\<rparr>
      in case send_events (ap_to_vec p) closes_after batch c of
           (r, c1) \<Rightarrow>
             (let sent = map AgStreamed (drop (length (stream_of c)) (stream_of c1));
                  s1 = s\<lparr>sy_command := (sy_command s)\<lparr>ct_client := c1\<rparr>\<rparr>
              in case r of
                   Inr ack \<Rightarrow> if ack_success ack then (sent @ map (outcome_of p) events, s1\<lparr>sy_drain := DrainIdle\<rparr>)
                              else (sent, s1\<lparr>sy_drain := DrainRequeue events\<rparr>)
                 | Inl e \<Rightarrow> (sent, s1\<lparr>sy_drain := DrainRequeue events\<rparr>)))"

definition requeue_next :: "stmt option \<Rightarrow> timestamp \<Rightarrow> string \<Rightarrow> string list \<Rightarrow> 'w agent_system \<Rightarrow> agent_obs list \<times> 'w agent_system" where
  "requeue_next fault now e rest s =
     (case buffer_push fault now e (sy_buffer s) of
        (obs, b1) \<Rightarrow> (obs, s\<lparr>sy_buffer := b1, sy_drain := DrainRequeue rest\<rparr>))"

definition live_env :: "connect_env \<Rightarrow> cmd_env" where
  "live_env ce = \<lparr>cm_cancelled = False, cm_cancelled_in_sleep = False, cm_connect = ce\<rparr>"

definition client_free :: "'w agent_system \<Rightarrow> bool" where
  "client_free s \<longleftrightarrow> (case sy_drain s of DrainRequeue es \<Rightarrow> False | _ \<Rightarrow> True)"

fun in_hand :: "drain_pc \<Rightarrow> string list" where
  "in_hand DrainIdle = []"
| "in_hand (DrainTaken es) = es"
| "in_hand (DrainRequeue es) = es"

definition set_inbound :: "in_chan \<Rightarrow> 'w agent_system \<Rightarrow> 'w agent_system" where
  "set_inbound rx s =
     s\<lparr>sy_command := (sy_command s)\<lparr>ct_client := (ct_client (sy_command s))\<lparr>fc_inbound_rx := Some rx\<rparr>\<rparr>\<rparr>"

section \<open>Steps\<close>

text \<open>\<open>interval\<close> panics on a period of zero, which ends the task before its first tick: with a zero in the configuration there is
  no heartbeat, or no drain.\<close>

inductive agent_step :: "'w agent_params \<Rightarrow> 'w agent_system \<Rightarrow> agent_obs list \<Rightarrow> 'w agent_system \<Rightarrow> bool" for p where
  ag_produce: "sy_up s \<Longrightarrow> sy_collecting s \<Longrightarrow> length (sy_channel s) < RESULT_CHANNEL \<Longrightarrow>
    agent_step p s [] (s\<lparr>sy_channel := sy_channel s @ [r]\<rparr>)"
| ag_collect: "sy_up s \<Longrightarrow> sy_collecting s \<Longrightarrow> sy_channel s = ar_result a # rest \<Longrightarrow>
    collect_result p a rest s = (obs, s') \<Longrightarrow> agent_step p s obs s'"
| ag_collector_gone: "sy_up s \<Longrightarrow> sy_channel s = [] \<Longrightarrow> agent_step p s [] (s\<lparr>sy_collecting := False\<rparr>)"
| ag_command: "sy_up s \<Longrightarrow> client_free s \<Longrightarrow> ct_running (sy_command s) \<Longrightarrow>
    agent_step p s [] (s\<lparr>sy_command := command_task_step (ap_nft p) (ap_isolation p) (live_env ce) (sy_command s)\<rparr>)"
| ag_inbound: "fc_inbound_rx (ct_client (sy_command s)) = Some rx \<Longrightarrow> ich_open rx \<Longrightarrow>
    agent_step p s [] (set_inbound (rx\<lparr>ich_queue := ich_queue rx @ [msg]\<rparr>) s)"
| ag_inbound_closed: "fc_inbound_rx (ct_client (sy_command s)) = Some rx \<Longrightarrow>
    agent_step p s [] (set_inbound (rx\<lparr>ich_open := False\<rparr>) s)"
| ag_heartbeat: "sy_up s \<Longrightarrow> 0 < ap_heartbeat_secs p \<Longrightarrow> client_free s \<Longrightarrow>
    agent_step p s [AgHeartbeat (heartbeat_tick legal_value uuid_str rpc fault (ap_node_id p) (sy_buffer s) (ct_client (sy_command s)))] s"
| ag_drain: "sy_up s \<Longrightarrow> 0 < ap_drain_secs p \<Longrightarrow> sy_drain s = DrainIdle \<Longrightarrow> drain_take p fault s = (obs, s') \<Longrightarrow> agent_step p s obs s'"
| ag_send: "sy_up s \<Longrightarrow> sy_drain s = DrainTaken events \<Longrightarrow> drain_send p closes_after events s = (obs, s') \<Longrightarrow>
    agent_step p s obs s'"
| ag_requeue: "sy_up s \<Longrightarrow> sy_drain s = DrainRequeue (e # rest) \<Longrightarrow> requeue_next fault now e rest s = (obs, s') \<Longrightarrow>
    agent_step p s obs s'"
| ag_requeued: "sy_up s \<Longrightarrow> sy_drain s = DrainRequeue [] \<Longrightarrow> agent_step p s [] (s\<lparr>sy_drain := DrainIdle\<rparr>)"
| ag_exit: "sy_up s \<Longrightarrow>
    agent_step p s (map AgResultDropped (sy_channel s) @ map AgDropped (in_hand (sy_drain s)))
      (s\<lparr>sy_up := False, sy_channel := [], sy_drain := DrainIdle\<rparr>)"

section \<open>What a run shows\<close>

fun ag_buffered :: "agent_obs \<Rightarrow> string list" where
  "ag_buffered (AgBuffered e) = [e]"
| "ag_buffered _ = []"

fun ag_delivered :: "agent_obs \<Rightarrow> string list" where
  "ag_delivered (AgDelivered e) = [e]"
| "ag_delivered _ = []"

fun ag_lost :: "agent_obs \<Rightarrow> string list" where
  "ag_lost (AgRefused e) = [e]"
| "ag_lost (AgEvicted e) = [e]"
| "ag_lost (AgUnreadable e) = [e]"
| "ag_lost (AgDropped e) = [e]"
| "ag_lost _ = []"

definition ag_left :: "agent_obs \<Rightarrow> string list" where
  "ag_left ob = ag_delivered ob @ ag_lost ob"

fun ag_unreadable :: "agent_obs \<Rightarrow> string list" where
  "ag_unreadable (AgUnreadable e) = [e]"
| "ag_unreadable _ = []"

fun ag_streamed :: "agent_obs \<Rightarrow> proto_event list" where
  "ag_streamed (AgStreamed e) = [e]"
| "ag_streamed _ = []"

lemma buffer_push_conserves:
  assumes "buffer_inv b" "buffer_push fault now e b = (obs, b')"
  shows "payloads b @ [e] = shown ag_left obs @ payloads b' \<or> shown ag_left obs = [e] \<and> payloads b' = payloads b"
    "buffer_inv b'" "shown ag_buffered obs = []" "shown ag_delivered obs = []" "shown ag_streamed obs = []" "shown ag_unreadable obs = []"
proof -
  let ?b1 = "snd (push fault now e b)"
  have b': "b' = ?b1" using assms(2) by (auto simp: buffer_push_def Let_def split: if_splits)
  show "buffer_inv b'" unfolding b' by (rule push_inv [OF assms(1)])
  show "shown ag_buffered obs = []" "shown ag_delivered obs = []" "shown ag_streamed obs = []" "shown ag_unreadable obs = []"
    using assms(2) by (auto simp: buffer_push_def Let_def shown_map split: if_splits)
  show "payloads b @ [e] = shown ag_left obs @ payloads b' \<or> shown ag_left obs = [e] \<and> payloads b' = payloads b"
  proof (cases "eb_seq ?b1 = eb_seq b")
    case True
    have "eb_seq b < max_rowid \<Longrightarrow> eb_seq (push_ok (now, e) b) = eb_seq b + 1"
      using push_ok_rows [OF assms(1)] by simp
    then have "?b1 = b"
      using push_inserted_or_ok [of fault now e b] True push_ok_full [of b "(now, e)"] by (cases "eb_seq b < max_rowid") auto
    then show ?thesis using assms(2) True by (auto simp: buffer_push_def ag_left_def)
  next
    case False
    then have lt: "eb_seq b < max_rowid" using push_inserted_or_ok [of fault now e b] push_ok_full [of b "(now, e)"] by fastforce
    obtain k where k: "k \<le> Suc (length (eb_rows b))"
      "eb_rows ?b1 = drop k (eb_rows b @ [\<lparr>br_id = eb_seq b + 1, br_payload = e, br_created_at = now\<rparr>])"
    proof -
      let ?rows = "eb_rows b @ [\<lparr>br_id = eb_seq b + 1, br_payload = e, br_created_at = now\<rparr>]"
      have "eb_rows ?b1 = drop (min (length (eb_rows b) + 1 - buffer_cap b) (Suc (length (eb_rows b)))) ?rows \<or> eb_rows ?b1 = drop 0 ?rows"
        using push_inserted_or_ok [of fault now e b] False push_ok_rows [OF assms(1) lt, of "(now, e)"] by auto
      then show thesis using that [of "min (length (eb_rows b) + 1 - buffer_cap b) (Suc (length (eb_rows b)))"] that [of 0] by auto
    qed
    have "payloads ?b1 = drop k (payloads b @ [e])" unfolding payloads_def k(2) by (simp add: drop_map [symmetric])
    moreover have "Suc (length (eb_rows b)) - length (eb_rows ?b1) = k" using k by simp
    moreover have "shown ag_left obs = take (Suc (length (eb_rows b)) - length (eb_rows ?b1)) (payloads b @ [e])"
      using assms(2) False by (auto simp: buffer_push_def Let_def shown_map ag_left_def)
    ultimately show ?thesis unfolding b' by (metis append_take_drop_id)
  qed
qed

lemma buffer_push_bag:
  assumes "buffer_inv b" "buffer_push fault now e b = (obs, b')"
  shows "mset (payloads b) + mset [e] = mset (shown ag_left obs) + mset (payloads b')"
proof -
  have "mset (payloads b @ [e]) = mset (shown ag_left obs @ payloads b')"
    using buffer_push_conserves(1) [OF assms] by (metis append.simps mset_append union_commute)
  then show ?thesis by simp
qed

lemma map_filter_mem: "x \<in> set xs \<Longrightarrow> f x = Some y \<Longrightarrow> y \<in> set (List.map_filter f xs)"
  by (induction xs) (auto simp: map_filter_simps split: option.split)

lemma map_filter_Nil: "List.map_filter f xs = [] \<Longrightarrow> x \<in> set xs \<Longrightarrow> f x = None"
  using map_filter_mem [of x xs f] by (cases "f x") auto

lemma drain_splits:
  assumes "buffer_inv b" "drain fault (ucast (n :: u32)) b = (Inr events, b1)"
  shows "payloads b = events @ payloads b1" "buffer_inv b1"
proof -
  have "drain None (ucast n) b = (Inr events, b1)" using assms(2) by (auto simp: drain_def Let_def split: if_splits)
  then have "events = take (unat n) (payloads b)" "b1 = snd (drain_ok (unat n) b)" using drain_u32 [OF assms(1), of n] by auto
  then show "payloads b = events @ payloads b1" "buffer_inv b1"
    using eb.deq_contents [OF assms(1) u32_batch_max] drain_ok_inv [OF assms(1)] by simp_all
qed

lemma drain_refused: "drain fault n b = (Inl e, b1) \<Longrightarrow> b1 = b"
  by (auto simp: drain_def Let_def split: if_splits)

lemma drain_take_effect:
  assumes "buffer_inv (sy_buffer s)" "sy_drain s = DrainIdle" "drain_take p fault s = (obs, s')"
  shows "payloads (sy_buffer s) = shown ag_left obs @ in_hand (sy_drain s') @ payloads (sy_buffer s')" "buffer_inv (sy_buffer s')"
    "shown ag_buffered obs = []" "shown ag_delivered obs = []" "shown ag_streamed obs = []"
    "sy_channel s' = sy_channel s" "sy_command s' = sy_command s" "sy_up s' = sy_up s" "sy_collecting s' = sy_collecting s"
    "shown ag_lost obs = shown ag_unreadable obs" "\<forall>e \<in> set (shown ag_unreadable obs). readable p e = None"
  using assms drain_splits [OF assms(1)] drain_refused
  by (fastforce simp: drain_take_def shown_map ag_left_def readable_def dest: map_filter_Nil split: prod.splits sum.splits if_splits)+

lemma printable_readable:
  "printable (ap_to_vec p) (List.map_filter (ap_from_str p) es) = List.map_filter (readable p) es"
  by (induction es) (auto simp: printable_def readable_def map_filter_simps split: option.split)

lemma send_events_streams:
  assumes "send_events to_vec k batch c = (r, c1)"
  shows "\<exists>n. stream_of c1 = stream_of c @ take n (printable to_vec (bt_events batch))"
    "is_ok r \<Longrightarrow> stream_of c1 = stream_of c @ printable to_vec (bt_events batch) \<and> r = Ok \<lparr>ack_success = True, ack_error = None\<rparr>"
proof -
  have "(\<exists>n. stream_of c1 = stream_of c @ take n (printable to_vec (bt_events batch))) \<and>
    (is_ok r \<longrightarrow> stream_of c1 = stream_of c @ printable to_vec (bt_events batch) \<and> r = Ok \<lparr>ack_success = True, ack_error = None\<rparr>)"
  proof (cases "fc_outbound_tx c")
    case None
    then show ?thesis using assms by (auto simp: send_events_def stream_of_def intro: exI [of _ 0])
  next
    case (Some tx)
    obtain tx' where t: "send_loop to_vec k (bt_events batch) tx = (r, tx')" "c1 = c\<lparr>fc_outbound_tx := Some tx'\<rparr>"
      using assms Some by (auto simp: send_events_def split: prod.splits)
    then show ?thesis using send_loop_sent [OF t(1)] Some by (auto simp: stream_of_def)
  qed
  then show "\<exists>n. stream_of c1 = stream_of c @ take n (printable to_vec (bt_events batch))"
    "is_ok r \<Longrightarrow> stream_of c1 = stream_of c @ printable to_vec (bt_events batch) \<and> r = Ok \<lparr>ack_success = True, ack_error = None\<rparr>"
    by blast+
qed

lemma shown_streamed_map [simp]: "shown ag_streamed (map AgStreamed es) = es"
  by (simp add: shown_map)

lemma shown_outcomes [simp]:
  "shown ag_left (map (outcome_of p) es) = es" "shown ag_buffered (map (outcome_of p) es) = []"
  "shown ag_streamed (map (outcome_of p) es) = []"
  "shown ag_delivered (map (outcome_of p) es) = filter (\<lambda>e. readable p e \<noteq> None) es"
  "shown ag_lost (map (outcome_of p) es) = filter (\<lambda>e. readable p e = None) es"
  "shown ag_unreadable (map (outcome_of p) es) = filter (\<lambda>e. readable p e = None) es"
  by (induction es) (auto simp: outcome_of_def ag_left_def)

lemma drain_send_effect:
  assumes "sy_drain s = DrainTaken events" "drain_send p k events s = (obs, s')"
  shows "shown ag_left obs @ in_hand (sy_drain s') = events" "sy_buffer s' = sy_buffer s" "shown ag_buffered obs = []"
    "sy_channel s' = sy_channel s" "sy_up s' = sy_up s" "sy_collecting s' = sy_collecting s"
    "\<forall>e \<in> set (shown ag_delivered obs). \<exists>m. readable p e = Some m \<and> m \<in> set (shown ag_streamed obs)"
    "\<exists>n. shown ag_streamed obs = take n (List.map_filter (readable p) events)"
    "\<forall>e \<in> set (shown ag_unreadable obs). readable p e = None"
proof -
  let ?c = "ct_client (sy_command s)"
  let ?batch = "\<lparr>bt_node_id = ap_node_id p, bt_events = List.map_filter (ap_from_str p) events\<rparr>"
  obtain r c1 where r: "send_events (ap_to_vec p) k ?batch ?c = (r, c1)" by fastforce
  note st = send_events_streams [OF r]
  let ?sent = "drop (length (stream_of ?c)) (stream_of c1)"
  have ok: "is_ok r \<Longrightarrow> obs = map AgStreamed ?sent @ map (outcome_of p) events \<and> sy_drain s' = DrainIdle"
    and err: "\<not> is_ok r \<Longrightarrow> obs = map AgStreamed ?sent \<and> sy_drain s' = DrainRequeue events"
    using assms(2) r st(2) by (auto simp: drain_send_def Let_def is_ok_def split: sum.splits)
  show "sy_buffer s' = sy_buffer s" "sy_channel s' = sy_channel s" "sy_up s' = sy_up s" "sy_collecting s' = sy_collecting s"
    using assms(2) r by (auto simp: drain_send_def Let_def split: sum.splits if_splits)
  show "shown ag_left obs @ in_hand (sy_drain s') = events" "shown ag_buffered obs = []"
    using ok err by (cases "is_ok r"; simp add: shown_map [of _ AgStreamed] ag_left_def)+
  show "\<forall>e \<in> set (shown ag_unreadable obs). readable p e = None"
    using ok err by (cases "is_ok r") (simp_all add: shown_map [of _ AgStreamed])
  show "\<exists>n. shown ag_streamed obs = take n (List.map_filter (readable p) events)"
    using ok err st(1) by (cases "is_ok r") (auto simp: shown_map [of _ AgStreamed] printable_readable simp del: map_filter_simps)
  show "\<forall>e \<in> set (shown ag_delivered obs). \<exists>m. readable p e = Some m \<and> m \<in> set (shown ag_streamed obs)"
    using ok err st(2) by (cases "is_ok r") (auto simp: shown_map [of _ AgStreamed] printable_readable intro: map_filter_mem)
qed

lemma requeue_effect:
  assumes "buffer_inv (sy_buffer s)" "requeue_next fault now e rest s = (obs, s')"
  shows "mset (payloads (sy_buffer s)) + mset [e] = mset (shown ag_left obs) + mset (payloads (sy_buffer s'))"
    "buffer_inv (sy_buffer s')" "shown ag_buffered obs = []" "shown ag_delivered obs = []" "shown ag_unreadable obs = []" "sy_drain s' = DrainRequeue rest"
    "sy_channel s' = sy_channel s" "sy_command s' = sy_command s" "sy_up s' = sy_up s" "sy_collecting s' = sy_collecting s"
proof -
  obtain b1 where b1: "buffer_push fault now e (sy_buffer s) = (obs, b1)" "s' = s\<lparr>sy_buffer := b1, sy_drain := DrainRequeue rest\<rparr>"
    using assms(2) by (auto simp: requeue_next_def split: prod.splits)
  show "mset (payloads (sy_buffer s)) + mset [e] = mset (shown ag_left obs) + mset (payloads (sy_buffer s'))"
    using buffer_push_bag [OF assms(1) b1(1)] by (simp add: b1(2))
qed (use assms buffer_push_conserves in \<open>fastforce simp: requeue_next_def split: prod.splits\<close>)+

lemma collect_effect:
  assumes "buffer_inv (sy_buffer s)" "collect_result p a rest s = (obs, s')"
  shows "mset (payloads (sy_buffer s)) + mset (shown ag_buffered obs) = mset (shown ag_left obs) + mset (payloads (sy_buffer s'))"
    "buffer_inv (sy_buffer s')" "shown ag_delivered obs = []" "sy_drain s' = sy_drain s" "sy_channel s' = rest"
    "sy_command s' = sy_command s" "sy_up s' = sy_up s" "sy_collecting s' = sy_collecting s"
proof -
  have "mset (payloads (sy_buffer s)) + mset (shown ag_buffered obs) = mset (shown ag_left obs) + mset (payloads (sy_buffer s')) \<and>
    buffer_inv (sy_buffer s') \<and> shown ag_delivered obs = [] \<and> sy_drain s' = sy_drain s \<and> sy_channel s' = rest \<and>
    sy_command s' = sy_command s \<and> sy_up s' = sy_up s \<and> sy_collecting s' = sy_collecting s"
  proof (cases "encode_osquery_result (ap_to_string p) (ar_uuid a) (ar_result a)")
    case None
    then show ?thesis using assms by (auto simp: collect_result_def Let_def ag_left_def)
  next
    case (Some j)
    obtain o1 b1 where b1: "buffer_push (ar_fault a) (ar_now a) j (sy_buffer s) = (o1, b1)" by fastforce
    note c = buffer_push_conserves [OF assms(1) b1]
    have "mset (payloads (sy_buffer s)) + mset [j] = mset (shown ag_left o1) + mset (payloads b1)"
      by (rule buffer_push_bag [OF assms(1) b1])
    then show ?thesis using assms(2) Some b1 c by (auto simp: collect_result_def Let_def ag_left_def)
  qed
  then show "mset (payloads (sy_buffer s)) + mset (shown ag_buffered obs) = mset (shown ag_left obs) + mset (payloads (sy_buffer s'))"
    "buffer_inv (sy_buffer s')" "shown ag_delivered obs = []" "sy_drain s' = sy_drain s" "sy_channel s' = rest"
    "sy_command s' = sy_command s" "sy_up s' = sy_up s" "sy_collecting s' = sy_collecting s" by blast+
qed

section \<open>Invariant and conservation\<close>

definition agent_inv :: "'w agent_system \<Rightarrow> bool" where
  "agent_inv s \<longleftrightarrow> buffer_inv (sy_buffer s) \<and> length (sy_channel s) \<le> RESULT_CHANNEL \<and>
     (\<not> sy_up s \<longrightarrow> sy_channel s = [] \<and> sy_drain s = DrainIdle)"

lemma set_inbound_same:
  "sy_buffer (set_inbound rx s) = sy_buffer s" "sy_channel (set_inbound rx s) = sy_channel s"
  "sy_drain (set_inbound rx s) = sy_drain s" "sy_up (set_inbound rx s) = sy_up s"
  by (simp_all add: set_inbound_def)

lemma agent_step_inv:
  assumes "agent_inv s" "agent_step p s obs s'"
  shows "agent_inv s'"
  using assms(2)
proof cases
  case (ag_collect a rest)
  then show ?thesis using assms(1) collect_effect [OF _ ag_collect(4)] by (auto simp: agent_inv_def)
next
  case (ag_drain fault)
  then show ?thesis using assms(1) drain_take_effect [OF _ ag_drain(3,4)] by (auto simp: agent_inv_def)
next
  case (ag_send events k)
  then show ?thesis using assms(1) drain_send_effect [OF ag_send(2,3)] by (auto simp: agent_inv_def)
next
  case (ag_requeue e rest fault now)
  then show ?thesis using assms(1) requeue_effect [OF _ ag_requeue(3)] by (auto simp: agent_inv_def)
qed (use assms(1) in \<open>auto simp: agent_inv_def set_inbound_same\<close>)

text \<open>What the tasks hold: the rows of the buffer and the batch in the hands of the drain task.\<close>

definition held_events :: "'w agent_system \<Rightarrow> string list" where
  "held_events s = payloads (sy_buffer s) @ in_hand (sy_drain s)"

interpretation agent: conserving_bag "agent_step p" agent_inv ag_buffered ag_left held_events for p
proof
  fix s obs s' assume inv: "agent_inv s" and step: "agent_step p s obs s'"
  then show "agent_inv s'" by (rule agent_step_inv)
  show "mset (held_events s) + mset (shown ag_buffered obs) = mset (shown ag_left obs) + mset (held_events s')"
    using step
  proof cases
    case (ag_collect a rest)
    then show ?thesis using inv collect_effect [OF _ ag_collect(4)] by (simp add: agent_inv_def held_events_def)
  next
    case (ag_drain fault)
    then show ?thesis using inv drain_take_effect [OF _ ag_drain(3,4)] by (simp add: agent_inv_def held_events_def)
  next
    case (ag_send events k)
    have "mset (shown ag_left obs @ in_hand (sy_drain s')) = mset events" using drain_send_effect [OF ag_send(2,3)] by simp
    then show ?thesis using ag_send(2) drain_send_effect(2,3) [OF ag_send(2,3)] by (simp add: held_events_def)
  next
    case (ag_requeue e rest fault now)
    then show ?thesis using inv requeue_effect [OF _ ag_requeue(3)] by (simp add: agent_inv_def held_events_def)
  next
    case ag_exit
    then show ?thesis by (simp add: held_events_def shown_map ag_left_def)
  qed (simp_all add: held_events_def set_inbound_same ag_left_def)
qed

lemma agent_step_streams:
  assumes "agent_inv s" "agent_step p s obs s'"
  shows "(\<forall>e \<in> set (shown ag_delivered obs). \<exists>m. readable p e = Some m \<and> m \<in> set (shown ag_streamed obs)) \<and>
    (\<forall>e \<in> set (shown ag_unreadable obs). readable p e = None)"
  using assms(2)
proof cases
  case (ag_collect a rest)
  have "buffer_inv (sy_buffer s)" using assms(1) by (simp add: agent_inv_def)
  then have "shown ag_unreadable obs = []"
    using ag_collect(4) buffer_push_conserves(6) [OF \<open>buffer_inv (sy_buffer s)\<close>]
    by (auto simp: collect_result_def Let_def split: option.splits prod.splits)
  then show ?thesis using assms(1) collect_effect [OF _ ag_collect(4)] by (simp add: agent_inv_def)
next
  case (ag_drain fault)
  then show ?thesis using assms(1) drain_take_effect [OF _ ag_drain(3,4)] by (simp add: agent_inv_def)
next
  case (ag_send events k)
  then show ?thesis using drain_send_effect [OF ag_send(2,3)] by blast
next
  case (ag_requeue e rest fault now)
  then show ?thesis using assms(1) requeue_effect [OF _ ag_requeue(3)] by (simp add: agent_inv_def)
qed (simp_all add: shown_map)

lemma agent_runs_streams:
  assumes "runs (agent_step p) s tr s'" "agent_inv s"
  shows "(\<forall>e \<in> set (shown ag_delivered tr). \<exists>m. readable p e = Some m \<and> m \<in> set (shown ag_streamed tr)) \<and>
    (\<forall>e \<in> set (shown ag_unreadable tr). readable p e = None)"
  using assms
proof (induction rule: runs.induct)
  case (runs_snoc s tr s1 obs s2)
  then show ?case using agent_step_streams [OF agent.runs_inv [OF runs_snoc(1,4)] runs_snoc(2)] by fastforce
qed simp

section \<open>Properties\<close>

lemma mset_left: "mset (shown ag_left tr) = mset (shown ag_delivered tr) + mset (shown ag_lost tr)"
  by (induction tr) (simp_all add: ag_left_def)

text \<open>C6: the running agent loses no event unseen: whatever the tasks' interleaving, the statements of the
  database that fail, the connection's breaks and the server's commands, the events that were in the
  buffer and those that entered it are, each as often, delivered, in the buffer, in the drain task's
  hands, or were refused by the database, evicted by newer ones, unreadable, or dropped at the exit;
  every delivered event was put on the stream, an event counted as unreadable is text that does not parse or has
  a payload that does not print, also where the rest of its batch was sent, and the buffer's table and the
  channel keep their invariants.\<close>

theorem agent_conserves_events:
  assumes "runs (agent_step p) s tr s'" "agent_inv s"
  shows "mset (held_events s) + mset (shown ag_buffered tr) =
      mset (shown ag_delivered tr) + mset (shown ag_lost tr) + mset (held_events s') \<and>
    (\<forall>e \<in> set (shown ag_delivered tr). \<exists>m. readable p e = Some m \<and> m \<in> set (shown ag_streamed tr)) \<and>
    (\<forall>e \<in> set (shown ag_unreadable tr). readable p e = None) \<and>
    buffer_inv (sy_buffer s') \<and> length (sy_channel s') \<le> RESULT_CHANNEL"
  using agent.runs_conserves_bag [OF assms] agent_runs_streams [OF assms] agent.runs_inv [OF assms]
  by (simp add: mset_left agent_inv_def)

text \<open>The agent as \<open>main\<close> starts its tasks: the buffer as opened, the client connected with its token.\<close>

definition agent_spawn :: "event_buffer \<Rightarrow> fleet_client \<Rightarrow> 'w \<Rightarrow> 'w agent_system" where
  "agent_spawn b c w = \<lparr>sy_channel = [], sy_collecting = True, sy_buffer = b,
     sy_command = \<lparr>ct_errors = 0, ct_client = c, ct_host = w, ct_responses = [], ct_sleeps = [], ct_running = True\<rparr>,
     sy_drain = DrainIdle, sy_up = True\<rparr>"

lemma agent_spawn_inv: "buffer_inv b \<Longrightarrow> agent_inv (agent_spawn b c w)"
  by (simp add: agent_inv_def agent_spawn_def)

text \<open>The command task never stops and never forgets the token.\<close>

definition agent_live :: "'w agent_system \<Rightarrow> bool" where
  "agent_live s \<longleftrightarrow> ct_running (sy_command s) \<and> fc_token (ct_client (sy_command s)) \<noteq> None"

lemma try_receive_token: "fc_token (snd (try_receive c)) = fc_token c"
  by (simp add: try_receive_def split: option.split list.split)

lemma connect_token: "fc_token c = Some t \<Longrightarrow> fc_token (snd (connect ce (fc_token c) c)) = Some t"
  by (auto simp: connect_def Let_def split: sum.splits)

lemma command_step_live:
  assumes "ct_running ct" "fc_token (ct_client ct) \<noteq> None"
  shows "ct_running (command_task_step n m (live_env ce) ct) \<and> fc_token (ct_client (command_task_step n m (live_env ce) ct)) \<noteq> None"
proof -
  obtain r c1 where r: "try_receive (ct_client ct) = (r, c1)" by fastforce
  have "fc_token c1 = fc_token (ct_client ct)" using try_receive_token [of "ct_client ct"] r by simp
  then obtain t where t: "fc_token c1 = Some t" using assms(2) by auto
  show ?thesis
    using assms(1) r t connect_token [OF t, of ce]
    by (auto simp: command_task_step_def live_env_def Let_def split: sum.splits option.splits prod.splits)
qed

lemma send_events_token: "send_events to_vec k batch c = (r, c1) \<Longrightarrow> fc_token c1 = fc_token c"
  by (auto simp: send_events_def split: option.splits prod.splits)

lemma agent_step_live: "agent_step p s obs s' \<Longrightarrow> agent_live s \<Longrightarrow> agent_live s'"
proof (erule agent_step.cases, goal_cases)
  case (4 s ce)
  then show ?case using command_step_live by (simp add: agent_live_def)
next
  case (9 s events k obs s')
  then show ?case
    by (auto simp: agent_live_def drain_send_def Let_def dest: send_events_token split: prod.splits sum.splits if_splits)
qed (auto simp: agent_live_def set_inbound_def collect_result_def drain_take_def requeue_next_def Let_def
    split: prod.splits sum.splits option.splits if_splits)

interpretation live: step_invariant "agent_step p" agent_live for p
  by unfold_locales (rule agent_step_live)

definition stream_open :: "'w agent_system \<Rightarrow> bool" where
  "stream_open s \<longleftrightarrow> (case fc_outbound_tx (ct_client (sy_command s)) of None \<Rightarrow> False | Some tx \<Rightarrow> oc_open tx)"

text \<open>Everything but the command task and its client.\<close>

definition same_events :: "'w agent_system \<Rightarrow> 'w agent_system \<Rightarrow> bool" where
  "same_events s s' \<longleftrightarrow> sy_buffer s' = sy_buffer s \<and> sy_drain s' = sy_drain s \<and> sy_up s' = sy_up s"

lemma reconnect_step:
  assumes "sy_up s" "client_free s" "agent_live s" "is_ok (fst (try_receive (ct_client (sy_command s)))) = False"
  shows "\<exists>s'. agent_step p s [] s' \<and> stream_open s' \<and> same_events s s'"
proof -
  let ?ct = "sy_command s"
  let ?s' = "s\<lparr>sy_command := command_task_step (ap_nft p) (ap_isolation p) (live_env good_env) ?ct\<rparr>"
  obtain e c1 where r: "try_receive (ct_client ?ct) = (Inl e, c1)"
    using assms(4) by (cases "try_receive (ct_client ?ct)") (auto simp: is_ok_def split: sum.splits)
  have "fc_token c1 = fc_token (ct_client ?ct)" using try_receive_token [of "ct_client ?ct"] r by simp
  then obtain t where "fc_token c1 = Some t" using assms(3) by (auto simp: agent_live_def)
  then have "stream_open ?s'"
    using r by (simp add: stream_open_def command_task_step_def live_env_def connect_def good_env_def Let_def)
  moreover have "agent_step p s [] ?s'" using assms(1-3) by (intro ag_command) (simp_all add: agent_live_def)
  ultimately show ?thesis by (intro exI [of _ ?s']) (simp add: same_events_def)
qed

lemma drain_inbound:
  assumes "sy_up s" "client_free s" "agent_live s" "fc_inbound_rx (ct_client (sy_command s)) = Some rx" "\<not> ich_open rx"
  shows "\<exists>s'. runs (agent_step p) s [] s' \<and> stream_open s' \<and> same_events s s'"
  using assms
proof (induction "ich_queue rx" arbitrary: s rx)
  case Nil
  then show ?case
    using reconnect_step [of s p] runs_step [where step = "agent_step p"] by (fastforce simp: try_receive_def)
next
  case (Cons msg rest)
  let ?ct = "sy_command s"
  let ?s1 = "s\<lparr>sy_command := command_task_step (ap_nft p) (ap_isolation p) (live_env good_env) ?ct\<rparr>"
  have step: "agent_step p s [] ?s1" using Cons.prems by (intro ag_command) (simp_all add: agent_live_def)
  have t: "try_receive (ct_client ?ct) = (Inr (Some msg), (ct_client ?ct)\<lparr>fc_inbound_rx := Some (rx\<lparr>ich_queue := rest\<rparr>)\<rparr>)"
    by (rule try_receive_queued [OF Cons.prems(4) Cons.hyps(2) [symmetric]])
  have rx1: "fc_inbound_rx (ct_client (sy_command ?s1)) = Some (rx\<lparr>ich_queue := rest\<rparr>)"
    by (simp add: command_task_step_def live_env_def t split: prod.split)
  have "\<exists>s'. runs (agent_step p) ?s1 [] s' \<and> stream_open s' \<and> same_events ?s1 s'"
  proof (rule Cons.hyps(1) [OF _ _ _ _ rx1])
    show "agent_live ?s1" using agent_step_live [OF step] Cons.prems(3) .
  qed (use Cons.prems in \<open>simp_all add: client_free_def\<close>)
  then obtain s2 where "runs (agent_step p) ?s1 [] s2" "stream_open s2" "same_events ?s1 s2" by blast
  then show ?case
    using runs_step_then [where step = "agent_step p", OF step, of "[]" s2] by (auto simp: same_events_def)
qed

lemma can_reconnect:
  assumes "sy_up s" "client_free s" "agent_live s"
  shows "\<exists>s'. runs (agent_step p) s [] s' \<and> stream_open s' \<and> same_events s s'"
proof (cases "fc_inbound_rx (ct_client (sy_command s))")
  case None
  then show ?thesis
    using reconnect_step [OF assms, of p] runs_step [where step = "agent_step p"] by (fastforce simp: try_receive_def)
next
  case (Some rx)
  let ?s1 = "set_inbound (rx\<lparr>ich_open := False\<rparr>) s"
  have step: "agent_step p s [] ?s1" using Some by (rule ag_inbound_closed)
  have "\<exists>s'. runs (agent_step p) ?s1 [] s' \<and> stream_open s' \<and> same_events ?s1 s'"
    using assms by (intro drain_inbound [of ?s1 "rx\<lparr>ich_open := False\<rparr>"])
      (simp_all add: set_inbound_def client_free_def agent_live_def)
  then obtain s2 where "runs (agent_step p) ?s1 [] s2" "stream_open s2" "same_events ?s1 s2" by blast
  then show ?thesis
    using runs_step_then [where step = "agent_step p", OF step, of "[]" s2] by (auto simp: same_events_def set_inbound_def)
qed

lemma can_send:
  assumes "sy_up s" "stream_open s" "sy_drain s = DrainTaken events"
  shows "\<exists>obs s'. agent_step p s obs s' \<and> (\<forall>e \<in> set (shown ag_lost obs). readable p e = None) \<and> sy_drain s' = DrainIdle \<and> stream_open s' \<and>
    sy_buffer s' = sy_buffer s \<and> sy_up s'"
proof -
  let ?c = "ct_client (sy_command s)"
  let ?vs = "List.map_filter (ap_from_str p) events"
  obtain tx where tx: "fc_outbound_tx ?c = Some tx" "oc_open tx" using assms(2) by (auto simp: stream_open_def split: option.splits)
  obtain ack tx' where l: "send_loop (ap_to_vec p) None ?vs tx = (Inr ack, tx')"
    using send_loop_open [OF tx(2), of "ap_to_vec p" ?vs] by (cases "send_loop (ap_to_vec p) None ?vs tx") (auto simp: is_ok_def split: sum.splits)
  have open': "oc_open tx \<Longrightarrow> oc_open (snd (send_loop tv None vs tx))" for tv vs tx
    by (induction vs arbitrary: tx) (auto split: option.splits)
  obtain obs s' where d: "drain_send p None events s = (obs, s')" by fastforce
  have "ack_success ack" using send_loop_sent [OF l] by simp
  then have "sy_drain s' = DrainIdle" "\<forall>e \<in> set (shown ag_lost obs). readable p e = None" "stream_open s'" "sy_buffer s' = sy_buffer s" "sy_up s'"
    using d tx l open' [OF tx(2), of "ap_to_vec p" ?vs] assms(1)
    by (auto simp: drain_send_def send_events_def stream_open_def shown_map [of _ AgStreamed] Let_def)
  then show ?thesis using ag_send [OF assms(1,3) d] by blast
qed

lemma can_empty:
  assumes "0 < ap_batch p" "0 < ap_drain_secs p"
  shows "sy_up s \<Longrightarrow> agent_inv s \<Longrightarrow> stream_open s \<Longrightarrow> sy_drain s = DrainIdle \<Longrightarrow>
    \<exists>tr s'. runs (agent_step p) s tr s' \<and> sy_up s' \<and> held_events s' = [] \<and> (\<forall>e \<in> set (shown ag_lost tr). readable p e = None)"
proof (induction "length (payloads (sy_buffer s))" arbitrary: s rule: less_induct)
  case less
  let ?n = "unat (ap_batch p)"
  let ?b1 = "snd (drain_ok ?n (sy_buffer s))"
  have binv: "buffer_inv (sy_buffer s)" using less.prems(2) by (simp add: agent_inv_def)
  have n: "0 < ?n" using assms(1) by (simp add: word_less_nat_alt)
  show ?case
  proof (cases "payloads (sy_buffer s) = []")
    case True
    then show ?thesis using runs_nil less.prems by (fastforce simp: held_events_def)
  next
    case False
    let ?evs = "take ?n (payloads (sy_buffer s))"
    have evs: "?evs \<noteq> []" using False n by simp
    have d: "drain None (ucast (ap_batch p)) (sy_buffer s) = (Ok ?evs, ?b1)" by (rule drain_u32 [OF binv])
    obtain obs s1 where t: "drain_take p None s = (obs, s1)" by fastforce
    note step1 = ag_drain [OF less.prems(1) assms(2) less.prems(4) t]
    note eff = drain_take_effect [OF binv less.prems(4) t]
    have b1: "payloads (sy_buffer s1) = drop ?n (payloads (sy_buffer s))"
      using t d evs eb.deq_contents [OF binv u32_batch_max] by (auto simp: drain_take_def split: if_splits)
    have short: "length (payloads (sy_buffer s1)) < length (payloads (sy_buffer s))" using b1 False n by simp
    have lost: "\<forall>e \<in> set (shown ag_lost obs). readable p e = None" using eff by simp
    have so: "stream_open s1" using less.prems(3) eff(7) by (simp add: stream_open_def)
    obtain obs2 s2 where s2: "runs (agent_step p) s1 obs2 s2" "\<forall>e \<in> set (shown ag_lost obs2). readable p e = None" "sy_drain s2 = DrainIdle" "stream_open s2"
      "sy_buffer s2 = sy_buffer s1" "sy_up s2"
    proof (cases "sy_drain s1 = DrainIdle")
      case True
      then show ?thesis using that [OF runs_nil] so eff less.prems(1) by simp
    next
      case False
      then have dr: "sy_drain s1 = DrainTaken ?evs" using t d evs less.prems(4) by (auto simp: drain_take_def split: if_splits)
      have up: "sy_up s1" using eff less.prems(1) by simp
      obtain o2 s2 where "agent_step p s1 o2 s2" "\<forall>e \<in> set (shown ag_lost o2). readable p e = None" "sy_drain s2 = DrainIdle" "stream_open s2"
        "sy_buffer s2 = sy_buffer s1" "sy_up s2" using can_send [OF up so dr, of p] by blast
      then show ?thesis using that runs_step [where step = "agent_step p"] by blast
    qed
    have r12: "runs (agent_step p) s (obs @ obs2) s2" using runs_step_then [where step = "agent_step p", OF step1 s2(1)] .
    have "agent_inv s2" using agent.runs_inv [OF r12 less.prems(2)] .
    then obtain tr s3 where "runs (agent_step p) s2 tr s3" "sy_up s3" "held_events s3 = []" "\<forall>e \<in> set (shown ag_lost tr). readable p e = None"
      using less.hyps [of s2] short s2 by auto
    then show ?thesis using runs_trans [OF _ r12] lost s2(2) by (intro exI [of _ "(obs @ obs2) @ tr"] exI [of _ s3]) auto
  qed
qed

text \<open>The agent can always recover: whatever the tasks, the connection and the server have done since the
  start, as long as the process is up and no batch is being pushed back, there is a continuation, a
  reconnection with the stored token followed by ticks of the drain task, after which neither the buffer
  nor the drain task holds an event, and all that was not delivered on the way is text that does not
  read.\<close>

lemma can_deliver_all:
  assumes "runs (agent_step p) (agent_spawn b c w) tr s"
    and "buffer_inv b" "fc_token c = Some t" "0 < ap_batch p" "0 < ap_drain_secs p"
    and "sy_up s" "client_free s"
  shows "\<exists>tr' s'. runs (agent_step p) s tr' s' \<and> sy_up s' \<and> held_events s' = [] \<and>
    mset (held_events s) + mset (shown ag_buffered tr') = mset (shown ag_delivered tr') + mset (shown ag_lost tr') \<and>
    (\<forall>e \<in> set (shown ag_lost tr'). readable p e = None)"
proof -
  have inv: "agent_inv s" using agent.runs_inv [OF assms(1) agent_spawn_inv [OF assms(2)]] .
  have live: "agent_live s" using live.runs_inv [OF assms(1)] assms(3) by (simp add: agent_live_def agent_spawn_def)
  obtain s1 where s1: "runs (agent_step p) s [] s1" "stream_open s1" "same_events s s1"
    using can_reconnect [OF assms(6,7) live] by blast
  obtain tr2 s2 where s2: "runs (agent_step p) s1 tr2 s2" "\<forall>e \<in> set (shown ag_lost tr2). readable p e = None" "sy_drain s2 = DrainIdle" "stream_open s2" "sy_up s2"
  proof (cases "sy_drain s1")
    case DrainIdle
    then show ?thesis using that [OF runs_nil] s1 assms(6) by (simp add: same_events_def)
  next
    case (DrainTaken events)
    have "sy_up s1" using s1(3) assms(6) by (simp add: same_events_def)
    then show ?thesis
      using can_send [OF _ s1(2) DrainTaken, of p] that runs_step [where step = "agent_step p"] by blast
  next
    case (DrainRequeue events)
    then show ?thesis using s1(3) assms(7) by (auto simp: same_events_def client_free_def split: drain_pc.splits)
  qed
  have r: "runs (agent_step p) s tr2 s2" using runs_trans [OF s2(1) s1(1)] by simp
  obtain tr3 s3 where s3: "runs (agent_step p) s2 tr3 s3" "sy_up s3" "held_events s3 = []" "\<forall>e \<in> set (shown ag_lost tr3). readable p e = None"
    using can_empty [OF assms(4,5) s2(5) agent.runs_inv [OF r inv] s2(4,3)] by blast
  have r3: "runs (agent_step p) s (tr2 @ tr3) s3" using runs_trans [OF s3(1) r] .
  show ?thesis
    using agent.runs_conserves_bag [OF r3 inv] r3 s3 s2(2) by (intro exI [of _ "tr2 @ tr3"] exI [of _ s3]) (auto simp: mset_left)
qed

section \<open>An example run\<close>

definition demo_agent_params :: "bool agent_params" where
  "demo_agent_params = \<lparr>ap_to_string = print_sequence, ap_from_str = (\<lambda>s. Some (JString s)), ap_to_vec = (\<lambda>_. Some ''{}''), ap_node_id = 1,
     ap_batch = 1, ap_drain_secs = 5, ap_heartbeat_secs = 60, ap_nft = strict_nft False, ap_isolation = \<lparr>im_fleet_ip = V4 1, im_fleet_port = 1\<rparr>\<rparr>"

definition demo_client :: fleet_client where
  "demo_client = snd (connect good_env (Some ''t'') (client_new ''http://f''))"

definition demo_agent :: "bool agent_system" where
  "demo_agent = agent_spawn sample_buffer demo_client False"

text \<open>The first event is in the hands of the drain task.\<close>

definition demo_agent_taken :: "bool agent_system" where
  "demo_agent_taken = snd (drain_take demo_agent_params None demo_agent)"

lemma demo_agent_taken_state: "drain_take demo_agent_params None demo_agent = ([], demo_agent_taken)"
  "sy_drain demo_agent_taken = DrainTaken [''a'']" "payloads (sy_buffer demo_agent_taken) = [''b'']" "sy_channel demo_agent_taken = []"
proof -
  obtain b1 where d: "drain None 1 sample_buffer = (Ok [''a''], b1)" "payloads b1 = [''b'']"
    by (simp add: drain_def sample_buffer_def sql_limit_def order_by_id_def delete_ids_def payloads_def)
  show "drain_take demo_agent_params None demo_agent = ([], demo_agent_taken)"
    "sy_drain demo_agent_taken = DrainTaken [''a'']" "payloads (sy_buffer demo_agent_taken) = [''b'']" "sy_channel demo_agent_taken = []"
    using d by (simp_all add: demo_agent_taken_def drain_take_def demo_agent_params_def demo_agent_def agent_spawn_def map_filter_simps)
qed

lemma demo_agent_run: "runs (agent_step demo_agent_params) demo_agent [] demo_agent_taken"
  by (rule runs_step, rule ag_drain [OF _ _ _ demo_agent_taken_state(1)]) (simp_all add: demo_agent_def agent_spawn_def demo_agent_params_def)

theorem agent_conserves_events_witness:
  "mset (held_events demo_agent) + mset (shown ag_buffered []) =
     mset (shown ag_delivered []) + mset (shown ag_lost []) + mset (held_events demo_agent_taken) \<and>
   held_events demo_agent_taken = [''b'', ''a'']"
  using agent_conserves_events [OF demo_agent_run agent_spawn_inv [OF sample_buffer_inv, of demo_client False, folded demo_agent_def]]
    demo_agent_taken_state
  by (simp add: held_events_def)

lemma can_deliver_all_example:
  "\<exists>tr' s'. runs (agent_step demo_agent_params) demo_agent_taken tr' s' \<and> sy_up s' \<and> held_events s' = [] \<and>
     mset (held_events demo_agent_taken) + mset (shown ag_buffered tr') = mset (shown ag_delivered tr') + mset (shown ag_lost tr') \<and>
     (\<forall>e \<in> set (shown ag_lost tr'). readable demo_agent_params e = None)"
proof (rule can_deliver_all [OF demo_agent_run [unfolded demo_agent_def] sample_buffer_inv])
  show "fc_token demo_client = Some ''t''" by (simp add: demo_client_def connect_def good_env_def Let_def)
  show "0 < ap_batch demo_agent_params" "0 < ap_drain_secs demo_agent_params" by (simp_all add: demo_agent_params_def)
  show "sy_up demo_agent_taken" by (simp add: demo_agent_taken_def drain_take_def demo_agent_def agent_spawn_def split: prod.split sum.split)
  show "client_free demo_agent_taken" by (simp add: client_free_def demo_agent_taken_state)
qed

text \<open>The signal may come while a batch is in the hands of the drain task: its rows are deleted already and
  the events are gone, neither delivered nor in the buffer the next start opens.\<close>

lemma exit_loses_taken_batch:
  "\<exists>tr s'. runs (agent_step demo_agent_params) demo_agent tr s' \<and> \<not> sy_up s' \<and> ''a'' \<in> set (payloads (sy_buffer demo_agent)) \<and>
     ''a'' \<notin> set (held_events s') \<and> shown ag_delivered tr = [] \<and> shown ag_lost tr = [''a'']"
proof -
  let ?s = "demo_agent_taken\<lparr>sy_up := False, sy_channel := [], sy_drain := DrainIdle\<rparr>"
  have up: "sy_up demo_agent_taken" by (simp add: demo_agent_taken_def drain_take_def demo_agent_def agent_spawn_def split: prod.split sum.split)
  have "runs (agent_step demo_agent_params) demo_agent [AgDropped ''a''] ?s"
    using runs_snoc [where step = "agent_step demo_agent_params", OF demo_agent_run ag_exit [OF up]] demo_agent_taken_state by simp
  moreover have "''a'' \<in> set (payloads (sy_buffer demo_agent))" by (simp add: demo_agent_def agent_spawn_def sample_buffer_def payloads_def)
  moreover have "''a'' \<notin> set (held_events ?s)" by (simp add: held_events_def demo_agent_taken_state)
  ultimately show ?thesis by (intro exI [of _ "[AgDropped ''a'']"] exI [of _ ?s]) simp
qed

end
