(* ===== verification/OsqueryWire.thy ===== *)
theory OsqueryWire
  imports Osquery
begin

text \<open>
  The client of osquery's socket, \<open>agent/crates/osquery-client/src/client.rs\<close>: the parser of a query's
  response over a Thrift protocol, and the loop that reads the socket until the response is complete.

  The crate \<open>thrift\<close> is third-party: the operations of its input protocol are the argument \<open>tr\<close>, each a
  function from the state of the reader to an error's text or a value and the next state. The loops over
  fields have no bound in the code; they take fuel here, \<open>None\<close> is running out of it, and a reader that
  consumes its buffer never does.
\<close>

section \<open>The parser\<close>

datatype ttype = TStop | TStruct | TOther nat

type_synonym ('a, 'p) reader = "'p \<Rightarrow> (string, 'a \<times> 'p) result"

record 'p thrift_in =
  tr_open :: "bytes \<Rightarrow> 'p"
  tr_message_begin :: "(bool, 'p) reader"  \<comment> \<open>whether the message is an exception\<close>
  tr_application_error :: "(unit, 'p) reader"
  tr_message_end :: "(unit, 'p) reader"
  tr_struct_begin :: "(unit, 'p) reader"
  tr_struct_end :: "(unit, 'p) reader"
  tr_field_begin :: "(ttype \<times> int option, 'p) reader"
  tr_field_end :: "(unit, 'p) reader"
  tr_i32 :: "(int, 'p) reader"
  tr_string :: "(string, 'p) reader"
  tr_list_begin :: "(int, 'p) reader"  \<comment> \<open>the size\<close>
  tr_list_end :: "(unit, 'p) reader"
  tr_map_begin :: "(int, 'p) reader"  \<comment> \<open>the size\<close>
  tr_map_end :: "(unit, 'p) reader"
  tr_skip :: "ttype \<Rightarrow> (unit, 'p) reader"

type_synonym ('a, 'p) parsed = "(string, 'a \<times> 'p) result option"

definition bindp :: "('a, 'p) parsed \<Rightarrow> ('a \<Rightarrow> 'p \<Rightarrow> ('b, 'p) parsed) \<Rightarrow> ('b, 'p) parsed" where
  "bindp m k = (case m of None \<Rightarrow> None | Some (Inl e) \<Rightarrow> Some (Inl e) | Some (Inr (a, p)) \<Rightarrow> k a p)"

definition returnp :: "'a \<Rightarrow> 'p \<Rightarrow> ('a, 'p) parsed" where
  "returnp a p = Some (Inr (a, p))"

text \<open>The status: the code and the message, other fields skipped.\<close>

fun status_loop :: "'p thrift_in \<Rightarrow> nat \<Rightarrow> query_status \<Rightarrow> 'p \<Rightarrow> (query_status, 'p) parsed" where
  "status_loop tr 0 st p = None"
| "status_loop tr (Suc n) st p =
     bindp (Some (tr_field_begin tr p)) (\<lambda>field p.
       if fst field = TStop then returnp st p
       else bindp
         (if snd field = Some 1 then bindp (Some (tr_i32 tr p)) (\<lambda>i p. returnp (st\<lparr>qs_code := i\<rparr>) p)
          else if snd field = Some 2 then bindp (Some (tr_string tr p)) (\<lambda>m p. returnp (st\<lparr>qs_message := m\<rparr>) p)
          else bindp (Some (tr_skip tr (fst field) p)) (\<lambda>_ p. returnp st p))
         (\<lambda>st p. bindp (Some (tr_field_end tr p)) (\<lambda>_ p. status_loop tr n st p)))"

text \<open>A row of \<open>k\<close> columns, and \<open>k\<close> rows; a column that comes twice has its last value.\<close>

fun pairs_loop :: "'p thrift_in \<Rightarrow> nat \<Rightarrow> osquery_row \<Rightarrow> 'p \<Rightarrow> (osquery_row, 'p) parsed" where
  "pairs_loop tr 0 row p = returnp row p"
| "pairs_loop tr (Suc k) row p =
     bindp (Some (tr_string tr p)) (\<lambda>key p.
     bindp (Some (tr_string tr p)) (\<lambda>val p. pairs_loop tr k (fmupd key val row) p))"

fun rows_loop :: "'p thrift_in \<Rightarrow> nat \<Rightarrow> osquery_row list \<Rightarrow> 'p \<Rightarrow> (osquery_row list, 'p) parsed" where
  "rows_loop tr 0 rows p = returnp rows p"
| "rows_loop tr (Suc k) rows p =
     bindp (Some (tr_map_begin tr p)) (\<lambda>size p.
     bindp (pairs_loop tr (nat size) fmempty p) (\<lambda>row p.
     bindp (Some (tr_map_end tr p)) (\<lambda>_ p. rows_loop tr k (rows @ [row]) p)))"

text \<open>The response: its status and its rows.\<close>

fun response_loop :: "'p thrift_in \<Rightarrow> nat \<Rightarrow> query_response \<Rightarrow> 'p \<Rightarrow> (query_response, 'p) parsed" where
  "response_loop tr 0 resp p = None"
| "response_loop tr (Suc n) resp p =
     bindp (Some (tr_field_begin tr p)) (\<lambda>field p.
       if fst field = TStop then returnp resp p
       else bindp
         (if snd field = Some 1 then
            bindp (Some (tr_struct_begin tr p)) (\<lambda>_ p.
            bindp (status_loop tr n (qr_status resp) p) (\<lambda>st p.
            bindp (Some (tr_struct_end tr p)) (\<lambda>_ p. returnp (resp\<lparr>qr_status := st\<rparr>) p)))
          else if snd field = Some 2 then
            bindp (Some (tr_list_begin tr p)) (\<lambda>size p.
            bindp (rows_loop tr (nat size) (qr_rows resp) p) (\<lambda>rows p.
            bindp (Some (tr_list_end tr p)) (\<lambda>_ p. returnp (resp\<lparr>qr_rows := rows\<rparr>) p)))
          else bindp (Some (tr_skip tr (fst field) p)) (\<lambda>_ p. returnp resp p))
         (\<lambda>resp p. bindp (Some (tr_field_end tr p)) (\<lambda>_ p. response_loop tr n resp p)))"

fun result_loop :: "'p thrift_in \<Rightarrow> nat \<Rightarrow> query_response \<Rightarrow> 'p \<Rightarrow> (query_response, 'p) parsed" where
  "result_loop tr 0 resp p = None"
| "result_loop tr (Suc n) resp p =
     bindp (Some (tr_field_begin tr p)) (\<lambda>field p.
       if fst field = TStop then returnp resp p
       else bindp
         (if snd field = Some 0 \<and> fst field = TStruct then
            bindp (Some (tr_struct_begin tr p)) (\<lambda>_ p.
            bindp (response_loop tr n resp p) (\<lambda>resp p.
            bindp (Some (tr_struct_end tr p)) (\<lambda>_ p. returnp resp p)))
          else bindp (Some (tr_skip tr (fst field) p)) (\<lambda>_ p. returnp resp p))
         (\<lambda>resp p. bindp (Some (tr_field_end tr p)) (\<lambda>_ p. result_loop tr n resp p)))"

definition empty_response :: query_response where
  "empty_response = \<lparr>qr_status = \<lparr>qs_code = - 1, qs_message = []\<rparr>, qr_rows = []\<rparr>"

definition parse_query_response :: "'p thrift_in \<Rightarrow> nat \<Rightarrow> bytes \<Rightarrow> (query_response, 'p) parsed" where
  "parse_query_response tr fuel buf =
     bindp (Some (tr_message_begin tr (tr_open tr buf))) (\<lambda>is_exception p.
       if is_exception
       then bindp (Some (tr_application_error tr p)) (\<lambda>_ p. Some (Inl ''Thrift exception returned''))
       else
         bindp (Some (tr_struct_begin tr p)) (\<lambda>_ p.
         bindp (result_loop tr fuel empty_response p) (\<lambda>resp p.
         bindp (Some (tr_struct_end tr p)) (\<lambda>_ p.
         bindp (Some (tr_message_end tr p)) (\<lambda>_ p. returnp resp p)))))"

section \<open>The read loop\<close>

definition is_eof :: "string \<Rightarrow> bool" where
  "is_eof err \<longleftrightarrow> contains_str err ''UnexpectedEof'' \<or> contains_str err ''end of file'' \<or> contains_str err ''EOF'' \<or>
     contains_str err ''unexpected end of file''"

text \<open>The chunks the socket gives, an empty one at its end; \<open>None\<close> while it gives nothing more. The fuel is one
  more than the bytes read.\<close>

fun read_loop :: "'p thrift_in \<Rightarrow> bytes \<Rightarrow> (string, bytes) result list \<Rightarrow> (string, query_response) result option" where
  "read_loop tr buf [] = None"
| "read_loop tr buf (Inl e # reads) = Some (Inl e)"
| "read_loop tr buf (Inr temp # reads) =
     (if temp = [] then Some (Inl ''Connection closed by remote before complete response received'')
      else let buf' = buf @ temp in
           case parse_query_response tr (Suc (length buf')) buf' of
             None \<Rightarrow> None
           | Some (Inr (resp, p)) \<Rightarrow> Some (Inr resp)
           | Some (Inl e) \<Rightarrow> if is_eof e then read_loop tr buf' reads else Some (Inl e))"

text \<open>The operations of the output protocol, and those that print a query: a strict call with sequence number 1.\<close>

datatype thrift_write =
    WMessageCall string int
  | WMessageEnd
  | WStructBegin string
  | WStructEnd
  | WFieldBegin string ttype int
  | WFieldEnd
  | WFieldStop
  | WString string
  | WMapBegin ttype ttype nat
  | WMapEnd
  | WFlush

abbreviation TString :: ttype where "TString \<equiv> TOther 11"
abbreviation TMap :: ttype where "TMap \<equiv> TOther 13"

definition query_request :: "string \<Rightarrow> thrift_write list" where
  "query_request sql =
     [WMessageCall ''query'' 1, WStructBegin ''query_args'', WFieldBegin ''sql'' TString 1, WString sql, WFieldEnd,
      WFieldStop, WStructEnd, WMessageEnd, WFlush]"

text \<open>What a query meets: the output protocol, which gives the bytes printed, the connection, the write, the flush, the reads.\<close>

record query_env =
  qe_thrift :: "thrift_write list \<Rightarrow> (string, bytes) result"
  qe_connect :: "(string, unit) result"
  qe_write :: "bytes \<Rightarrow> (string, unit) result"
  qe_flush :: "(string, unit) result"
  qe_reads :: "(string, bytes) result list"

definition osquery_query :: "'p thrift_in \<Rightarrow> string \<Rightarrow> query_env \<Rightarrow> (string, query_response) result option" where
  "osquery_query tr sql env =
     (case result_bind (qe_thrift env (query_request sql)) (\<lambda>request_bytes.
           result_bind (qe_connect env) (\<lambda>_. result_bind (qe_write env request_bytes) (\<lambda>_. qe_flush env))) of
        Inl e \<Rightarrow> Some (Inl e)
      | Inr _ \<Rightarrow> read_loop tr [] (qe_reads env))"

section \<open>What a buffered reader promises\<close>

text \<open>\<open>R p q\<close>: the reader \<open>q\<close> is where \<open>p\<close> is, with more bytes behind. An operation that succeeds on \<open>p\<close> does
  the same on \<open>q\<close>; one that fails has either met the end of the buffer or fails alike.\<close>

definition extends :: "('p \<Rightarrow> 'p \<Rightarrow> bool) \<Rightarrow> ('a, 'p) reader \<Rightarrow> bool" where
  "extends R rd \<longleftrightarrow> (\<forall>p q. R p q \<longrightarrow>
     (case rd p of
        Inr (a, p') \<Rightarrow> \<exists>q'. rd q = Inr (a, q') \<and> R p' q'
      | Inl e \<Rightarrow> is_eof e \<or> rd q = Inl e))"

text \<open>No operation gives bytes back; \<open>left\<close> counts those that are left.\<close>

definition shrinks :: "('p \<Rightarrow> nat) \<Rightarrow> ('a, 'p) reader \<Rightarrow> bool" where
  "shrinks left rd \<longleftrightarrow> (\<forall>p a p'. rd p = Inr (a, p') \<longrightarrow> left p' \<le> left p)"

definition reader_laws :: "'p thrift_in \<Rightarrow> ('p \<Rightarrow> 'p \<Rightarrow> bool) \<Rightarrow> ('p \<Rightarrow> nat) \<Rightarrow> bool" where
  "reader_laws tr R left \<longleftrightarrow>
     (\<forall>b c. R (tr_open tr b) (tr_open tr (b @ c))) \<and> (\<forall>b. left (tr_open tr b) \<le> length b) \<and>
     extends R (tr_message_begin tr) \<and> extends R (tr_application_error tr) \<and> extends R (tr_message_end tr) \<and>
     extends R (tr_struct_begin tr) \<and> extends R (tr_struct_end tr) \<and> extends R (tr_field_begin tr) \<and>
     extends R (tr_field_end tr) \<and> extends R (tr_i32 tr) \<and> extends R (tr_string tr) \<and> extends R (tr_list_begin tr) \<and>
     extends R (tr_list_end tr) \<and> extends R (tr_map_begin tr) \<and> extends R (tr_map_end tr) \<and> (\<forall>ty. extends R (tr_skip tr ty)) \<and>
     shrinks left (tr_message_begin tr) \<and> shrinks left (tr_struct_begin tr) \<and> shrinks left (tr_struct_end tr) \<and>
     shrinks left (tr_field_end tr) \<and> shrinks left (tr_i32 tr) \<and> shrinks left (tr_string tr) \<and>
     shrinks left (tr_list_begin tr) \<and> shrinks left (tr_list_end tr) \<and> shrinks left (tr_map_begin tr) \<and>
     shrinks left (tr_map_end tr) \<and> shrinks left (tr_message_end tr) \<and> (\<forall>ty. shrinks left (tr_skip tr ty)) \<and>
     (\<forall>p a p'. tr_field_begin tr p = Inr (a, p') \<longrightarrow> left p' < left p)"

text \<open>The two relations on parsers, closed under sequencing.\<close>

definition extp :: "('p \<Rightarrow> 'p \<Rightarrow> bool) \<Rightarrow> ('a, 'p) parsed \<Rightarrow> ('a, 'p) parsed \<Rightarrow> bool" where
  "extp R m m' \<longleftrightarrow>
     (case m of
        None \<Rightarrow> True
      | Some (Inl e) \<Rightarrow> is_eof e \<or> m' = Some (Inl e)
      | Some (Inr (a, p)) \<Rightarrow> \<exists>q. m' = Some (Inr (a, q)) \<and> R p q)"

definition ends :: "('p \<Rightarrow> nat) \<Rightarrow> nat \<Rightarrow> ('a, 'p) parsed \<Rightarrow> bool" where
  "ends left n m \<longleftrightarrow> (case m of None \<Rightarrow> False | Some (Inl e) \<Rightarrow> True | Some (Inr (a, p)) \<Rightarrow> left p \<le> n)"

named_theorems parse_rules \<open>composition of the relations on parsers\<close>

lemma extp_simps [simp]:
  "extp R None m'" "extp R (Some (Inl e)) m' \<longleftrightarrow> is_eof e \<or> m' = Some (Inl e)"
  "extp R (Some (Inr (a, p))) m' \<longleftrightarrow> (\<exists>q. m' = Some (Inr (a, q)) \<and> R p q)"
  by (simp_all add: extp_def)

lemma ends_simps [simp]:
  "\<not> ends left n None" "ends left n (Some (Inl e))" "ends left n (Some (Inr (a, p))) \<longleftrightarrow> left p \<le> n"
  by (simp_all add: ends_def)

lemma bindp_simps [simp]:
  "bindp None k = None" "bindp (Some (Inl e)) k = Some (Inl e)" "bindp (Some (Inr (a, p))) k = k a p"
  by (simp_all add: bindp_def)

lemma extp_lift [parse_rules]: "extends R rd \<Longrightarrow> R p q \<Longrightarrow> extp R (Some (rd p)) (Some (rd q))"
  unfolding extends_def extp_def by (fastforce split: sum.splits)

lemma extp_return [parse_rules]: "R p q \<Longrightarrow> extp R (returnp a p) (returnp a q)"
  by (simp add: extp_def returnp_def)

lemma extp_error [parse_rules]: "extp R (Some (Inl e)) (Some (Inl e))"
  by (simp add: extp_def)

lemma extp_bind [parse_rules]:
  assumes "extp R m m'" and "\<And>a p q. R p q \<Longrightarrow> extp R (k a p) (k' a q)"
  shows "extp R (bindp m k) (bindp m' k')"
proof -
  consider "m = None" | e where "m = Some (Inl e)" | a p where "m = Some (Inr (a, p))"
    by (metis option.exhaust sum.exhaust surj_pair)
  then show ?thesis
    by cases (use assms in auto)
qed

lemma extp_if [parse_rules]:
  "(b \<Longrightarrow> extp R m m') \<Longrightarrow> (\<not> b \<Longrightarrow> extp R n n') \<Longrightarrow> extp R (if b then m else n) (if b then m' else n')"
  by simp

lemma ends_lift: "shrinks left rd \<Longrightarrow> left p \<le> n \<Longrightarrow> ends left n (Some (rd p))"
  unfolding shrinks_def ends_def by (fastforce split: sum.splits)

lemma ends_return: "left p \<le> n \<Longrightarrow> ends left n (returnp a p)"
  by (simp add: ends_def returnp_def)

lemma ends_bind:
  assumes "ends left n m" and "\<And>a p. left p \<le> n \<Longrightarrow> ends left n' (k a p)"
  shows "ends left n' (bindp m k)"
proof -
  consider "m = None" | e where "m = Some (Inl e)" | a p where "m = Some (Inr (a, p))"
    by (metis option.exhaust sum.exhaust surj_pair)
  then show ?thesis
    by cases (use assms in auto)
qed

lemma ends_if: "(b \<Longrightarrow> ends left n m) \<Longrightarrow> (\<not> b \<Longrightarrow> ends left n m') \<Longrightarrow> ends left n (if b then m else m')"
  by simp

lemma ends_mono: "ends left n m \<Longrightarrow> n \<le> n' \<Longrightarrow> ends left n' m"
  by (auto simp: ends_def split: option.splits sum.splits)

section \<open>The parser on a longer buffer\<close>

lemma reader_lawsD:
  assumes "reader_laws tr R left"
  shows "R (tr_open tr b) (tr_open tr (b @ c))" "left (tr_open tr b) \<le> length b"
    "extends R (tr_message_begin tr)" "extends R (tr_application_error tr)" "extends R (tr_message_end tr)"
    "extends R (tr_struct_begin tr)" "extends R (tr_struct_end tr)" "extends R (tr_field_begin tr)"
    "extends R (tr_field_end tr)" "extends R (tr_i32 tr)" "extends R (tr_string tr)" "extends R (tr_list_begin tr)"
    "extends R (tr_list_end tr)" "extends R (tr_map_begin tr)" "extends R (tr_map_end tr)" "extends R (tr_skip tr ty)"
  using assms unfolding reader_laws_def by blast+

lemma reader_laws_shrink:
  assumes "reader_laws tr R left"
  shows "shrinks left (tr_message_begin tr)" "shrinks left (tr_struct_begin tr)" "shrinks left (tr_struct_end tr)"
    "shrinks left (tr_field_end tr)" "shrinks left (tr_i32 tr)" "shrinks left (tr_string tr)" "shrinks left (tr_list_begin tr)"
    "shrinks left (tr_list_end tr)" "shrinks left (tr_map_begin tr)" "shrinks left (tr_map_end tr)" "shrinks left (tr_message_end tr)"
    "shrinks left (tr_skip tr ty)"
  using assms unfolding reader_laws_def by blast+

text \<open>After a field has begun there are fewer bytes left.\<close>

lemma field_begin_ends:
  assumes "reader_laws tr R left" and "left p \<le> m"
    and "\<And>a p'. 0 < m \<Longrightarrow> left p' \<le> m - 1 \<Longrightarrow> ends left m (k a p')"
  shows "ends left m (bindp (Some (tr_field_begin tr p)) k)"
proof (cases "tr_field_begin tr p")
  case (Inr r)
  then obtain a p' where r: "tr_field_begin tr p = Inr (a, p')" by (cases r) auto
  then have "left p' < left p" using assms(1) unfolding reader_laws_def by blast
  then show ?thesis using assms(2,3) r by simp
qed simp

lemma status_loop_ext:
  assumes "reader_laws tr R left"
  shows "R p q \<Longrightarrow> n \<le> n' \<Longrightarrow> extp R (status_loop tr n st p) (status_loop tr n' st q)"
proof (induction n arbitrary: n' st p q)
  case (Suc n)
  then obtain k where k: "n' = Suc k" "n \<le> k" by (cases n') auto
  show ?case
    using Suc.prems(1) Suc.IH [OF _ k(2)] unfolding k(1) status_loop.simps
    by (intro parse_rules reader_lawsD [OF assms])
qed (simp add: extp_def)

lemma pairs_loop_ext:
  assumes "reader_laws tr R left"
  shows "R p q \<Longrightarrow> extp R (pairs_loop tr k row p) (pairs_loop tr k row q)"
proof (induction k arbitrary: row p q)
  case (Suc k)
  then show ?case unfolding pairs_loop.simps by (intro parse_rules reader_lawsD [OF assms])
qed (simp add: extp_def returnp_def)

lemma rows_loop_ext:
  assumes "reader_laws tr R left"
  shows "R p q \<Longrightarrow> extp R (rows_loop tr k rows p) (rows_loop tr k rows q)"
proof (induction k arbitrary: rows p q)
  case (Suc k)
  then show ?case
    unfolding rows_loop.simps by (intro parse_rules reader_lawsD [OF assms] pairs_loop_ext [OF assms])
qed (simp add: extp_def returnp_def)

lemma response_loop_ext:
  assumes "reader_laws tr R left"
  shows "R p q \<Longrightarrow> n \<le> n' \<Longrightarrow> extp R (response_loop tr n resp p) (response_loop tr n' resp q)"
proof (induction n arbitrary: n' resp p q)
  case (Suc n)
  then obtain k where k: "n' = Suc k" "n \<le> k" by (cases n') auto
  show ?case
    using Suc.prems(1) Suc.IH [OF _ k(2)] unfolding k(1) response_loop.simps
    by (intro parse_rules reader_lawsD [OF assms] status_loop_ext [OF assms _ k(2)] rows_loop_ext [OF assms])
qed (simp add: extp_def)

lemma result_loop_ext:
  assumes "reader_laws tr R left"
  shows "R p q \<Longrightarrow> n \<le> n' \<Longrightarrow> extp R (result_loop tr n resp p) (result_loop tr n' resp q)"
proof (induction n arbitrary: n' resp p q)
  case (Suc n)
  then obtain k where k: "n' = Suc k" "n \<le> k" by (cases n') auto
  show ?case
    using Suc.prems(1) Suc.IH [OF _ k(2)] unfolding k(1) result_loop.simps
    by (intro parse_rules reader_lawsD [OF assms] response_loop_ext [OF assms _ k(2)])
qed (simp add: extp_def)

lemma parse_ext:
  assumes "reader_laws tr R left" and "n \<le> n'"
  shows "extp R (parse_query_response tr n b) (parse_query_response tr n' (b @ c))"
  unfolding parse_query_response_def
  by (intro parse_rules reader_lawsD [OF assms(1)] result_loop_ext [OF assms(1) _ assms(2)])

section \<open>The parser ends\<close>

text \<open>With more fuel than bytes left, each loop ends.\<close>

lemmas ends_rules = ends_bind ends_return ends_if ends_lift

lemma pairs_loop_ends:
  assumes "reader_laws tr R left"
  shows "left p \<le> m \<Longrightarrow> ends left m (pairs_loop tr k row p)"
proof (induction k arbitrary: row p)
  case (Suc k)
  then show ?case unfolding pairs_loop.simps
    by (intro ends_bind ends_lift reader_laws_shrink [OF assms]) 
qed (simp add: ends_def returnp_def)

lemma rows_loop_ends:
  assumes "reader_laws tr R left"
  shows "left p \<le> m \<Longrightarrow> ends left m (rows_loop tr k rows p)"
proof (induction k arbitrary: rows p)
  case (Suc k)
  then show ?case unfolding rows_loop.simps
    by (intro ends_bind ends_lift reader_laws_shrink [OF assms] pairs_loop_ends [OF assms])
qed (simp add: ends_def returnp_def)

lemma loop_ends:
  assumes laws: "reader_laws tr R left" and "left p \<le> m" and "m < Suc n"
    and body: "\<And>a p. left p \<le> m - 1 \<Longrightarrow> m - 1 < n \<Longrightarrow> ends left (m - 1) (body a p)"
    and rest: "\<And>b p. left p \<le> m - 1 \<Longrightarrow> m - 1 < n \<Longrightarrow> ends left (m - 1) (rest b p)"
  shows "ends left m (bindp (Some (tr_field_begin tr p)) (\<lambda>field p.
    if fst field = TStop then returnp st p
    else bindp (body field p) (\<lambda>b p. bindp (Some (tr_field_end tr p)) (\<lambda>_ p. rest b p))))"
proof (rule field_begin_ends [OF laws assms(2)])
  fix field p
  assume m: "0 < m" "left p \<le> m - 1"
  then have n: "m - 1 < n" using assms(3) by simp
  have "ends left (m - 1) (bindp (body field p) (\<lambda>b p. bindp (Some (tr_field_end tr p)) (\<lambda>_ p. rest b p)))"
    using m(2) by (intro ends_bind [OF body [OF _ n]] ends_bind [OF ends_lift [OF reader_laws_shrink(4) [OF laws]]] rest [OF _ n])
  then show "ends left m (if fst field = TStop then returnp st p
      else bindp (body field p) (\<lambda>b p. bindp (Some (tr_field_end tr p)) (\<lambda>_ p. rest b p)))"
    using m(2) by (auto simp: returnp_def intro: ends_mono)
qed

lemma status_loop_ends:
  assumes "reader_laws tr R left"
  shows "left p \<le> m \<Longrightarrow> m < n \<Longrightarrow> ends left m (status_loop tr n st p)"
proof (induction n arbitrary: m st p)
  case (Suc n)
  show ?case
    unfolding status_loop.simps
    by (rule loop_ends [OF assms Suc.prems])
      (intro ends_rules reader_laws_shrink [OF assms] Suc.IH; assumption)+
qed simp

lemma response_loop_ends:
  assumes "reader_laws tr R left"
  shows "left p \<le> m \<Longrightarrow> m < n \<Longrightarrow> ends left m (response_loop tr n resp p)"
proof (induction n arbitrary: m resp p)
  case (Suc n)
  show ?case
    unfolding response_loop.simps
    by (rule loop_ends [OF assms Suc.prems])
      (intro ends_rules reader_laws_shrink [OF assms] Suc.IH status_loop_ends [OF assms] rows_loop_ends [OF assms]; assumption)+
qed simp

lemma result_loop_ends:
  assumes "reader_laws tr R left"
  shows "left p \<le> m \<Longrightarrow> m < n \<Longrightarrow> ends left m (result_loop tr n resp p)"
proof (induction n arbitrary: m resp p)
  case (Suc n)
  show ?case
    unfolding result_loop.simps
    by (rule loop_ends [OF assms Suc.prems])
      (intro ends_rules reader_laws_shrink [OF assms] Suc.IH response_loop_ends [OF assms]; assumption)+
qed simp

lemma ends_fail: "ends left n (bindp (Some r) (\<lambda>_ _. Some (Inl e)))"
  by (cases r) (auto simp: ends_def bindp_def split: prod.splits)

lemma parse_ends:
  assumes "reader_laws tr R left" and "length b < n"
  shows "ends left (length b) (parse_query_response tr n b)"
proof -
  have "left (tr_open tr b) \<le> length b" using reader_lawsD(2) [OF assms(1)] .
  moreover have "ends left (length b) (result_loop tr n resp p)" if "left p \<le> length b" for resp p
    using result_loop_ends [OF assms(1) that assms(2)] .
  ultimately show ?thesis
    unfolding parse_query_response_def
    by (intro ends_fail ends_bind ends_if ends_return ends_lift reader_laws_shrink [OF assms(1)])
qed

section \<open>A query completes\<close>

text \<open>What the whole buffer parses to, each part of it parses to as well, unless it ends too early.\<close>

lemma parse_prefix:
  assumes "reader_laws tr R left" and "parse_query_response tr (Suc (length (b @ c))) (b @ c) = Some (Inr (r, p))"
  obtains e where "parse_query_response tr (Suc (length b)) b = Some (Inl e)" "is_eof e"
    | p' where "parse_query_response tr (Suc (length b)) b = Some (Inr (r, p'))"
proof -
  have ends: "ends left (length b) (parse_query_response tr (Suc (length b)) b)"
    using parse_ends [OF assms(1)] by simp
  have ext: "extp R (parse_query_response tr (Suc (length b)) b) (Some (Inr (r, p)))"
    using parse_ext [OF assms(1), of "Suc (length b)" "Suc (length (b @ c))" b c] assms(2) by simp
  consider e where "parse_query_response tr (Suc (length b)) b = Some (Inl e)"
    | a p' where "parse_query_response tr (Suc (length b)) b = Some (Inr (a, p'))"
    using ends unfolding ends_def by (cases "parse_query_response tr (Suc (length b)) b") (auto split: sum.splits)
  then show ?thesis
    by cases (use ext that in auto)
qed

lemma read_loop_completes:
  assumes laws: "reader_laws tr R left"
    and full: "parse_query_response tr (Suc (length (b @ concat cs))) (b @ concat cs) = Some (Inr (r, p))"
    and "[] \<notin> set cs" and "cs \<noteq> []"
  shows "read_loop tr b (map Inr cs @ rest) = Some (Inr r)"
  using assms(2-)
proof (induction cs arbitrary: b)
  case (Cons c cs)
  have full: "parse_query_response tr (Suc (length ((b @ c) @ concat cs))) ((b @ c) @ concat cs) = Some (Inr (r, p))"
    using Cons.prems(1) by simp
  have c: "c \<noteq> []" using Cons.prems(2) by auto
  show ?case
  proof (cases "cs = []")
    case True
    then show ?thesis using full c by simp
  next
    case False
    then have rest: "read_loop tr (b @ c) (map Inr cs @ rest) = Some (Inr r)"
      using Cons.IH [OF full] Cons.prems(2) by simp
    show ?thesis
      by (rule parse_prefix [OF laws full]) (use rest c in \<open>simp_all add: Let_def\<close>)
  qed
qed simp

section \<open>The other operations of the client\<close>

definition get_query_columns :: "string \<Rightarrow> (string, query_response) result" where
  "get_query_columns sql = Inr \<lparr>qr_status = \<lparr>qs_code = 0, qs_message = ''OK''\<rparr>, qr_rows = []\<rparr>"

definition ping :: "(string, unit) result" where
  "ping = Inr ()"

definition reconnect :: "(string, unit) result" where
  "reconnect = Inr ()"

definition live_query :: "'p thrift_in \<Rightarrow> string \<Rightarrow> query_env \<Rightarrow> (string, query_response) result option" where
  "live_query tr sql env = osquery_query tr sql env"

section \<open>A small reader\<close>

text \<open>A reader on which the laws hold, for the examples: a digit is a number or a size, a string has one
  character, \<open>R\<close>, \<open>S\<close>, \<open>L\<close> and \<open>c\<close> begin the fields of the response, the status, the rows and the code.\<close>

definition next_byte :: "(char \<Rightarrow> 'a) \<Rightarrow> ('a, bytes) reader" where
  "next_byte f p = (case p of [] \<Rightarrow> Inl ''end of file'' | b # bs \<Rightarrow> Inr (f b, bs))"

definition no_byte :: "(unit, bytes) reader" where
  "no_byte p = Inr ((), p)"

definition byte_field :: "char \<Rightarrow> ttype \<times> int option" where
  "byte_field b =
     (if b = CHR ''R'' then (TStruct, Some 0) else if b = CHR ''S'' then (TStruct, Some 1)
      else if b = CHR ''L'' then (TOther 15, Some 2) else if b = CHR ''c'' then (TOther 8, Some 1) else (TStop, None))"

definition byte_int :: "char \<Rightarrow> int" where
  "byte_int b = of_char b - 48"

definition byte_reader :: "bytes thrift_in" where
  "byte_reader = \<lparr>tr_open = (\<lambda>b. b), tr_message_begin = next_byte (\<lambda>b. b = CHR ''E''), tr_application_error = no_byte,
     tr_message_end = no_byte, tr_struct_begin = no_byte, tr_struct_end = no_byte, tr_field_begin = next_byte byte_field,
     tr_field_end = no_byte, tr_i32 = next_byte byte_int, tr_string = next_byte (\<lambda>b. [b]),
     tr_list_begin = next_byte byte_int, tr_list_end = no_byte, tr_map_begin = next_byte byte_int,
     tr_map_end = no_byte, tr_skip = (\<lambda>_. next_byte (\<lambda>_. ()))\<rparr>"

definition longer :: "bytes \<Rightarrow> bytes \<Rightarrow> bool" where
  "longer p q \<longleftrightarrow> (\<exists>c. q = p @ c)"

lemma is_eof_sample: "is_eof ''end of file''"
  unfolding is_eof_def by code_simp

lemma next_byte_laws [simp]: "extends longer (next_byte f)" "shrinks length (next_byte f)"
  "next_byte f p = Inr (a, p') \<Longrightarrow> length p' < length p"
  unfolding extends_def shrinks_def longer_def next_byte_def by (auto simp: is_eof_sample split: list.splits)

lemma no_byte_laws [simp]: "extends longer no_byte" "shrinks length no_byte"
  unfolding extends_def shrinks_def longer_def no_byte_def by auto

lemma byte_reader_laws: "reader_laws byte_reader longer length"
  unfolding reader_laws_def byte_reader_def by (auto simp: longer_def)

section \<open>Properties\<close>

text \<open>C17: A query of osquery completes. Let the socket give the bytes of a response that parses, in any number of
  chunks of any sizes, none empty: then the client's loop, which parses the whole buffer anew after every chunk
  and waits for more while the error names an end of file, returns that response, whatever the chunking and
  whatever would come after. The reader of the \<open>thrift\<close> crate is a parameter; it is to treat a longer buffer
  alike, to name an end of file where the bytes run out, and to consume bytes.\<close>

theorem query_completes:
  assumes "reader_laws tr R left"
    and "qe_thrift env (query_request sql) = Inr req" "qe_connect env = Inr ()" "qe_write env req = Inr ()" "qe_flush env = Inr ()"
    and "qe_reads env = map Inr chunks @ rest" and "[] \<notin> set chunks" and "chunks \<noteq> []"
    and "parse_query_response tr (Suc (length (concat chunks))) (concat chunks) = Some (Inr (resp, p))"
  shows "osquery_query tr sql env = Some (Inr resp)"
  unfolding osquery_query_def
  using read_loop_completes [OF assms(1), of "[]" chunks] assms by simp

theorem query_completes_witness:
  "osquery_query byte_reader ''select 1''
     \<lparr>qe_thrift = (\<lambda>_. Inr ''q''), qe_connect = Inr (), qe_write = (\<lambda>_. Inr ()), qe_flush = Inr (),
      qe_reads = map Inr [''mRS'', ''c7.L1'', ''1ab..'' ] @ []\<rparr>
     = Some (Inr \<lparr>qr_status = \<lparr>qs_code = 7, qs_message = []\<rparr>, qr_rows = [fmupd ''a'' ''b'' fmempty]\<rparr>)"
  by (rule query_completes [OF byte_reader_laws, where req = "''q''" and p = "[]"
        and chunks = "[''mRS'', ''c7.L1'', ''1ab..'']" and rest = "[]"])
    (simp_all add: parse_query_response_def byte_reader_def next_byte_def no_byte_def byte_field_def byte_int_def empty_response_def returnp_def)

text \<open>A peer that closes the connection ends the loop: whatever came before, the query returns.\<close>

lemma read_loop_returns:
  assumes "reader_laws tr R left"
  shows "\<exists>r. read_loop tr b (reads @ Inr [] # rest) = Some r"
proof (induction reads arbitrary: b)
  case (Cons rd reads)
  show ?case
  proof (cases rd)
    case (Inr temp)
    have "ends left (length (b @ temp)) (parse_query_response tr (Suc (length (b @ temp))) (b @ temp))"
      using parse_ends [OF assms, of "b @ temp" "Suc (length (b @ temp))"] by blast
    then show ?thesis
      using Cons.IH [of "b @ temp"] Inr by (auto simp: ends_def Let_def split: option.splits sum.splits)
  qed simp
qed simp

lemma read_loop_short:
  assumes laws: "reader_laws tr R left"
    and full: "parse_query_response tr (Suc (length (b @ concat cs @ c))) (b @ concat cs @ c) = Some (Inr (r, p))"
    and cut: "parse_query_response tr (Suc (length (b @ concat cs))) (b @ concat cs) = Some (Inl e)"
    and "[] \<notin> set cs"
  shows "read_loop tr b (map Inr cs @ Inr [] # rest) = Some (Inl ''Connection closed by remote before complete response received'')"
  using assms(2-)
proof (induction cs arbitrary: b)
  case (Cons t cs)
  have full: "parse_query_response tr (Suc (length ((b @ t) @ concat cs @ c))) ((b @ t) @ concat cs @ c) = Some (Inr (r, p))"
    and cut: "parse_query_response tr (Suc (length ((b @ t) @ concat cs))) ((b @ t) @ concat cs) = Some (Inl e)"
    using Cons.prems by simp_all
  have IH: "read_loop tr (b @ t) (map Inr cs @ Inr [] # rest) = Some (Inl ''Connection closed by remote before complete response received'')"
    using Cons.IH [OF full cut] Cons.prems by simp
  show ?case
  proof (rule parse_prefix [OF laws full])
    fix e' assume "parse_query_response tr (Suc (length (b @ t))) (b @ t) = Some (Inl e')" "is_eof e'"
    then show ?thesis using IH Cons.prems(3) by (auto simp: Let_def)
  next
    fix p' assume "parse_query_response tr (Suc (length (b @ t))) (b @ t) = Some (Inr (r, p'))"
    then show ?thesis
      using parse_ext [OF laws, of "Suc (length (b @ t))" "Suc (length ((b @ t) @ concat cs))" "b @ t" "concat cs"] cut by simp
  qed
qed simp

text \<open>C24: No query hangs on data. On a reader that consumes its buffer, the parser of a response ends on every
  buffer, with fuel for one field per byte; a query whose peer closes the connection returns, a response or
  an error, whatever the peer sent before; and a response that is cut short, in any chunks, is reported as a
  closed connection and never as rows.\<close>

theorem query_terminates:
  assumes "reader_laws tr R left"
    and "parse_query_response tr (Suc (length (concat chunks @ c))) (concat chunks @ c) = Some (Inr (resp, p))"
    and "parse_query_response tr (Suc (length (concat chunks))) (concat chunks) = Some (Inl e)" and "[] \<notin> set chunks"
  shows "parse_query_response tr (Suc (length buf)) buf \<noteq> None
    \<and> (\<exists>r. osquery_query tr sql (env\<lparr>qe_reads := reads @ Inr [] # rest\<rparr>) = Some r)
    \<and> read_loop tr [] (map Inr chunks @ [Inr []]) = Some (Inl ''Connection closed by remote before complete response received'')"
proof (intro conjI)
  show "parse_query_response tr (Suc (length buf)) buf \<noteq> None"
    using parse_ends [OF assms(1), of buf "Suc (length buf)"] by (metis ends_simps(1) lessI)
  show "\<exists>r. osquery_query tr sql (env\<lparr>qe_reads := reads @ Inr [] # rest\<rparr>) = Some r"
    using read_loop_returns [OF assms(1)] by (auto simp: osquery_query_def split: sum.splits)
  show "read_loop tr [] (map Inr chunks @ [Inr []]) = Some (Inl ''Connection closed by remote before complete response received'')"
    using read_loop_short [OF assms(1), of "[]" chunks] assms by simp
qed

theorem query_terminates_witness:
  "(\<exists>r. osquery_query byte_reader ''select 1''
     \<lparr>qe_thrift = (\<lambda>_. Inr ''q''), qe_connect = Inr (), qe_write = (\<lambda>_. Inr ()), qe_flush = Inr (), qe_reads = [Inr ''xyz''] @ Inr [] # []\<rparr> = Some r)
   \<and> read_loop byte_reader [] (map Inr [''mRS'', ''c7.L1'', ''1a''] @ [Inr []])
     = Some (Inl ''Connection closed by remote before complete response received'')"
  using query_terminates [OF byte_reader_laws, where chunks = "[''mRS'', ''c7.L1'', ''1a'']" and c = "''b..''" and p = "[]"
      and resp = "\<lparr>qr_status = \<lparr>qs_code = 7, qs_message = []\<rparr>, qr_rows = [fmupd ''a'' ''b'' fmempty]\<rparr>" and e = "''end of file''"
      and reads = "[Inr ''xyz'']" and rest = "[]"
      and env = "\<lparr>qe_thrift = (\<lambda>_. Inr ''q''), qe_connect = Inr (), qe_write = (\<lambda>_. Inr ()), qe_flush = Inr (), qe_reads = []\<rparr>"]
  by (simp add: parse_query_response_def byte_reader_def next_byte_def no_byte_def byte_field_def byte_int_def empty_response_def returnp_def)

end
