(* ===== verification/Orchestrator.thy ===== *)
theory Orchestrator
  imports AgentCore OsqueryWire
begin

text \<open>
  The agent's parts put together on the host: the collector of \<open>osquery-client/src/lib.rs\<close> over the
  scheduler and the client of osquery's socket, the log format of \<open>agent-tracing/src/lib.rs\<close>, and the
  loop of \<open>agent-core/src/orchestrator.rs\<close>, which starts the collector, tries to enroll, and buffers
  the results until it is told to stop.
\<close>

section \<open>The collector\<close>

text \<open>\<open>start\<close> opens the schedule, seeding it when empty, and spawns the tasks; a schedule that cannot be
  opened is logged and nothing runs. The tasks that do run send to the channel the receiver of which it
  returns.\<close>

definition collector_start :: "bool list \<Rightarrow> timestamp \<Rightarrow> schedule \<Rightarrow> (scheduled_query \<times> query_task option) list \<times> schedule" where
  "collector_start faults now t =
     (case scheduler_new faults now t of
        (Inl e, t') \<Rightarrow> ([], t')
      | (Inr _, t') \<Rightarrow> (scheduler_run t', t'))"

definition collector_live_query :: "'p thrift_in \<Rightarrow> string \<Rightarrow> query_env \<Rightarrow> (string, query_response) result option" where
  "collector_live_query tr sql env = live_query tr sql env"

text \<open>A tick of a query's task with its query to the socket; \<open>None\<close> while the answer is not complete.\<close>

definition query_tick :: "'p thrift_in \<Rightarrow> (osquery_row list \<Rightarrow> osquery_row list)
    \<Rightarrow> ((string \<times> string) list \<Rightarrow> (string \<times> string) list) \<Rightarrow> scheduled_query \<Rightarrow> string \<Rightarrow> query_env
    \<Rightarrow> int option \<Rightarrow> bool \<times> bool \<Rightarrow> query_task \<Rightarrow> (query_task \<times> osquery_result list) option" where
  "query_tick tr perm cperm q agent_uuid socket now is_open st =
     map_option (\<lambda>response. task_tick perm cperm q agent_uuid
         \<lparr>te_response = response, te_now = now, te_open = is_open\<rparr> st)
       (osquery_query tr (sq_query q) socket)"

section \<open>The orchestrator\<close>

datatype agent_log_format = LogHuman | LogJson

text \<open>\<open>tracing_subscriber\<close>: the filter of \<open>RUST_LOG\<close>, where it is set and parses, the lenient parser of directives, and
  whether the process has a subscriber already, on which \<open>init\<close> panics.\<close>

record 'f subscriber_env =
  sb_default_env :: "'f option"
  sb_filter :: "string \<Rightarrow> 'f"
  sb_installed :: bool

definition agent_tracing_init :: "'f subscriber_env \<Rightarrow> string \<Rightarrow> agent_log_format \<Rightarrow> (string, 'f \<times> agent_log_format) result" where
  "agent_tracing_init w log_level format =
     (let filter = unwrap_or (sb_filter w log_level) (sb_default_env w) in
      if sb_installed w then Err ''Unable to install global subscriber'' else Ok (filter, format))"

definition orchestrator_format :: "string \<Rightarrow> agent_log_format" where
  "orchestrator_format s = (if s = ''json'' then LogJson else LogHuman)"

datatype orch_error =
    ConfigRead string string
  | ConfigParse string
  | TracingInit string
  | BufferOpen buffer_error

text \<open>What the select of the loop sees: a result, or the shutdown signal. A closed result channel disables
  the first branch, so that the loop only waits for the signal.\<close>

datatype orch_input = OrchResult arrival | OrchShutdown

definition orch_buffer :: "(json \<Rightarrow> string option) \<Rightarrow> event_buffer \<Rightarrow> arrival \<Rightarrow> event_buffer" where
  "orch_buffer to_string b a =
     snd (push (ar_fault a) (ar_now a) (encode_result to_string (ar_uuid a) (ar_result a)) b)"

fun orch_loop :: "(json \<Rightarrow> string option) \<Rightarrow> orch_input list \<Rightarrow> event_buffer \<Rightarrow> event_buffer \<times> bool" where
  "orch_loop to_string [] b = (b, False)"
| "orch_loop to_string (OrchResult a # is) b = orch_loop to_string is (orch_buffer to_string b a)"
| "orch_loop to_string (OrchShutdown # is) b = (b, True)"

text \<open>What the host gives: the environment variable, the files, the machine's identity, the answers of SQLite
  and of the logging set-up, the answer to the registration, \<open>None\<close> when it does not come within five
  seconds, and the inputs of the loop. \<open>toml\<close>, \<open>to_string\<close> and the registration are third-party code.\<close>

record 'f orch_env =
  oe_config_var :: "string option"
  oe_read_file :: "string \<Rightarrow> (string, string) result"
  oe_toml :: "string \<Rightarrow> (string, agent_config) result"
  oe_tracing :: "'f subscriber_env"
  oe_buffer_fault :: "stmt option"
  oe_stored :: "(buffer_row list \<times> int) option"
  oe_seed_faults :: "bool list"
  oe_now :: timestamp
  oe_hostname :: "string option"
  oe_os_release :: "string option option"
  oe_machine_ids :: "string option \<times> string option"
  oe_version :: string
  oe_in_time :: bool
  oe_register :: "metadata \<Rightarrow> register_request \<Rightarrow> (grpc_status, register_response) result"
  oe_to_string :: "json \<Rightarrow> string option"
  oe_inputs :: "orch_input list"

record 'f orch_state =
  ox_logging :: "'f \<times> agent_log_format"
  ox_agent_uuid :: string
  ox_tasks :: "(scheduled_query \<times> query_task option) list"
  ox_enrollment :: "(client_error, register_response) result option"
  ox_buffer :: event_buffer
  ox_stopped :: bool

definition orch_request :: "'f orch_env \<Rightarrow> register_request" where
  "orch_request env =
     \<lparr>rq_hostname = hostname_or_default (oe_hostname env), rq_os_version = get_os_version (oe_os_release env),
      rq_agent_version = oe_version env,
      rq_machine_id = read_machine_id (fst (oe_machine_ids env)) (snd (oe_machine_ids env))\<rparr>"

definition orchestrator_run :: "(string \<Rightarrow> bool) \<Rightarrow> (string \<Rightarrow> uuid option) \<Rightarrow> (uuid \<Rightarrow> string) \<Rightarrow> 'f orch_env \<Rightarrow> schedule
    \<Rightarrow> (orch_error, 'f orch_state) result" where
  "orchestrator_run legal_value uuid_parse uuid_str env t =
     (let config_path = unwrap_or ''agent.toml'' (oe_config_var env) in
      case oe_read_file env config_path of
        Inl e \<Rightarrow> Err (ConfigRead config_path e)
      | Inr config_str \<Rightarrow>
      (case oe_toml env config_str of
        Inl e \<Rightarrow> Err (ConfigParse e)
      | Inr config \<Rightarrow>
      (case agent_tracing_init (oe_tracing env) (as_log_level (ac_agent config)) (orchestrator_format (as_log_format (ac_agent config))) of
        Inl e \<Rightarrow> Err (TracingInit e)
      | Inr logging \<Rightarrow>
      (case new (oe_buffer_fault env) (oe_stored env) (as_event_buffer_max (ac_agent config)) of
        Inl e \<Rightarrow> Err (BufferOpen e)
      | Inr buffer \<Rightarrow>
          let agent_uuid = (case as_node_id (ac_agent config) of Some u \<Rightarrow> uuid_str u | None \<Rightarrow> ''unregistered'');
              (tasks, t') = collector_start (oe_seed_faults env) (oe_now env) t;
              fleet_client = client_new (fs_endpoint (ac_fleet config));
              enrollment = (if oe_in_time env
                then Some (fst (enroll legal_value uuid_parse (oe_register env) (orch_request env) fleet_client)) else None);
              (buffer', stopped) = orch_loop (oe_to_string env) (oe_inputs env) buffer
          in Ok \<lparr>ox_logging = logging, ox_agent_uuid = agent_uuid,
                 ox_tasks = tasks, ox_enrollment = enrollment, ox_buffer = buffer', ox_stopped = stopped\<rparr>))))"

section \<open>Lemmas\<close>

lemma collector_start_fresh:
  "collector_start faults now [] = (if True \<in> set (take 3 faults) then ([], snd (seed faults now default_queries []))
     else (map (\<lambda>(n, q, i, s). (\<lparr>sq_name = n, sq_query = q, sq_interval_secs = word_of_int i, sq_snapshot = (s \<noteq> 0)\<rparr>, Some task_init))
       default_queries, snd (seed faults now default_queries [])))"
  by (cases faults; cases "tl faults"; cases "tl (tl faults)")
    (auto simp: collector_start_def scheduler_new_def default_queries_def scheduler_run_def read_schedule_row_def)

text \<open>The loop buffers what it receives before the signal, and only that.\<close>

lemma orch_loop_received:
  "orch_loop to_string (map OrchResult as @ is) b = orch_loop to_string is (foldl (orch_buffer to_string) b as)"
  by (induction as arbitrary: b) simp_all

definition orch_text :: "(json \<Rightarrow> string option) \<Rightarrow> arrival \<Rightarrow> string" where
  "orch_text to_string a = encode_result to_string (ar_uuid a) (ar_result a)"

lemma orch_buffers_enq_all:
  assumes "list_all (\<lambda>a. ar_fault a = None) as"
  shows "foldl (orch_buffer to_string) b as = eb.enq_all (map (\<lambda>a. (ar_now a, orch_text to_string a)) as) b"
  using assms
  by (induction as arbitrary: b) (auto simp: eb.enq_all_def orch_buffer_def orch_text_def push_ok_def)

lemma enroll_unconnected: "fst (enroll legal_value uuid_parse rpc req (client_new e)) = Err NotConnected"
  by (simp add: enroll_def enroll_with_secret_def client_new_def)

section \<open>Properties\<close>

text \<open>C26: What osquery answers on its socket reaches the buffer. Let the socket take the query and give the bytes of a response with
  status zero, in any chunks, and let the receiver of the task's results hold the table of its last answer: the tick emits results
  that, replayed on that table, give the rows of the response, also where the query is differential and only the difference is
  emitted, and a snapshot query or a first run emits one result whose rows are those of the response, in order; each names the query and the
  agent; and once the core's task has received them, the last events of the buffer are their encodings, in order.\<close>

theorem socket_rows_reach_buffer:
  assumes "reader_laws tr R left"
    and "qe_thrift socket (query_request (sq_query q)) = Inr req" "qe_connect socket = Inr ()" "qe_write socket req = Inr ()" "qe_flush socket = Inr ()"
    and "qe_reads socket = map Inr chunks @ rest" and "[] \<notin> set chunks" and "chunks \<noteq> []"
    and "parse_query_response tr (Suc (length (concat chunks))) (concat chunks) = Some (Inr (resp, p))"
    and "qs_code (qr_status resp) = 0" and "task_sync q st T" and "reorders perm" and "reorders cperm"
    and "buffer_inv b" and "length (payloads b) \<le> buffer_cap b" and "2 \<le> ids_left b" and "2 \<le> buffer_cap b"
    and "\<forall>res. encode_osquery_result to_string (ids res) res = Some (enc res)"
  shows "\<exists>st' rs kept. query_tick tr perm cperm q u socket now (True, True) st = Some (st', rs)
    \<and> replay T rs = set (qr_rows resp) \<and> task_sync q st' (set (qr_rows resp))
    \<and> (sq_snapshot q \<or> qt_first_run st \<longrightarrow> map result_table rs = [qr_rows resp])
    \<and> (\<forall>res \<in> set rs. or_query_name res = sq_name q \<and> or_agent_uuid res = u)
    \<and> payloads (fst (osquery_task to_string
        (map (\<lambda>res. RecvResult \<lparr>ar_result = res, ar_uuid = ids res, ar_now = at, ar_fault = None\<rparr>) rs) b)) = kept @ map enc rs"
proof -
  let ?env = "\<lparr>te_response = Inr resp, te_now = now, te_open = (True, True)\<rparr>"
  let ?arr = "\<lambda>res. \<lparr>ar_result = res, ar_uuid = ids res, ar_now = at, ar_fault = None\<rparr>"
  have "osquery_query tr (sq_query q) socket = Some (Inr resp)"
    unfolding osquery_query_def using read_loop_completes [OF assms(1), of "[]" chunks] assms by simp
  then have tick: "query_tick tr perm cperm q u socket now (True, True) st = Some (task_tick perm cperm q u ?env st)"
    by (simp add: query_tick_def)
  obtain st' rs where t: "task_tick perm cperm q u ?env st = (st', rs)" by fastforce
  have good: "good_response ?env = Some (qr_rows resp)" using assms(10) by (simp add: good_response_def)
  have sync: "replay T rs = set (qr_rows resp)" "task_sync q st' (set (qr_rows resp))"
    using task_tick_sync [OF assms(12,13) _ assms(11) t] good by auto
  have shape: "length rs \<le> 2" "\<forall>res \<in> set rs. or_query_name res = sq_name q \<and> or_agent_uuid res = u"
    using t assms(10) by (auto simp: task_tick_def build_result_def Let_def split: if_splits prod.splits)
  have table: "map result_table rs = [qr_rows resp]" if "sq_snapshot q \<or> qt_first_run st"
    using t assms(10) that by (auto simp: task_tick_def Let_def result_table_build [OF assms(13)] split: if_splits prod.splits)
  have clean: "\<forall>a \<in> set (map ?arr rs). clean_arrival to_string a" using assms(18) by (auto simp: clean_arrival_def)
  have text_of: "arrival_text to_string (?arr res) = enc res" for res using assms(18) by (simp add: arrival_text_def)
  have "fst (osquery_task to_string (map (\<lambda>res. RecvResult (?arr res)) rs) b) = eb.enq_all (map (\<lambda>res. (at, enc res)) rs) b"
    using osquery_task_received [of to_string "map ?arr rs" "[]" b] buffer_arrivals_enq_all [OF clean] by (simp add: text_of comp_def)
  moreover have "payloads (eb.enq_all (map (\<lambda>res. (at, enc res)) rs) b) =
      drop (length (payloads b) + length rs - buffer_cap b) (payloads b @ map enc rs)"
    using eb.enq_all_contents_drop [OF assms(14), of "map (\<lambda>res. (at, enc res)) rs"] assms(15,16) shape(1)
    by (simp add: comp_def del: drop_append)
  moreover have "drop (length (payloads b) + length rs - buffer_cap b) (payloads b @ map enc rs) =
      drop (length (payloads b) + length rs - buffer_cap b) (payloads b) @ map enc rs"
    using shape(1) assms(17) by simp
  ultimately show ?thesis using tick t sync shape(2) table by auto
qed

definition sample_socket :: query_env where
  "sample_socket = \<lparr>qe_thrift = (\<lambda>_. Inr ''q''), qe_connect = Inr (), qe_write = (\<lambda>_. Inr ()), qe_flush = Inr (),
     qe_reads = map Inr [''mRS'', ''c0.L1'', ''1ab..'']\<rparr>"

definition sample_watch :: scheduled_query where
  "sample_watch = \<lparr>sq_name = ''users'', sq_query = ''SELECT 1'', sq_interval_secs = 30, sq_snapshot = False\<rparr>"

definition sample_task :: query_task where
  "sample_task = task_init\<lparr>qt_first_run := False, qt_previous_rows := [fmupd ''c'' ''d'' fmempty]\<rparr>"

theorem socket_rows_reach_buffer_witness:
  "\<exists>st' rs kept. query_tick byte_reader (\<lambda>x. x) (\<lambda>x. x) sample_watch ''n1'' sample_socket (Some 5) (True, True) sample_task = Some (st', rs)
    \<and> replay {fmupd ''c'' ''d'' fmempty} rs = {fmupd ''a'' ''b'' fmempty}
    \<and> payloads (fst (osquery_task print_sequence
        (map (\<lambda>res. RecvResult \<lparr>ar_result = res, ar_uuid = ''x'', ar_now = 9, ar_fault = None\<rparr>) rs) sample_buffer)) = kept @ map (\<lambda>_. ''x'') rs"
proof -
  have resp: "parse_query_response byte_reader (Suc (length (concat [''mRS'', ''c0.L1'', ''1ab..'']))) (concat [''mRS'', ''c0.L1'', ''1ab..''])
      = Some (Inr (\<lparr>qr_status = \<lparr>qs_code = 0, qs_message = []\<rparr>, qr_rows = [fmupd ''a'' ''b'' fmempty]\<rparr>, []))"
    by (simp add: parse_query_response_def byte_reader_def next_byte_def no_byte_def byte_field_def byte_int_def empty_response_def returnp_def)
  have enc: "\<forall>res. encode_osquery_result print_sequence ''x'' res = Some ''x''"
    by (simp add: encode_osquery_result_def print_sequence_def agent_event_json_def osquery_event_def jindex_def jget_def)
  have "task_sync sample_watch sample_task {fmupd ''c'' ''d'' fmempty}" by (simp add: task_sync_def sample_task_def)
  then show ?thesis
    using socket_rows_reach_buffer [OF byte_reader_laws _ _ _ _ _ _ _ resp, where socket = sample_socket and req = "''q''"
        and rest = "[]" and q = sample_watch and st = sample_task and T = "{fmupd ''c'' ''d'' fmempty}" and cperm = "\<lambda>x. x"
        and b = sample_buffer and u = "''n1''" and now = "Some 5" and perm = "\<lambda>x. x"
        and to_string = print_sequence and ids = "\<lambda>_. ''x''" and enc = "\<lambda>_. ''x''" and at = 9] sample_buffer_inv enc
    by (simp del: osquery_task.simps add: sample_socket_def reorders_def ids_left_def buffer_cap_def sample_buffer_def max_rowid_def payloads_def)
      blast
qed

text \<open>The orchestrator's loop. Once its configuration, its logging and its buffer are up, \<open>run\<close> succeeds whatever
  else fails: the results it receives before the shutdown signal are in the buffer in order, behind what the
  buffer had stored and up to its capacity, and what was still in the channel at the signal is not. Its
  enrollment never succeeds, as its client is never connected, so that an unregistered agent stays so.\<close>

lemma orchestrator_runs_offline:
  assumes "oe_read_file env (unwrap_or ''agent.toml'' (oe_config_var env)) = Inr config_text"
    and "oe_toml env config_text = Inr config" and "\<not> sb_installed (oe_tracing env)"
    and "new (oe_buffer_fault env) (oe_stored env) (as_event_buffer_max (ac_agent config)) = Inr b"
    and "oe_inputs env = map OrchResult as @ OrchShutdown # rest" and "list_all (\<lambda>a. ar_fault a = None) as"
    and "buffer_inv b" and "length (payloads b) \<le> buffer_cap b" and "length as \<le> ids_left b"
  shows "\<exists>s. orchestrator_run legal_value uuid_parse uuid_str env t = Ok s \<and> ox_stopped s
    \<and> payloads (ox_buffer s) = drop (length (payloads b) + length as - buffer_cap b)
        (payloads b @ map (orch_text (oe_to_string env)) as)
    \<and> ox_enrollment s = (if oe_in_time env then Some (Err NotConnected) else None)
    \<and> ox_agent_uuid s = (case as_node_id (ac_agent config) of Some u \<Rightarrow> uuid_str u | None \<Rightarrow> ''unregistered'')"
proof -
  have "payloads (foldl (orch_buffer (oe_to_string env)) b as) =
      drop (length (payloads b) + length as - buffer_cap b) (payloads b @ map (orch_text (oe_to_string env)) as)"
    using eb.enq_all_contents_drop [OF assms(7), of "map (\<lambda>a. (ar_now a, orch_text (oe_to_string env) a)) as"] assms(8,9)
    by (simp add: orch_buffers_enq_all [OF assms(6)] comp_def del: drop_append)
  then show ?thesis
    using assms(1-5) by (simp add: orchestrator_run_def Let_def case_prod_beta orch_loop_received enroll_unconnected agent_tracing_init_def del: drop_append)
qed

definition sample_agent_config :: agent_config where
  "sample_agent_config =
     \<lparr>ac_agent = \<lparr>as_node_id = None, as_name = ''a'', as_log_level = ''info'', as_log_format = ''json'', as_log_dir = ''/l'',
        as_data_dir = ''/d'', as_event_buffer_db = ''/d/e.db'', as_event_buffer_max = 100, as_event_drain_batch = 10,
        as_event_drain_interval_secs = 5, as_server = \<lparr>ass_bind_addr = ''127.0.0.1'', ass_port = 9000\<rparr>\<rparr>,
      ac_osquery = \<lparr>oqs_socket_path = ''/s'', oqs_conf_path = ''/c'', oqs_flags_path = ''/f'', oqs_pid_file = ''/p'',
        oqs_log_path = ''/l'', oqs_connect_timeout_secs = 5, oqs_query_timeout_secs = 5\<rparr>,
      ac_fleet = \<lparr>fs_host = ''h'', fs_port = 1, fs_endpoint = ''http://h:1'', fs_enrollment_secret = [], fs_tls_ca_cert = [],
        fs_tls_client_cert = None, fs_tls_client_key = None, fs_heartbeat_interval_secs = 30,
        fs_reconnect_interval_secs = 5, fs_max_reconnect_attempts = 3\<rparr>,
      ac_isolation = \<lparr>is_enabled = True, is_fleet_ip = ''1.2.3.4'', is_fleet_port = 1\<rparr>\<rparr>"

definition sample_orch_env :: "string orch_env" where
  "sample_orch_env =
     \<lparr>oe_config_var = None, oe_read_file = (\<lambda>_. Inr ''toml''), oe_toml = (\<lambda>_. Inr sample_agent_config), oe_tracing = \<lparr>sb_default_env = None, sb_filter = (\<lambda>s. s), sb_installed = False\<rparr>,
      oe_buffer_fault = None, oe_stored = None, oe_seed_faults = [], oe_now = 1, oe_hostname = None, oe_os_release = None,
      oe_machine_ids = (None, None), oe_version = ''0.1.0'', oe_in_time = True,
      oe_register = (\<lambda>_ _. Inl \<lparr>gs_code = Internal, gs_message = []\<rparr>), oe_to_string = print_sequence,
      oe_inputs = map OrchResult [sample_arrival ''x''] @ OrchShutdown # [OrchResult (sample_arrival ''y'')]\<rparr>"

lemma orchestrator_runs_offline_witness:
  "\<exists>s. orchestrator_run (\<lambda>_. True) (\<lambda>_. None) (\<lambda>_. []) sample_orch_env [] = Ok s
     \<and> payloads (ox_buffer s) = [''x''] \<and> ox_enrollment s = Some (Err NotConnected) \<and> ox_agent_uuid s = ''unregistered''"
proof -
  let ?b = "\<lparr>eb_rows = [], eb_seq = 0, eb_max_events = 100\<rparr> :: event_buffer"
  have b: "buffer_inv ?b" "payloads ?b = []" "buffer_cap ?b = 100" "ids_left ?b = nat max_rowid"
    by (simp_all add: buffer_inv_def payloads_def buffer_cap_def ids_left_def max_rowid_def)
  have "orch_text print_sequence (sample_arrival ''x'') = ''x''"
    by (simp add: orch_text_def sample_arrival_def encode_result_def osquery_event_def print_sequence_def agent_event_json_def
        jindex_def jget_def)
  moreover have "new None None (as_event_buffer_max (ac_agent sample_agent_config)) = Inr ?b" "as_node_id (ac_agent sample_agent_config) = None"
    by (simp_all add: new_def sample_agent_config_def)
  ultimately show ?thesis
    using orchestrator_runs_offline [of sample_orch_env "''toml''" sample_agent_config ?b
        "[sample_arrival ''x'']" "[OrchResult (sample_arrival ''y'')]" "\<lambda>_. True" "\<lambda>_. None" "\<lambda>_. []" "[]"] b
    by (simp add: sample_orch_env_def sample_arrival_def max_rowid_def) blast
qed

end
