(* ===== verification/Quarantine.thy ===== *)
theory Quarantine
  imports Isolation
begin

text \<open>
  What the isolation ruleset does to packets. \<open>nft\<close> is not part of the repository; what its manual says of the part of its language
  that the ruleset uses is written down here: a text declares a table with base chains, a base chain sees the packets of its hook,
  its rules are tried in order, a rule whose matches all hold accepts, and a packet that no rule accepts gets the policy of the chain.
  Loading a text into a table that is there adds its rules to the chains of the same names. \<open>nft_laws\<close> is what the theorems need of
  a run of the program: a text is loaded as a whole or not at all, as the manual promises of \<open>-f\<close>; a run that ends with success has
  done so, one that is refused or never started has not, and of one that broke off on our side it is not known.
\<close>

section \<open>Packets\<close>

datatype hook = Input | Output | Forward

datatype ct_state = New | Established | Related | Invalid | Untracked

record packet =
  pk_hook :: hook
  pk_ct :: ct_state
  pk_iif :: string
  pk_oif :: string
  pk_saddr :: ip_addr
  pk_daddr :: ip_addr
  pk_tcp :: "(u16 \<times> u16) option"  \<comment> \<open>source and destination port of a TCP segment\<close>

section \<open>Rulesets\<close>

datatype nft_match =
    CtState "string list"
  | Iif string
  | Oif string
  | Saddr ip_addr
  | Daddr ip_addr
  | TcpSport nat
  | TcpDport nat

record nft_chain =
  ch_name :: string
  ch_hook :: string
  ch_policy :: string
  ch_rules :: "nft_match list list"  \<comment> \<open>all of them accept\<close>

definition hook_name :: "hook \<Rightarrow> string" where
  "hook_name h = (case h of Input \<Rightarrow> ''input'' | Output \<Rightarrow> ''output'' | Forward \<Rightarrow> ''forward'')"

definition ct_name :: "ct_state \<Rightarrow> string" where
  "ct_name s = (case s of New \<Rightarrow> ''new'' | Established \<Rightarrow> ''established'' | Related \<Rightarrow> ''related'' | Invalid \<Rightarrow> ''invalid''
     | Untracked \<Rightarrow> ''untracked'')"

fun match_holds :: "nft_match \<Rightarrow> packet \<Rightarrow> bool" where
  "match_holds (CtState ss) pk \<longleftrightarrow> ct_name (pk_ct pk) \<in> set ss"
| "match_holds (Iif i) pk \<longleftrightarrow> pk_iif pk = i"
| "match_holds (Oif i) pk \<longleftrightarrow> pk_oif pk = i"
| "match_holds (Saddr a) pk \<longleftrightarrow> pk_saddr pk = a"
| "match_holds (Daddr a) pk \<longleftrightarrow> pk_daddr pk = a"
| "match_holds (TcpSport p) pk \<longleftrightarrow> map_option (unat \<circ> fst) (pk_tcp pk) = Some p"
| "match_holds (TcpDport p) pk \<longleftrightarrow> map_option (unat \<circ> snd) (pk_tcp pk) = Some p"

definition chain_accepts :: "nft_chain \<Rightarrow> packet \<Rightarrow> bool" where
  "chain_accepts c pk \<longleftrightarrow> list_ex (list_all (\<lambda>m. match_holds m pk)) (ch_rules c) \<or> ch_policy c = ''accept;''"

text \<open>A packet passes a table when every base chain on its hook accepts it.\<close>

definition table_accepts :: "nft_chain list \<Rightarrow> packet \<Rightarrow> bool" where
  "table_accepts cs pk \<longleftrightarrow> list_all (\<lambda>c. ch_hook c = hook_name (pk_hook pk) \<longrightarrow> chain_accepts c pk) cs"

section \<open>Reading a text\<close>

definition words_of :: "string \<Rightarrow> string list" where
  "words_of l = filter (\<lambda>w. w \<noteq> []) (split_on (CHR '' '') l)"

definition ip_of_family :: "(string \<Rightarrow> ip_addr option) \<Rightarrow> string \<Rightarrow> string \<Rightarrow> ip_addr option" where
  "ip_of_family ip_parse fam a =
     (case ip_parse a of None \<Rightarrow> None | Some ip \<Rightarrow> if ip_family ip = fam then Some ip else None)"

text \<open>The matches of a rule, up to its verdict, which has to be \<open>accept\<close>.\<close>

fun read_rule :: "(string \<Rightarrow> ip_addr option) \<Rightarrow> string list \<Rightarrow> nft_match list option" where
  "read_rule ip_parse (a # b # c # ws) =
     (if a = ''ct'' \<and> b = ''state'' then map_option ((#) (CtState (split_on (CHR '','') c))) (read_rule ip_parse ws)
      else if a = ''iif'' then map_option ((#) (Iif b)) (read_rule ip_parse (c # ws))
      else if a = ''oif'' then map_option ((#) (Oif b)) (read_rule ip_parse (c # ws))
      else if a = ''tcp'' \<and> b = ''sport'' then Option.bind (parse_unsigned 16 c) (\<lambda>p. map_option ((#) (TcpSport p)) (read_rule ip_parse ws))
      else if a = ''tcp'' \<and> b = ''dport'' then Option.bind (parse_unsigned 16 c) (\<lambda>p. map_option ((#) (TcpDport p)) (read_rule ip_parse ws))
      else if b = ''saddr'' then Option.bind (ip_of_family ip_parse a c) (\<lambda>i. map_option ((#) (Saddr i)) (read_rule ip_parse ws))
      else if b = ''daddr'' then Option.bind (ip_of_family ip_parse a c) (\<lambda>i. map_option ((#) (Daddr i)) (read_rule ip_parse ws))
      else None)"
| "read_rule ip_parse ws = (if ws = [''accept''] then Some [] else None)"

definition in_last :: "(nft_chain \<Rightarrow> nft_chain) \<Rightarrow> nft_chain list \<Rightarrow> nft_chain list option" where
  "in_last f cs = (if cs = [] then None else Some (butlast cs @ [f (last cs)]))"

text \<open>One line: the table's and the chains' openings and closings, the declaration of a base chain, or a rule.\<close>

definition read_line :: "(string \<Rightarrow> ip_addr option) \<Rightarrow> string list \<Rightarrow> nft_chain list \<Rightarrow> nft_chain list option" where
  "read_line ip_parse ws cs =
     (if ws = [''}''] \<or> ws = [''table'', ''inet'', ''aigis_isolation'', ''{''] then Some cs
      else if length ws = 3 \<and> hd ws = ''chain'' \<and> ws ! 2 = ''{''
      then Some (cs @ [\<lparr>ch_name = ws ! 1, ch_hook = [], ch_policy = ''accept;'', ch_rules = []\<rparr>])
      else if length ws = 8 \<and> take 3 ws = [''type'', ''filter'', ''hook''] \<and> ws ! 4 = ''priority'' \<and> ws ! 6 = ''policy''
      then in_last (\<lambda>c. c\<lparr>ch_hook := ws ! 3, ch_policy := ws ! 7\<rparr>) cs
      else Option.bind (read_rule ip_parse ws) (\<lambda>r. in_last (\<lambda>c. c\<lparr>ch_rules := ch_rules c @ [r]\<rparr>) cs))"

fun read_lines :: "(string \<Rightarrow> ip_addr option) \<Rightarrow> string list list \<Rightarrow> nft_chain list \<Rightarrow> nft_chain list option" where
  "read_lines ip_parse [] cs = Some cs"
| "read_lines ip_parse (ws # ls) cs = Option.bind (read_line ip_parse ws cs) (read_lines ip_parse ls)"

definition read_ruleset :: "(string \<Rightarrow> ip_addr option) \<Rightarrow> string \<Rightarrow> nft_chain list option" where
  "read_ruleset ip_parse txt = read_lines ip_parse (map words_of (split_on newline txt)) []"

text \<open>Loading into a table: rules go to the end of the chain of their name, a new chain to the end of the table.\<close>

definition add_chain :: "nft_chain list \<Rightarrow> nft_chain \<Rightarrow> nft_chain list" where
  "add_chain cs c =
     (if list_ex (\<lambda>d. ch_name d = ch_name c) cs
      then map (\<lambda>d. if ch_name d = ch_name c
          then c\<lparr>ch_rules := ch_rules d @ ch_rules c\<rparr> else d) cs
      else cs @ [c])"

definition load_chains :: "nft_chain list option \<Rightarrow> nft_chain list \<Rightarrow> nft_chain list" where
  "load_chains t cs = foldl add_chain (unwrap_or [] t) cs"

section \<open>What is relied on of nft\<close>

text \<open>\<open>tab w\<close> is the table \<open>inet aigis_isolation\<close> of a packet filter, when it is there.\<close>

definition nft_laws :: "(string \<Rightarrow> ip_addr option) \<Rightarrow> 'w nft \<Rightarrow> ('w \<Rightarrow> nft_chain list option) \<Rightarrow> bool" where
  "nft_laws ip_parse n tab \<longleftrightarrow>
     (\<forall>txt w out w' cs. nft_load n txt w = (out, w') \<longrightarrow> read_ruleset ip_parse txt = Some cs \<longrightarrow>
        (case out of
           Exited success err \<Rightarrow> if success then tab w' = Some (load_chains (tab w) cs) else w' = w
         | SpawnFailed err \<Rightarrow> w' = w
         | _ \<Rightarrow> tab w' \<in> {tab w, Some (load_chains (tab w) cs)})) \<and>
     (\<forall>w out w'. nft_run n delete_args w = (out, w') \<longrightarrow>
        (case out of
           Exited success err \<Rightarrow> if success then tab w' = None else w' = w
         | SpawnFailed err \<Rightarrow> w' = w
         | _ \<Rightarrow> tab w' \<in> {tab w, None})) \<and>
     (\<forall>w success err w'. nft_run n list_args w = (Exited success err, w') \<longrightarrow> w' = w \<and> success = (tab w \<noteq> None))"

section \<open>The chains of the ruleset\<close>

definition quarantine_chains :: "isolation_manager \<Rightarrow> nft_chain list" where
  "quarantine_chains m =
     [\<lparr>ch_name = ''input'', ch_hook = ''input'', ch_policy = ''drop;'',
       ch_rules = [[CtState [''established'', ''related'']], [Iif ''lo''], [Saddr (im_fleet_ip m), TcpSport (unat (im_fleet_port m))]]\<rparr>,
      \<lparr>ch_name = ''output'', ch_hook = ''output'', ch_policy = ''drop;'',
       ch_rules = [[CtState [''established'', ''related'']], [Oif ''lo''], [Daddr (im_fleet_ip m), TcpDport (unat (im_fleet_port m))]]\<rparr>,
      \<lparr>ch_name = ''forward'', ch_hook = ''forward'', ch_policy = ''drop;'', ch_rules = []\<rparr>]"

lemma split_on_append: "split_on d (a @ d # b) = split_on d a @ split_on d b"
proof (induction a)
  case (Cons c a)
  then show ?case by (cases "split_on d a") (auto simp: split: list.split)
qed simp

lemma words_of_sep: "words_of (a @ CHR '' '' # b) = words_of a @ words_of b"
  by (simp add: words_of_def split_on_append)

lemma words_of_word: "CHR '' '' \<notin> set w \<Longrightarrow> w \<noteq> [] \<Longrightarrow> words_of w = [w]"
  by (simp add: words_of_def split_on_no_sep)

lemma show_nat_no_space: "CHR '' '' \<notin> set (show_nat n)"
  using show_nat_digits [of "CHR '' ''" n] by auto

lemma show_nat_not_empty: "show_nat n \<noteq> []"
  by (subst show_nat.simps) simp


lemma space_show_ip: "CHR '' '' \<notin> set (show_ip ip)"
  using addr_char_show_ip addr_char_not by blast

lemma rule_words:
  assumes "side \<in> {''saddr'', ''daddr''}" "port \<in> {''sport'', ''dport''}" "a \<noteq> []" "CHR '' '' \<notin> set a"
  shows "words_of (''        '' @ ip_family ip @ '' '' @ side @ '' '' @ a @ '' tcp '' @ port @ '' '' @ show_nat n @ '' accept'') =
    [ip_family ip, side, a, ''tcp'', port, show_nat n, ''accept'']"
proof -
  let ?sp = "CHR '' ''"
  have line: "''        '' @ ip_family ip @ '' '' @ side @ '' '' @ a @ '' tcp '' @ port @ '' '' @ show_nat n @ '' accept'' =
     ''       '' @ ?sp # (ip_family ip @ ?sp # (side @ ?sp # (a @ ?sp # (''tcp'' @ ?sp # (port @ ?sp # (show_nat n @ ?sp # ''accept''))))))"
    by simp
  have "words_of ''       '' = []" by (simp add: words_of_def)
  moreover have "words_of (ip_family ip) = [ip_family ip]" by (simp add: words_of_def ip_family_def split: ip_addr.split)
  moreover have "words_of side = [side]" "words_of port = [port]" using assms(1,2) by (auto simp: words_of_def)
  moreover have "words_of ''tcp'' = [''tcp'']" "words_of ''accept'' = [''accept'']" by (simp_all add: words_of_def)
  ultimately show ?thesis
    unfolding line words_of_sep words_of_word [OF assms(4,3)] words_of_word [OF show_nat_no_space show_nat_not_empty] by simp
qed

lemma quarantine_rule_lines:
  assumes "show_ip (im_fleet_ip m) \<noteq> []"
  shows "words_of (''        '' @ ip_family (im_fleet_ip m) @ '' saddr '' @ show_ip (im_fleet_ip m) @ '' tcp sport '' @
      show_nat (unat (im_fleet_port m)) @ '' accept'') =
      [ip_family (im_fleet_ip m), ''saddr'', show_ip (im_fleet_ip m), ''tcp'', ''sport'', show_nat (unat (im_fleet_port m)), ''accept'']"
    "words_of (''        '' @ ip_family (im_fleet_ip m) @ '' daddr '' @ show_ip (im_fleet_ip m) @ '' tcp dport '' @
      show_nat (unat (im_fleet_port m)) @ '' accept'') =
      [ip_family (im_fleet_ip m), ''daddr'', show_ip (im_fleet_ip m), ''tcp'', ''dport'', show_nat (unat (im_fleet_port m)), ''accept'']"
  using rule_words [of "''saddr''" "''sport''", OF _ _ assms space_show_ip, of "im_fleet_ip m" "unat (im_fleet_port m)"]
    rule_words [of "''daddr''" "''dport''", OF _ _ assms space_show_ip, of "im_fleet_ip m" "unat (im_fleet_port m)"] by simp_all

lemma read_quarantine_rules:
  assumes "ip_parse (show_ip (im_fleet_ip m)) = Some (im_fleet_ip m)"
  shows "read_rule ip_parse [ip_family (im_fleet_ip m), ''saddr'', show_ip (im_fleet_ip m), ''tcp'', ''sport'',
      show_nat (unat (im_fleet_port m)), ''accept''] = Some [Saddr (im_fleet_ip m), TcpSport (unat (im_fleet_port m))]"
    "read_rule ip_parse [ip_family (im_fleet_ip m), ''daddr'', show_ip (im_fleet_ip m), ''tcp'', ''dport'',
      show_nat (unat (im_fleet_port m)), ''accept''] = Some [Daddr (im_fleet_ip m), TcpDport (unat (im_fleet_port m))]"
proof -
  have "parse_unsigned 16 (show_nat (unat (im_fleet_port m))) = Some (unat (im_fleet_port m))"
    using unsigned_less [of "im_fleet_port m"] by (intro parse_show_nat) simp
  moreover have "ip_family ip \<in> {''ip'', ''ip6''}" for ip by (simp add: ip_family_def split: ip_addr.split)
  ultimately show "read_rule ip_parse [ip_family (im_fleet_ip m), ''saddr'', show_ip (im_fleet_ip m), ''tcp'', ''sport'',
      show_nat (unat (im_fleet_port m)), ''accept''] = Some [Saddr (im_fleet_ip m), TcpSport (unat (im_fleet_port m))]"
    "read_rule ip_parse [ip_family (im_fleet_ip m), ''daddr'', show_ip (im_fleet_ip m), ''tcp'', ''dport'',
      show_nat (unat (im_fleet_port m)), ''accept''] = Some [Daddr (im_fleet_ip m), TcpDport (unat (im_fleet_port m))]"
    using assms by (auto simp: ip_of_family_def ip_family_def split: ip_addr.splits)
qed

lemma constant_words:
  "words_of ''table inet aigis_isolation {'' = [''table'', ''inet'', ''aigis_isolation'', ''{'']"
  "words_of ''    chain input {'' = [''chain'', ''input'', ''{'']"
  "words_of ''    chain output {'' = [''chain'', ''output'', ''{'']"
  "words_of ''    chain forward {'' = [''chain'', ''forward'', ''{'']"
  "words_of ''        type filter hook input priority -100; policy drop;'' = [''type'', ''filter'', ''hook'', ''input'', ''priority'', ''-100;'', ''policy'', ''drop;'']"
  "words_of ''        type filter hook output priority -100; policy drop;'' = [''type'', ''filter'', ''hook'', ''output'', ''priority'', ''-100;'', ''policy'', ''drop;'']"
  "words_of ''        type filter hook forward priority -100; policy drop;'' = [''type'', ''filter'', ''hook'', ''forward'', ''priority'', ''-100;'', ''policy'', ''drop;'']"
  "words_of ''        ct state established,related accept'' = [''ct'', ''state'', ''established,related'', ''accept'']"
  "words_of ''        iif lo accept'' = [''iif'', ''lo'', ''accept'']" "words_of ''        oif lo accept'' = [''oif'', ''lo'', ''accept'']"
  "words_of ''    }'' = [''}'']" "words_of ''}'' = [''}'']"
  by (simp_all add: words_of_def)

lemma constant_rules:
  "read_rule ip_parse [''ct'', ''state'', ''established,related'', ''accept''] = Some [CtState [''established'', ''related'']]"
  "read_rule ip_parse [''iif'', ''lo'', ''accept''] = Some [Iif ''lo'']" "read_rule ip_parse [''oif'', ''lo'', ''accept''] = Some [Oif ''lo'']"
  by simp_all

lemma show_ip_not_empty: "show_ip ip \<noteq> []"
proof -
  have v4: "show_v4 a \<noteq> []" for a by (simp add: show_v4_def)
  have "show_v6 a \<noteq> []" for a by (simp add: show_v6_def v6_segments_def v4 Let_def split: prod.split)
  then show ?thesis using v4 by (cases ip) simp_all
qed

text \<open>The text reads as the three chains.\<close>

lemma read_isolation_ruleset:
  assumes "ip_parse (show_ip (im_fleet_ip m)) = Some (im_fleet_ip m)"
  shows "read_ruleset ip_parse (isolation_ruleset m) = Some (quarantine_chains m)"
proof -
  have fam: "ip_family ip \<noteq> ''type'' \<and> ip_family ip \<noteq> ''chain''" for ip by (simp add: ip_family_def split: ip_addr.split)
  show ?thesis
    unfolding read_ruleset_def isolation_ruleset_lines Let_def list.map constant_words quarantine_rule_lines [OF show_ip_not_empty]
    by (simp add: read_line_def in_last_def read_quarantine_rules [of ip_parse m, OF assms] constant_rules fam quarantine_chains_def del: read_rule.simps)
qed

section \<open>What passes\<close>

text \<open>What an isolated host still sends and receives: the packets of established connections and those related to them, the loopback
  interface, and TCP with the fleet server's address and port. Nothing is forwarded.\<close>

definition quarantine_allows :: "isolation_manager \<Rightarrow> packet \<Rightarrow> bool" where
  "quarantine_allows m pk =
     (case pk_hook pk of
        Input \<Rightarrow> pk_ct pk = Established \<or> pk_ct pk = Related \<or> pk_iif pk = ''lo'' \<or>
          pk_saddr pk = im_fleet_ip m \<and> (\<exists>dport. pk_tcp pk = Some (im_fleet_port m, dport))
      | Output \<Rightarrow> pk_ct pk = Established \<or> pk_ct pk = Related \<or> pk_oif pk = ''lo'' \<or>
          pk_daddr pk = im_fleet_ip m \<and> (\<exists>sport. pk_tcp pk = Some (sport, im_fleet_port m))
      | Forward \<Rightarrow> False)"

text \<open>The table after \<open>k\<close> loads of the ruleset.\<close>

definition loaded :: "isolation_manager \<Rightarrow> nat \<Rightarrow> nft_chain list" where
  "loaded m k = map (\<lambda>c. c\<lparr>ch_rules := concat (replicate k (ch_rules c))\<rparr>) (quarantine_chains m)"

lemma load_first: "load_chains None (quarantine_chains m) = loaded m (Suc 0)"
  by (simp add: load_chains_def loaded_def quarantine_chains_def add_chain_def)

lemma load_again: "load_chains (Some (loaded m k)) (quarantine_chains m) = loaded m (Suc k)"
proof -
  have "concat (replicate k xs) @ xs = xs @ concat (replicate k xs)" for xs :: "nft_match list list"
    by (induction k) simp_all
  then show ?thesis by (simp add: load_chains_def loaded_def quarantine_chains_def add_chain_def)
qed

lemma list_ex_replicate: "list_ex P (concat (replicate (Suc k) xs)) \<longleftrightarrow> list_ex P xs"
  by (induction k) auto

lemma loaded_accepts: "table_accepts (loaded m (Suc k)) pk \<longleftrightarrow> quarantine_allows m pk"
proof -
  have a: "chain_accepts (c\<lparr>ch_rules := concat (replicate (Suc k) (ch_rules c))\<rparr>) pk \<longleftrightarrow> chain_accepts c pk" for c
    unfolding chain_accepts_def by (simp add: list_ex_replicate del: replicate.simps)
  have port: "unat p = unat (im_fleet_port m) \<longleftrightarrow> p = im_fleet_port m" for p by (rule word_unat_eq_iff [symmetric])
  have "table_accepts (loaded m (Suc k)) pk \<longleftrightarrow> table_accepts (quarantine_chains m) pk"
    unfolding table_accepts_def loaded_def list.pred_map comp_def a by (simp add: list_all_iff)
  also have "\<dots> \<longleftrightarrow> quarantine_allows m pk"
    by (cases "pk_hook pk"; cases "pk_ct pk"; cases "pk_tcp pk")
      (auto simp: table_accepts_def quarantine_chains_def quarantine_allows_def chain_accepts_def hook_name_def ct_name_def port)
  finally show ?thesis .
qed


definition test_addr :: "string \<Rightarrow> ip_addr option" where
  "test_addr s = (if s = ''1.2.3.4'' then Some (V4 0x01020304) else None)"

definition test_fleet :: isolation_manager where
  "test_fleet = \<lparr>im_fleet_ip = V4 0x01020304, im_fleet_port = 8443\<rparr>"

lemma test_fleet_addr: "test_addr (show_ip (im_fleet_ip test_fleet)) = Some (im_fleet_ip test_fleet)"
proof -
  have "show_ip (V4 0x01020304) = ''1.2.3.4''" by code_simp
  then show ?thesis by (simp add: test_addr_def test_fleet_def)
qed

text \<open>A new connection to the fleet server passes, one to another host does not.\<close>

definition syn_to :: "ip_addr \<Rightarrow> packet" where
  "syn_to a = \<lparr>pk_hook = Output, pk_ct = New, pk_iif = [], pk_oif = ''eth0'', pk_saddr = V4 0x0A000001, pk_daddr = a,
     pk_tcp = Some (40000, 8443)\<rparr>"


section \<open>Commands\<close>

text \<open>The quarantine is in force: the table is there and passes what the quarantine allows, no more and no less.\<close>

definition in_force :: "('w \<Rightarrow> nft_chain list option) \<Rightarrow> isolation_manager \<Rightarrow> 'w \<Rightarrow> bool" where
  "in_force tab m w \<longleftrightarrow> (\<exists>cs. tab w = Some cs \<and> (\<forall>pk. table_accepts cs pk \<longleftrightarrow> quarantine_allows m pk))"

text \<open>The tables that the commands leave behind.\<close>

definition isolation_state :: "isolation_manager \<Rightarrow> nft_chain list option \<Rightarrow> bool" where
  "isolation_state m t \<longleftrightarrow> t = None \<or> (\<exists>k. t = Some (loaded m (Suc k)))"

lemma isolation_state_load: "isolation_state m t \<Longrightarrow> \<exists>k. load_chains t (quarantine_chains m) = loaded m (Suc k)"
  by (auto simp: isolation_state_def load_first load_again)

lemma isolation_state_force: "isolation_state m (tab w) \<Longrightarrow> tab w \<noteq> None \<Longrightarrow> in_force tab m w"
  by (auto simp: isolation_state_def in_force_def loaded_accepts)

lemma nft_laws_load:
  "nft_laws ip_parse n tab \<Longrightarrow> nft_load n txt w = (out, w') \<Longrightarrow> read_ruleset ip_parse txt = Some cs \<Longrightarrow>
     (case out of
        Exited success err \<Rightarrow> if success then tab w' = Some (load_chains (tab w) cs) else w' = w
      | SpawnFailed err \<Rightarrow> w' = w
      | _ \<Rightarrow> tab w' \<in> {tab w, Some (load_chains (tab w) cs)})"
  unfolding nft_laws_def by blast

lemma nft_laws_delete:
  "nft_laws ip_parse n tab \<Longrightarrow> nft_run n delete_args w = (out, w') \<Longrightarrow>
     (case out of
        Exited success err \<Rightarrow> if success then tab w' = None else w' = w
      | SpawnFailed err \<Rightarrow> w' = w
      | _ \<Rightarrow> tab w' \<in> {tab w, None})"
  unfolding nft_laws_def by blast

lemma nft_laws_list:
  "nft_laws ip_parse n tab \<Longrightarrow> nft_run n list_args w = (Exited success err, w') \<Longrightarrow> w' = w \<and> success = (tab w \<noteq> None)"
  unfolding nft_laws_def by blast

lemma isolate_state:
  assumes "nft_laws ip_parse n tab" "ip_parse (show_ip (im_fleet_ip m)) = Some (im_fleet_ip m)" "isolation_state m (tab w)"
    and "isolate n m w = (r, w')"
  shows "isolation_state m (tab w')" "is_ok r \<Longrightarrow> tab w' \<noteq> None"
proof -
  obtain k where k: "load_chains (tab w) (quarantine_chains m) = loaded m (Suc k)" using isolation_state_load [OF assms(3)] by blast
  obtain out w1 where l: "nft_load n (isolation_ruleset m) w = (out, w1)" by fastforce
  note law = nft_laws_load [OF assms(1) l read_isolation_ruleset [of ip_parse m, OF assms(2)], unfolded k]
  have "w1 = w'" using assms(4) l by (auto simp: isolate_def split: nft_outcome.splits if_splits)
  then show "isolation_state m (tab w')"
    using law assms(3) by (auto simp: isolation_state_def split: nft_outcome.splits if_splits)
  show "is_ok r \<Longrightarrow> tab w' \<noteq> None"
    using law assms(4) l by (auto simp: isolate_def split: nft_outcome.splits if_splits)
qed

lemma de_isolate_state:
  assumes "nft_laws ip_parse n tab" "isolation_state m (tab w)" "de_isolate n w = (r, w')"
  shows "isolation_state m (tab w')"
proof -
  obtain out w1 where l: "nft_run n delete_args w = (out, w1)" by fastforce
  have "w1 = w'" using assms(3) l by (auto simp: de_isolate_def Let_def split: nft_outcome.splits if_splits)
  then show ?thesis
    using nft_laws_delete [OF assms(1) l] assms(2) by (auto simp: isolation_state_def split: nft_outcome.splits if_splits)
qed

lemma handle_cases:
  obtains (isolating) r w' where "isolate n m w = (r, w')" "handle n m msg w = (result_bind r (\<lambda>_. Ok (status_json ''isolated'')), w')"
    "\<exists>c. sc_command msg = Some (Isolate c)"
  | (releasing) r w' where "de_isolate n w = (r, w')" "handle n m msg w = (result_bind r (\<lambda>_. Ok (status_json ''unisolated'')), w')"
    "\<exists>c. sc_command msg = Some (Isolate c)"
  | (other) "\<forall>c. sc_command msg \<noteq> Some (Isolate c)" "snd (handle n m msg w) = w" "fst (handle n m msg w) \<noteq> Ok (status_json ''isolated'')"
proof (cases "sc_command msg")
  case (Some cmd)
  show thesis
  proof (cases cmd)
    case (Isolate c)
    then show ?thesis
      using Some isolating releasing by (cases "isolate n m w"; cases "de_isolate n w"; cases "ic_isolate c") (auto simp: handle_def)
  qed (use Some other in \<open>auto simp: handle_def status_json_def\<close>)
qed (use other in \<open>auto simp: handle_def\<close>)

lemma handle_state:
  assumes "nft_laws ip_parse n tab" "ip_parse (show_ip (im_fleet_ip m)) = Some (im_fleet_ip m)" "isolation_state m (tab w)"
    and "handle n m msg w = (r, w')"
  shows "isolation_state m (tab w')" "r = Ok (status_json ''isolated'') \<Longrightarrow> tab w' \<noteq> None"
    "\<forall>c. sc_command msg \<noteq> Some (Isolate c) \<Longrightarrow> w' = w"
proof -
  have "isolation_state m (tab w') \<and> (r = Ok (status_json ''isolated'') \<longrightarrow> tab w' \<noteq> None) \<and>
    ((\<forall>c. sc_command msg \<noteq> Some (Isolate c)) \<longrightarrow> w' = w)"
  proof (cases rule: handle_cases [of n m w msg])
    case (isolating r1 w1)
    then show ?thesis using isolate_state [OF assms(1-3) isolating(1)] assms(4) by (auto simp: is_ok_def result_bind_Inr_iff split: sum.splits)
  next
    case (releasing r1 w1)
    then show ?thesis using de_isolate_state [OF assms(1,3) releasing(1)] assms(4) by (auto simp: status_json_def result_bind_Inr_iff)
  next
    case other
    then show ?thesis using assms(3,4) by auto
  qed
  then show "isolation_state m (tab w')" "r = Ok (status_json ''isolated'') \<Longrightarrow> tab w' \<noteq> None"
    "\<forall>c. sc_command msg \<noteq> Some (Isolate c) \<Longrightarrow> w' = w" by blast+
qed

definition after_commands :: "'w nft \<Rightarrow> isolation_manager \<Rightarrow> server_command list \<Rightarrow> 'w \<Rightarrow> 'w" where
  "after_commands n m cmds w = fold (\<lambda>msg w. snd (handle n m msg w)) cmds w"

lemma after_commands_state:
  assumes "nft_laws ip_parse n tab" "ip_parse (show_ip (im_fleet_ip m)) = Some (im_fleet_ip m)"
  shows "isolation_state m (tab w) \<Longrightarrow> isolation_state m (tab (after_commands n m cmds w))"
proof (induction cmds arbitrary: w)
  case (Cons msg cmds)
  have "isolation_state m (tab (snd (handle n m msg w)))" using handle_state(1) [OF assms Cons.prems surjective_pairing] .
  then show ?case using Cons.IH by (simp add: after_commands_def)
qed (simp add: after_commands_def)


text \<open>A packet filter as the laws want it.\<close>

definition table_nft :: "(string \<Rightarrow> ip_addr option) \<Rightarrow> nft_chain list option nft" where
  "table_nft ip_parse = \<lparr>nft_load = (\<lambda>txt w. case read_ruleset ip_parse txt of
        None \<Rightarrow> (Exited False ''Error: syntax error'', w)
      | Some cs \<Rightarrow> (Exited True [], Some (load_chains w cs))),
     nft_run = (\<lambda>args w. if args = delete_args
       then (if w = None then (Exited False ''Error: No such file or directory'', w) else (Exited True [], None))
       else (Exited (w \<noteq> None) [], w))\<rparr>"

lemma table_nft_laws: "nft_laws ip_parse (table_nft ip_parse) (\<lambda>w. w)"
  by (auto simp: nft_laws_def table_nft_def list_args_not_delete)


end
