(* ===== verification/AgentMain.thy ===== *)
theory AgentMain
  imports AgentSystem Orchestrator Quarantine
begin

text \<open>
  The agent's \<open>main\<close>, \<open>agent/crates/agent-bin/src/main.rs\<close>: the check that it runs as root, the configuration, the
  environment check behind \<open>--check\<close>, and the parts put together once the agent is enrolled: the buffer, the client of the
  fleet server, the isolation manager and the collector's tasks.
\<close>

section \<open>Main\<close>

text \<open>The arguments, the host, and the answers of the third-party code: \<open>toml\<close>, the logging set-up, the parsers and the
  resolver of addresses.\<close>

record 'f main_env =
  mn_config :: string
  mn_check :: bool
  mn_host :: host
  mn_parent :: "string \<Rightarrow> string option"
  mn_toml :: "string \<Rightarrow> (string, agent_config) result"
  mn_tracing :: "'f subscriber_env"
  mn_buffer_fault :: "stmt option"
  mn_stored :: "(buffer_row list \<times> int) option"
  mn_startup :: startup_env
  mn_ip_parse :: "string \<Rightarrow> ip_addr option"
  mn_resolve :: "string \<Rightarrow> ip_addr option"
  mn_seed_faults :: "bool list"
  mn_now :: timestamp

datatype main_error = MainConfigRead string string | MainConfigParse string | MainTracing string
  | MainBuffer buffer_error | MainStartup startup_error

text \<open>What the agent is made of once it runs.\<close>

record running_agent =
  ra_config :: agent_config
  ra_started :: started
  ra_buffer :: event_buffer
  ra_isolation :: isolation_manager
  ra_agent_uuid :: string
  ra_tasks :: "(scheduled_query \<times> query_task option) list"

text \<open>It exits with a code and what it printed, fails, or runs.\<close>

datatype main_outcome = Exit int "string list" | Failed main_error | Running running_agent

definition check_outcome :: "preflight_report \<Rightarrow> main_outcome" where
  "check_outcome report =
     (if report_is_ok report
      then Exit 0 ([''Config syntax is valid.''] @ report_print report @ [''Environment checks passed. Ready for deployment.''])
      else Exit 1 ([''Config syntax is valid.''] @ report_print report @
        [''Environment checks failed. Please resolve the errors above before deploying.'']))"

definition main_format :: "string \<Rightarrow> agent_log_format" where
  "main_format s = (if s = ''json'' then LogJson else LogHuman)"

definition agent_main :: "(string \<Rightarrow> uuid option) \<Rightarrow> (uuid \<Rightarrow> string) \<Rightarrow> 'f main_env \<Rightarrow> schedule \<Rightarrow> main_outcome option" where
  "agent_main uuid_parse uuid_str env t =
     (if hs_uid (mn_host env) \<noteq> 0 then Some (Exit 1 [''Error: aigis-zero must be run as root''])
      else case hs_read (mn_host env) (mn_config env) of
        Inl e \<Rightarrow> Some (Failed (MainConfigRead (mn_config env) e))
      | Inr config_str \<Rightarrow>
      (case mn_toml env config_str of
        Inl e \<Rightarrow> Some (Failed (MainConfigParse e))
      | Inr config \<Rightarrow>
      if mn_check env then Some (check_outcome (run_preflight (mn_parent env) (mn_host env) config))
      else
      (case agent_tracing_init (mn_tracing env) (as_log_level (ac_agent config)) (main_format (as_log_format (ac_agent config))) of
        Inl e \<Rightarrow> Some (Failed (MainTracing e))
      | Inr _ \<Rightarrow>
      (case new (mn_buffer_fault env) (mn_stored env) (as_event_buffer_max (ac_agent config)) of
        Inl e \<Rightarrow> Some (Failed (MainBuffer e))
      | Inr buffer \<Rightarrow>
      (case agent_startup uuid_parse uuid_str (mn_startup env) config of
        None \<Rightarrow> None
      | Some (Inl e) \<Rightarrow> Some (Failed (MainStartup e))
      | Some (Inr s) \<Rightarrow>
          let (fleet_ip, fleet_port) = parse_endpoint (mn_ip_parse env) (mn_resolve env) (fs_endpoint (ac_fleet config))
          in Some (Running \<lparr>ra_config = config, ra_started = s, ra_buffer = buffer,
               ra_isolation = \<lparr>im_fleet_ip = fleet_ip, im_fleet_port = fleet_port\<rparr>,
               ra_agent_uuid = uuid_str (st_node_id s),
               ra_tasks = fst (collector_start (mn_seed_faults env) (mn_now env) t)\<rparr>))))))"

text \<open>The tasks that \<open>main\<close> spawns, over the buffer and the client it opened; \<open>serde_json\<close>, \<open>nft\<close> and the host they act on are
  arguments.\<close>

definition main_params :: "(json \<Rightarrow> string option) \<Rightarrow> (string \<Rightarrow> json option) \<Rightarrow> (json \<Rightarrow> bytes option) \<Rightarrow> 'w nft \<Rightarrow> running_agent
    \<Rightarrow> 'w agent_params" where
  "main_params to_string from_str to_vec n a =
     \<lparr>ap_to_string = to_string, ap_from_str = from_str, ap_to_vec = to_vec, ap_node_id = st_node_id (ra_started a),
      ap_batch = as_event_drain_batch (ac_agent (ra_config a)), ap_drain_secs = as_event_drain_interval_secs (ac_agent (ra_config a)),
      ap_heartbeat_secs = fs_heartbeat_interval_secs (ac_fleet (ra_config a)), ap_nft = n, ap_isolation = ra_isolation a\<rparr>"

definition main_tasks :: "running_agent \<Rightarrow> 'w \<Rightarrow> 'w agent_system" where
  "main_tasks a w = agent_spawn (ra_buffer a) (st_client (ra_started a)) w"

section \<open>Lemmas\<close>

lemma connect_with_retry_token:
  "connect_with_retry m base token envs c = Some (Inr u, c', ds) \<Longrightarrow> fc_token c' = token"
proof -
  have "retry_loop m base token k envs c = Some (Inr u, c', ds) \<Longrightarrow> fc_token c' = token" for k
  proof (induction envs arbitrary: k c ds)
    case (Cons e envs)
    have "fst (connect e token c) = Inr v \<Longrightarrow> fc_token (snd (connect e token c)) = token" for v
      by (auto simp: connect_def Let_def split: if_splits sum.splits option.splits)
    then show ?case using Cons by (fastforce simp: Let_def split: prod.splits sum.splits if_splits)
  qed simp
  then show "connect_with_retry m base token envs c = Some (Inr u, c', ds) \<Longrightarrow> fc_token c' = token"
    by (simp add: connect_with_retry_def)
qed

lemma agent_startup_token:
  assumes "agent_startup uuid_parse uuid_str env config = Some (Inr s)"
  shows "fc_token (st_client s) \<noteq> None"
  using assms
  by (auto simp: agent_startup_def Let_def split: option.splits sum.splits if_splits prod.splits dest!: connect_with_retry_token)

text \<open>A stored table that SQLite would accept, under a capacity that an \<open>i64\<close> can hold.\<close>

definition stored_inv :: "(buffer_row list \<times> int) option \<Rightarrow> u64 \<Rightarrow> bool" where
  "stored_inv stored max_events \<longleftrightarrow>
     (case unwrap_or ([], 0) stored of (rows, sq) \<Rightarrow> buffer_inv \<lparr>eb_rows = rows, eb_seq = sq, eb_max_events = max_events\<rparr>)"

lemma new_inv: "new fault stored max_events = Inr b \<Longrightarrow> stored_inv stored max_events \<Longrightarrow> buffer_inv b"
  by (auto simp: new_def stored_inv_def split: option.splits stmt.splits)

lemma agent_main_running:
  assumes "agent_main uuid_parse uuid_str env t = Some (Running a)"
  shows "fc_token (st_client (ra_started a)) \<noteq> None"
    "stored_inv (mn_stored env) (as_event_buffer_max (ac_agent (ra_config a))) \<Longrightarrow> buffer_inv (ra_buffer a)"
  using assms agent_startup_token new_inv
  by (auto simp: agent_main_def check_outcome_def Let_def split: if_splits sum.splits option.splits prod.splits)

lemma agent_startup_enrolled:
  assumes "agent_startup uuid_parse uuid_str env config = Some (Inr s)"
  obtains host headers resp where "su_hostname env = Some host"
    "su_register env headers (register_request_of env host) = Inr resp"
    "uuid_parse (rs_node_id resp) = Some (st_node_id s)"
  using assms
  by (auto simp: agent_startup_def Let_def enroll_with_secret_def split: option.splits sum.splits if_splits prod.splits)

section \<open>Properties\<close>

text \<open>The packets between the agent and a server at an address and port.\<close>

definition server_packet :: "ip_addr \<Rightarrow> u16 \<Rightarrow> packet \<Rightarrow> bool" where
  "server_packet ip port pk \<longleftrightarrow>
     pk_hook pk = Input \<and> pk_saddr pk = ip \<and> map_option fst (pk_tcp pk) = Some port \<or>
     pk_hook pk = Output \<and> pk_daddr pk = ip \<and> map_option snd (pk_tcp pk) = Some port"


text \<open>A check changes nothing and its verdict is its report's. Asked for a check, \<open>main\<close> never runs the agent; with root's
  rights and a configuration that parses it exits with code zero exactly when no line it printed is marked as a failure, and with one
  otherwise.\<close>

lemma agent_check_verdict:
  assumes "mn_check env" and "hs_uid (mn_host env) = 0"
    and "hs_read (mn_host env) (mn_config env) = Inr text_of" and "mn_toml env text_of = Inr config"
  shows "\<exists>code lines. agent_main uuid_parse uuid_str env t = Some (Exit code lines) \<and> code \<in> {0, 1}
    \<and> ((code = 0) = (filter (starts_with ''  [FAIL]'') lines = []))"
  using assms preflight_report_consistent [of "run_preflight (mn_parent env) (mn_host env) config"]
  by (auto simp: agent_main_def check_outcome_def starts_with_def)

definition sample_host :: "u32 \<Rightarrow> host" where
  "sample_host uid = \<lparr>hs_uid = uid, hs_exists = (\<lambda>_. True), hs_create_dir = (\<lambda>_. Inr ()), hs_write = (\<lambda>_. Inr ()),
     hs_read = (\<lambda>_. Inr ''toml''), hs_which = (\<lambda>_. True), hs_parse_u64 = (\<lambda>_. Inr 524288)\<rparr>"

definition sample_main_env :: "bool \<Rightarrow> string main_env" where
  "sample_main_env check = \<lparr>mn_config = ''/etc/aigis-zero/config.toml'', mn_check = check, mn_host = sample_host 0, mn_parent = (\<lambda>_. None),
     mn_toml = (\<lambda>_. Inr sample_agent_config), mn_tracing = \<lparr>sb_default_env = None, sb_filter = (\<lambda>s. s), sb_installed = False\<rparr>, mn_buffer_fault = None, mn_stored = None,
     mn_startup = \<lparr>su_connects = [good_env], su_hostname = Some ''h'', su_os_release = None, su_machine_ids = (Some ''m1'', None),
       su_version = ''0.1.0'', su_legal_value = (\<lambda>_. True),
       su_register = (\<lambda>_ _. Inr \<lparr>rs_node_id = ''u1'', rs_token = ''t'', rs_config = None\<rparr>), su_reconnects = [good_env],
       su_force_enroll = False, su_config_text = Some ''[agent]''\<rparr>,
     mn_ip_parse = (\<lambda>_. None), mn_resolve = (\<lambda>s. if s = ''h:1'' then Some (V4 0x01020304) else None), mn_seed_faults = [], mn_now = 1\<rparr>"

lemma sample_main_runs:
  "\<exists>a. agent_main (\<lambda>_. Some 1) (\<lambda>_. ''u1'') (sample_main_env False) [] = Some (Running a)"
  by (simp add: agent_main_def agent_tracing_init_def sample_main_env_def sample_host_def new_def agent_startup_def Let_def sample_agent_config_def
      connect_with_retry_def connect_def good_env_def client_new_def enroll_with_secret_def save_node_id_to_config_def
      enrollment_secret_def case_prod_beta)

lemma sample_main_config:
  "agent_main uuid_parse uuid_str (sample_main_env False) t = Some (Running a) \<Longrightarrow> ra_config a = sample_agent_config"
  by (auto simp: agent_main_def sample_main_env_def Let_def split: if_splits sum.splits option.splits prod.splits)

text \<open>C10: The agent can always recover. Let \<open>main\<close> have come to run its tasks, on a stored table in order and with a batch size
  and a drain interval that are not zero; whatever the tasks, the connection, the database and the server have done since, as long as the process is up
  and no batch is being pushed back there is a continuation, a reconnection with the token of the enrollment followed by ticks of
  the drain task, after which neither the buffer nor the drain task holds an event, and all that was not delivered on the way
  is text that does not parse or has a payload that does not print.\<close>

theorem running_agent_can_deliver:
  assumes "agent_main uuid_parse uuid_str env t = Some (Running a)"
    and "stored_inv (mn_stored env) (as_event_buffer_max (ac_agent (ra_config a)))"
    and "0 < as_event_drain_batch (ac_agent (ra_config a))" and "0 < as_event_drain_interval_secs (ac_agent (ra_config a))"
    and "p = main_params to_string from_str to_vec n a"
    and "runs (agent_step p) (main_tasks a w) tr s" and "sy_up s" and "client_free s"
  shows "\<exists>tr' s'. runs (agent_step p) s tr' s' \<and> sy_up s' \<and> held_events s' = [] \<and>
    mset (held_events s) + mset (shown ag_buffered tr') = mset (shown ag_delivered tr') + mset (shown ag_lost tr') \<and>
    (\<forall>e \<in> set (shown ag_lost tr'). readable p e = None)"
proof -
  obtain tok where tok: "fc_token (st_client (ra_started a)) = Some tok" using agent_main_running(1) [OF assms(1)] by auto
  have "0 < ap_batch p" "0 < ap_drain_secs p" using assms(3-5) by (simp_all add: main_params_def)
  then show ?thesis
    using can_deliver_all [OF assms(6) [unfolded main_tasks_def] agent_main_running(2) [OF assms(1,2)] tok _ _ assms(7,8)] by simp
qed

theorem running_agent_can_deliver_witness:
  "\<exists>a p. agent_main (\<lambda>_. Some 1) (\<lambda>_. ''u1'') (sample_main_env False) [] = Some (Running a)
    \<and> p = main_params print_sequence (\<lambda>s. Some (JString s)) (\<lambda>_. Some ''{}'') (strict_nft False) a
    \<and> (\<exists>tr' s'. runs (agent_step p) (main_tasks a False) tr' s' \<and> sy_up s' \<and> held_events s' = [])"
proof -
  let ?p = "main_params print_sequence (\<lambda>s. Some (JString s)) (\<lambda>_. Some ''{}'') (strict_nft False)"
  obtain a where a: "agent_main (\<lambda>_. Some 1) (\<lambda>_. ''u1'') (sample_main_env False) [] = Some (Running a)"
    using sample_main_runs by blast
  have c: "ra_config a = sample_agent_config" by (rule sample_main_config [OF a])
  have "stored_inv (mn_stored (sample_main_env False)) (as_event_buffer_max (ac_agent (ra_config a)))"
    "0 < as_event_drain_batch (ac_agent (ra_config a))" "0 < as_event_drain_interval_secs (ac_agent (ra_config a))"
    by (simp_all add: c stored_inv_def sample_main_env_def sample_agent_config_def buffer_inv_def max_rowid_def)
  then show ?thesis
    using a running_agent_can_deliver [OF a _ _ _ refl runs_nil, where to_string = print_sequence and from_str = "\<lambda>s. Some (JString s)"
        and to_vec = "\<lambda>_. Some ''{}''" and n = "strict_nft False" and w = False]
    by (fastforce simp: main_tasks_def agent_spawn_def client_free_def)
qed


lemma agent_check_verdict_witness:
  "\<exists>code lines. agent_main (\<lambda>_. None) (\<lambda>_. []) (sample_main_env True) [] = Some (Exit code lines)
    \<and> ((code = 0) = (filter (starts_with ''  [FAIL]'') lines = []))"
  using agent_check_verdict [of "sample_main_env True" "''toml''" sample_agent_config "\<lambda>_. None" "\<lambda>_. []" "[]"]
  by (simp add: sample_main_env_def sample_host_def) blast

end
