(* ===== verification/OsqueryTool.thy ===== *)
theory OsqueryTool
  imports OsqueryWire
begin

text \<open>
  The tool \<open>agent/crates/osquery-client/src/bin/test_query.rs\<close>, which tries out how osquery's socket wants its messages: it
  prints one \<open>registerExtension\<close> call, sends it once with the length in front and once bare, and tells what came back in two
  seconds. The output protocol, the socket and the timer are inputs.
\<close>

unbundle bit_operations_syntax

section \<open>The call\<close>

definition text_field :: "string \<Rightarrow> int \<Rightarrow> string \<Rightarrow> thrift_write list" where
  "text_field name i value = [WFieldBegin name TString i, WString value, WFieldEnd]"

definition registration_request :: "thrift_write list" where
  "registration_request =
     [WMessageCall ''registerExtension'' 1, WStructBegin ''registerExtension_args'', WFieldBegin ''info'' TStruct 1,
      WStructBegin ''InternalExtensionInfo''] @
     text_field ''name'' 1 ''aigis_zero'' @ text_field ''version'' 2 ''0.1.0'' @ text_field ''sdk_version'' 3 ''0.0.0'' @
     text_field ''min_sdk_version'' 4 ''0.0.0'' @
     [WFieldStop, WStructEnd, WFieldEnd, WFieldBegin ''registry'' TMap 2, WMapBegin TString TMap 0, WMapEnd, WFieldEnd,
      WFieldStop, WStructEnd, WMessageEnd, WFlush]"

section \<open>Framing\<close>

definition to_be_bytes :: "u32 \<Rightarrow> bytes" where
  "to_be_bytes w = map (\<lambda>k. char_of (unat (drop_bit k w) mod 256)) [24, 16, 8, 0]"

definition from_be_bytes :: "bytes \<Rightarrow> u32" where
  "from_be_bytes bs = foldl (\<lambda>w b. push_bit 8 w OR of_nat (of_char b)) 0 bs"

definition frame_call :: "bytes \<Rightarrow> bytes" where
  "frame_call reg_bytes = to_be_bytes (of_nat (length reg_bytes)) @ reg_bytes"

section \<open>The run\<close>

datatype 'a timed = InTime 'a | TimedOut

record tool_env =
  tl_thrift :: "thrift_write list \<Rightarrow> (string, bytes) result"
  tl_connect :: "nat \<Rightarrow> (string, unit) result"  \<comment> \<open>the first and the second connection\<close>
  tl_write :: "nat \<Rightarrow> bytes \<Rightarrow> (string, unit) result"
  tl_flush :: "nat \<Rightarrow> (string, unit) result"
  tl_read_exact :: "(string, bytes) result timed"  \<comment> \<open>four bytes\<close>
  tl_read :: "(string, bytes) result timed"  \<comment> \<open>up to 1024 bytes\<close>

definition hex_byte :: "char \<Rightarrow> string" where
  "hex_byte c = (let n = of_char c :: nat; digit = (\<lambda>d. (''0123456789abcdef'') ! d) in [digit (n div 16), digit (n mod 16)])"

definition show_hex_bytes :: "bytes \<Rightarrow> string" where
  "show_hex_bytes bs = ''['' @ join_with '', '' (map hex_byte bs) @ '']''"

definition framed_lines :: "(string, bytes) result timed \<Rightarrow> string list" where
  "framed_lines r = (case r of
     InTime (Inr len_buf) \<Rightarrow> [''FRAMED success! Response length: '' @ show_nat (unat (from_be_bytes len_buf))]
   | InTime (Inl e) \<Rightarrow> [''FRAMED read error: '' @ e]
   | TimedOut \<Rightarrow> [''FRAMED timed out!''])"

definition unframed_lines :: "(string, bytes) result timed \<Rightarrow> string list" where
  "unframed_lines r = (case r of
     InTime (Inr resp) \<Rightarrow> [''UNFRAMED success! Read '' @ show_nat (length resp) @ '' bytes'', ''Response (hex): '' @ show_hex_bytes resp]
   | InTime (Inl e) \<Rightarrow> [''UNFRAMED read error: '' @ e]
   | TimedOut \<Rightarrow> [''UNFRAMED timed out!''])"

text \<open>A connection on which bytes are sent.\<close>

definition tool_send :: "tool_env \<Rightarrow> nat \<Rightarrow> bytes \<Rightarrow> (string, unit) result" where
  "tool_send env k bs = result_bind (tl_connect env k) (\<lambda>_. result_bind (tl_write env k bs) (\<lambda>_. tl_flush env k))"

text \<open>The lines printed and how it ends.\<close>

definition test_query_main :: "tool_env \<Rightarrow> string list \<times> (string, unit) result" where
  "test_query_main env =
     (let connecting = [''Connecting to '' @ [CHR 0x22] @ ''/var/osquery/osquery.em'' @ [CHR 0x22]];
          framed = connecting @ [''--- Testing FRAMED registerExtension ---'']
      in case tl_thrift env registration_request of
           Inl e \<Rightarrow> (connecting, Err e)
         | Inr reg_bytes \<Rightarrow>
             (case tool_send env 0 (frame_call reg_bytes) of
                Inl e \<Rightarrow> (framed, Err e)
              | Inr _ \<Rightarrow>
                  (let unframed = framed @ framed_lines (tl_read_exact env) @ [''--- Testing UNFRAMED registerExtension ---''] in
                   case tool_send env 1 reg_bytes of
                     Inl e \<Rightarrow> (unframed, Err e)
                   | Inr _ \<Rightarrow> (unframed @ unframed_lines (tl_read env), Ok ()))))"

section \<open>Lemmas\<close>

text \<open>The length in front of a framed call is read back, and is that of what follows, up to the 32 bits it has.\<close>

lemma of_char_byte: "of_char (char_of n :: char) = n mod (256 :: nat)"
  by (simp add: of_char_of)

lemma from_to_be_bytes: "from_be_bytes (to_be_bytes w) = w"
proof -
  have "of_nat (unat (drop_bit k w) mod 256) = (take_bit 8 (drop_bit k w) :: u32)" for k
    by (simp flip: take_bit_eq_mod [of 8, simplified] add: unsigned_take_bit_eq [symmetric])
  note byte = this this [of 0, simplified]
  have "from_be_bytes (to_be_bytes w) =
      push_bit 8 (push_bit 8 (push_bit 8 (take_bit 8 (drop_bit 24 w)) OR take_bit 8 (drop_bit 16 w)) OR take_bit 8 (drop_bit 8 w)) OR take_bit 8 w"
    by (simp add: from_be_bytes_def to_be_bytes_def of_char_byte byte)
  also have "\<dots> = w"
  proof (rule bit_word_eqI)
    fix n assume "n < LENGTH(32)"
    then consider "n < 8" | "8 \<le> n" "n < 16" | "16 \<le> n" "n < 24" | "24 \<le> n" "n < 32" by fastforce
    then show "bit (push_bit 8 (push_bit 8 (push_bit 8 (take_bit 8 (drop_bit 24 w)) OR take_bit 8 (drop_bit 16 w)) OR take_bit 8 (drop_bit 8 w)) OR
        take_bit 8 w) n = bit w n"
      by cases (auto simp: bit_or_iff bit_push_bit_iff bit_take_bit_iff bit_drop_bit_eq)
  qed
  finally show ?thesis .
qed

lemma frame_call_length:
  "from_be_bytes (take 4 (frame_call bs)) = of_nat (length bs)" "drop 4 (frame_call bs) = bs"
proof -
  have "length (to_be_bytes w) = 4" for w by (simp add: to_be_bytes_def)
  then show "from_be_bytes (take 4 (frame_call bs)) = of_nat (length bs)" "drop 4 (frame_call bs) = bs"
    by (simp_all add: frame_call_def from_to_be_bytes)
qed

end
