(* ===== verification/AgentTypes.thy ===== *)
theory AgentTypes
  imports Proto
begin

text \<open>
  The JSON forms of the agent's messages (\<open>agent/crates/fleet-client/src/types.rs\<close>): what the derived \<open>Serialize\<close> makes of
  each struct, and what the derived \<open>Deserialize\<close> reads. The structs have the fields of those of \<open>sdk/proto/fleet.proto\<close> and use
  their records; only \<open>AgentEvent\<close> is still sent in this form.
\<close>

section \<open>Reading fields\<close>

text \<open>A struct is read from an object, whose other keys are ignored, or from an array with exactly its fields in order. A missing
  field and \<open>null\<close> are both \<open>None\<close> for an optional field.\<close>

definition struct_fields :: "string list \<Rightarrow> json \<Rightarrow> json option list option" where
  "struct_fields names v = (case v of
     JObject kvs \<Rightarrow> Some (map (map_of kvs) names)
   | JArray vs \<Rightarrow> if length vs = length names then Some (map Some vs) else None
   | _ \<Rightarrow> None)"

definition req_field :: "(json \<Rightarrow> 'a option) \<Rightarrow> json option \<Rightarrow> 'a option" where
  "req_field de f = Option.bind f de"

definition opt_field :: "(json \<Rightarrow> 'a option) \<Rightarrow> json option \<Rightarrow> 'a option option" where
  "opt_field de f = (case f of
     None \<Rightarrow> Some None
   | Some JNull \<Rightarrow> Some None
   | Some v \<Rightarrow> map_option Some (de v))"

fun de_bool :: "json \<Rightarrow> bool option" where
  "de_bool (JBool b) = Some b"
| "de_bool _ = None"

definition is_i32 :: "int \<Rightarrow> bool" where
  "is_i32 n \<longleftrightarrow> - (2 ^ 31) \<le> n \<and> n < 2 ^ 31"

fun de_i32 :: "json \<Rightarrow> int option" where
  "de_i32 (JInt n) = (if is_i32 n then Some n else None)"
| "de_i32 _ = None"

fun de_list :: "(json \<Rightarrow> 'a option) \<Rightarrow> json \<Rightarrow> 'a list option" where
  "de_list de (JArray vs) = those (map de vs)"
| "de_list de _ = None"

definition null_or :: "('a \<Rightarrow> json) \<Rightarrow> 'a option \<Rightarrow> json" where
  "null_or ser x = (case x of None \<Rightarrow> JNull | Some a \<Rightarrow> ser a)"

section \<open>The messages\<close>

definition schedule_json :: "osquery_schedule \<Rightarrow> json" where
  "schedule_json s = JObject
     [(''name'', JString (os_name s)), (''query'', JString (os_query s)), (''interval_secs'', JInt (os_interval_secs s))]"

definition schedule_of_json :: "json \<Rightarrow> osquery_schedule option" where
  "schedule_of_json v = (case struct_fields [''name'', ''query'', ''interval_secs''] v of
     Some [n, q, i] \<Rightarrow>
       Option.bind (req_field as_str n) (\<lambda>n. Option.bind (req_field as_str q) (\<lambda>q. Option.bind (req_field de_i32 i) (\<lambda>i.
         Some \<lparr>os_name = n, os_query = q, os_interval_secs = i\<rparr>)))
   | _ \<Rightarrow> None)"

definition config_json :: "proto_agent_config \<Rightarrow> json" where
  "config_json c = JObject
     [(''osquery_schedule'', JArray (map schedule_json (pac_osquery_schedule c))),
      (''heartbeat_interval_secs'', JInt (pac_heartbeat_interval_secs c)), (''batch_size'', JInt (pac_batch_size c))]"

definition config_of_json :: "json \<Rightarrow> proto_agent_config option" where
  "config_of_json v = (case struct_fields [''osquery_schedule'', ''heartbeat_interval_secs'', ''batch_size''] v of
     Some [s, h, b] \<Rightarrow>
       Option.bind (req_field (de_list schedule_of_json) s) (\<lambda>s. Option.bind (req_field de_i32 h) (\<lambda>h. Option.bind (req_field de_i32 b) (\<lambda>b.
         Some \<lparr>pac_osquery_schedule = s, pac_heartbeat_interval_secs = h, pac_batch_size = b\<rparr>)))
   | _ \<Rightarrow> None)"

definition register_request_json :: "register_request \<Rightarrow> json" where
  "register_request_json r = JObject
     [(''hostname'', JString (rq_hostname r)), (''os_version'', JString (rq_os_version r)),
      (''agent_version'', JString (rq_agent_version r)), (''machine_id'', JString (rq_machine_id r))]"

definition register_request_of_json :: "json \<Rightarrow> register_request option" where
  "register_request_of_json v = (case struct_fields [''hostname'', ''os_version'', ''agent_version'', ''machine_id''] v of
     Some [h, os, a, m] \<Rightarrow>
       Option.bind (req_field as_str h) (\<lambda>h. Option.bind (req_field as_str os) (\<lambda>os.
         Option.bind (req_field as_str a) (\<lambda>a. Option.bind (req_field as_str m) (\<lambda>m.
           Some \<lparr>rq_hostname = h, rq_os_version = os, rq_agent_version = a, rq_machine_id = m\<rparr>))))
   | _ \<Rightarrow> None)"

definition register_response_json :: "register_response \<Rightarrow> json" where
  "register_response_json r = JObject
     [(''node_id'', JString (rs_node_id r)), (''token'', JString (rs_token r)), (''config'', null_or config_json (rs_config r))]"

definition register_response_of_json :: "json \<Rightarrow> register_response option" where
  "register_response_of_json v = (case struct_fields [''node_id'', ''token'', ''config''] v of
     Some [n, t, c] \<Rightarrow>
       Option.bind (req_field as_str n) (\<lambda>n. Option.bind (req_field as_str t) (\<lambda>t. Option.bind (opt_field config_of_json c) (\<lambda>c.
         Some \<lparr>rs_node_id = n, rs_token = t, rs_config = c\<rparr>)))
   | _ \<Rightarrow> None)"

definition agent_event_of_json :: "json \<Rightarrow> agent_event option" where
  "agent_event_of_json v = (case struct_fields [''node_id'', ''event_type'', ''payload'', ''timestamp_ns'', ''sequence_id''] v of
     Some [n, t, p, ts, i] \<Rightarrow>
       Option.bind (req_field as_str n) (\<lambda>n. Option.bind (req_field de_i32 t) (\<lambda>t. Option.bind p (\<lambda>p.
         Option.bind (req_field as_i64 ts) (\<lambda>ts. Option.bind (req_field as_str i) (\<lambda>i.
           Some \<lparr>ae_node_id = n, ae_event_type = t, ae_payload = p, ae_timestamp_ns = ts, ae_sequence_id = i\<rparr>)))))
   | _ \<Rightarrow> None)"

text \<open>A command carries its variant under \<open>type\<close>, beside the fields of the variant's struct.\<close>

fun command_json :: "command \<Rightarrow> json" where
  "command_json (Isolate c) = JObject
     [(''type'', JString ''isolate''), (''isolate'', JBool (ic_isolate c)), (''reason'', JString (ic_reason c))]"
| "command_json (ConfigUpdate c) = JObject [(''type'', JString ''config_update''), (''config'', null_or config_json c)]"
| "command_json (Ack i) = JObject [(''type'', JString ''ack''), (''sequence_id'', JString i)]"

definition command_content :: "string \<Rightarrow> json \<Rightarrow> command option" where
  "command_content t v =
     (if t = ''isolate'' then (case struct_fields [''isolate'', ''reason''] v of
        Some [i, r] \<Rightarrow> Option.bind (req_field de_bool i) (\<lambda>i. Option.bind (req_field as_str r) (\<lambda>r.
          Some (Isolate \<lparr>ic_isolate = i, ic_reason = r\<rparr>)))
      | _ \<Rightarrow> None)
      else if t = ''config_update'' then (case struct_fields [''config''] v of
        Some [c] \<Rightarrow> map_option ConfigUpdate (opt_field config_of_json c)
      | _ \<Rightarrow> None)
      else if t = ''ack'' then (case struct_fields [''sequence_id''] v of
        Some [i] \<Rightarrow> map_option Ack (req_field as_str i)
      | _ \<Rightarrow> None)
      else None)"

definition command_of_json :: "json \<Rightarrow> command option" where
  "command_of_json v = (case v of
     JObject kvs \<Rightarrow> Option.bind (get_str ''type'' v) (\<lambda>t. command_content t v)
   | JArray (JString t # vs) \<Rightarrow> command_content t (JArray vs)
   | _ \<Rightarrow> None)"

definition server_command_json :: "server_command \<Rightarrow> json" where
  "server_command_json c = JObject [(''command'', null_or command_json (sc_command c))]"

definition server_command_of_json :: "json \<Rightarrow> server_command option" where
  "server_command_of_json v = (case struct_fields [''command''] v of
     Some [c] \<Rightarrow> map_option (\<lambda>c. \<lparr>sc_command = c\<rparr>) (opt_field command_of_json c)
   | _ \<Rightarrow> None)"

definition heartbeat_request_json :: "heartbeat_request \<Rightarrow> json" where
  "heartbeat_request_json r = JObject
     [(''node_id'', JString (hr_node_id r)), (''status'', JString (hr_status r)),
      (''events_buffered'', JInt (sint (hr_events_buffered r)))]"

definition heartbeat_request_of_json :: "json \<Rightarrow> heartbeat_request option" where
  "heartbeat_request_of_json v = (case struct_fields [''node_id'', ''status'', ''events_buffered''] v of
     Some [n, s, b] \<Rightarrow>
       Option.bind (req_field as_str n) (\<lambda>n. Option.bind (req_field as_str s) (\<lambda>s. Option.bind (req_field as_i64 b) (\<lambda>b.
         Some \<lparr>hr_node_id = n, hr_status = s, hr_events_buffered = word_of_int b\<rparr>)))
   | _ \<Rightarrow> None)"

definition heartbeat_response_json :: "heartbeat_response \<Rightarrow> json" where
  "heartbeat_response_json r = JObject [(''ok'', JBool (hb_ok r))]"

definition heartbeat_response_of_json :: "json \<Rightarrow> heartbeat_response option" where
  "heartbeat_response_of_json v = (case struct_fields [''ok''] v of
     Some [b] \<Rightarrow> map_option (\<lambda>b. \<lparr>hb_ok = b\<rparr>) (req_field de_bool b)
   | _ \<Rightarrow> None)"

section \<open>Round trips\<close>

text \<open>A value whose integers fit their 32 bits is read back from what it prints.\<close>

lemmas field_defs = struct_fields_def req_field_def opt_field_def null_or_def get_str_def

lemma schedule_roundtrip: "is_i32 (os_interval_secs s) \<Longrightarrow> schedule_of_json (schedule_json s) = Some s"
  by (simp add: schedule_of_json_def schedule_json_def field_defs)

definition config_i32 :: "proto_agent_config \<Rightarrow> bool" where
  "config_i32 c \<longleftrightarrow> is_i32 (pac_heartbeat_interval_secs c) \<and> is_i32 (pac_batch_size c) \<and>
     list_all (\<lambda>s. is_i32 (os_interval_secs s)) (pac_osquery_schedule c)"

lemma schedules_roundtrip:
  "list_all (\<lambda>s. is_i32 (os_interval_secs s)) ss \<Longrightarrow> those (map (schedule_of_json \<circ> schedule_json) ss) = Some ss"
  by (induction ss) (simp_all add: schedule_roundtrip)

lemma config_roundtrip: "config_i32 c \<Longrightarrow> config_of_json (config_json c) = Some c"
  by (simp add: config_i32_def config_of_json_def config_json_def field_defs schedules_roundtrip)

lemma opt_field_roundtrip:
  assumes "\<And>a. x = Some a \<Longrightarrow> de (ser a) = Some a \<and> ser a \<noteq> JNull"
  shows "opt_field de (Some (null_or ser x)) = Some x"
  using assms by (cases x) (auto simp: opt_field_def null_or_def split: json.splits)

lemma opt_field_config_roundtrip:
  "pred_option config_i32 c \<Longrightarrow> opt_field config_of_json (Some (null_or config_json c)) = Some c"
  by (rule opt_field_roundtrip) (auto simp: config_roundtrip, simp add: config_json_def)

lemma register_request_roundtrip: "register_request_of_json (register_request_json r) = Some r"
  by (simp add: register_request_of_json_def register_request_json_def field_defs)

lemma register_response_roundtrip:
  "pred_option config_i32 (rs_config r) \<Longrightarrow> register_response_of_json (register_response_json r) = Some r"
  by (simp add: register_response_of_json_def register_response_json_def struct_fields_def req_field_def opt_field_config_roundtrip)

lemma agent_event_roundtrip:
  "\<lbrakk>is_i32 (ae_event_type e); as_i64 (JInt (ae_timestamp_ns e)) = Some (ae_timestamp_ns e)\<rbrakk>
   \<Longrightarrow> agent_event_of_json (agent_event_json e) = Some e"
  by (simp add: agent_event_of_json_def agent_event_json_def field_defs)

fun command_i32 :: "command \<Rightarrow> bool" where
  "command_i32 (ConfigUpdate c) = pred_option config_i32 c"
| "command_i32 _ = True"

lemma command_roundtrip: "command_i32 c \<Longrightarrow> command_of_json (command_json c) = Some c"
  by (cases c) (simp_all add: command_of_json_def command_content_def get_str_def struct_fields_def req_field_def opt_field_config_roundtrip)

lemma server_command_roundtrip:
  "pred_option command_i32 (sc_command c) \<Longrightarrow> server_command_of_json (server_command_json c) = Some c"
  by (simp add: server_command_of_json_def server_command_json_def struct_fields_def)
    (subst opt_field_roundtrip, auto simp: command_roundtrip elim: command_json.elims)

lemma heartbeat_request_roundtrip: "heartbeat_request_of_json (heartbeat_request_json r) = Some r"
  using sint_lt [of "hr_events_buffered r"] sint_ge [of "hr_events_buffered r"]
  by (simp add: heartbeat_request_of_json_def heartbeat_request_json_def field_defs)

lemma heartbeat_response_roundtrip: "heartbeat_response_of_json (heartbeat_response_json r) = Some r"
  by (simp add: heartbeat_response_of_json_def heartbeat_response_json_def field_defs)

end
