(* ===== verification/AgentCodec.thy ===== *)
theory AgentCodec
  imports AgentTypes
begin

text \<open>
  The codec of the agent's fleet client (\<open>agent/crates/fleet-client/src/codec.rs\<close>) on the messages of \<open>types.rs\<close>. A type of messages is
  a \<open>Serialize\<close> \<open>ser\<close> into JSON values and a \<open>Deserialize\<close> \<open>de\<close> that reads them back; the text of a value is printed and parsed by
  \<open>serde_json\<close>, whose errors are texts. The locale \<open>wire_message\<close> is what the derived instances promise of a type; every message
  of the protocol meets it, and with a library that reads back what it prints the receiver decodes what the sender encoded.
\<close>

record json_text =
  jt_print :: "json \<Rightarrow> (string, bytes) result"
  jt_parse :: "bytes \<Rightarrow> (string, json) result"
  jt_mismatch :: "json \<Rightarrow> string"  \<comment> \<open>the error for a value that is not of the type\<close>

definition encode_message :: "json_text \<Rightarrow> ('t \<Rightarrow> json) \<Rightarrow> 't \<Rightarrow> bytes \<Rightarrow> (grpc_status, bytes) result" where
  "encode_message jt ser item dst =
     result_bind (map_err (status_of Internal) (jt_print jt (ser item))) (\<lambda>bytes. Ok (dst @ bytes))"

definition message_of_slice :: "json_text \<Rightarrow> (json \<Rightarrow> 'u option) \<Rightarrow> bytes \<Rightarrow> (string, 'u) result" where
  "message_of_slice jt de buf = result_bind (jt_parse jt buf) (\<lambda>v. ok_or (jt_mismatch jt v) (de v))"

definition decode_message :: "json_text \<Rightarrow> (json \<Rightarrow> 'u option) \<Rightarrow> bytes \<Rightarrow> (grpc_status, 'u option) result \<times> bytes" where
  "decode_message jt de src =
     (if src = [] then (Ok None, src)
      else (result_bind (map_err (status_of Internal) (message_of_slice jt de src)) (\<lambda>item. Ok (Some item)), []))"

text \<open>The agent's copy of the codec is that of the SDK.\<close>

lemma codecs_agree:
  "encode_message jt ser = codec_encode (\<lambda>item. jt_print jt (ser item))"
  "decode_message jt de = codec_decode (message_of_slice jt de)"
  by (simp_all add: fun_eq_iff encode_message_def decode_message_def codec_encode_def codec_decode_def)

definition json_text_laws :: "json_text \<Rightarrow> bool" where
  "json_text_laws jt \<longleftrightarrow> (\<forall>v b. jt_print jt v = Ok b \<longrightarrow> b \<noteq> [] \<and> jt_parse jt b = Ok v)"

locale wire_message =
  fixes ser :: "'t \<Rightarrow> json" and de :: "json \<Rightarrow> 't option" and fits :: "'t \<Rightarrow> bool"
  assumes de_ser: "fits m \<Longrightarrow> de (ser m) = Some m"
begin

lemma decode_encode:
  assumes "json_text_laws jt" "fits m" "encode_message jt ser m [] = Ok buf"
  shows "decode_message jt de buf = (Ok (Some m), [])"
proof -
  have "jt_print jt (ser m) = Ok buf" using assms(3) by (auto simp: encode_message_def result_bind_Inr_iff map_err_def split: sum.splits)
  then have "buf \<noteq> []" "jt_parse jt buf = Ok (ser m)" using assms(1) by (auto simp: json_text_laws_def)
  then show ?thesis using de_ser [OF assms(2)] by (simp add: decode_message_def message_of_slice_def ok_or_def)
qed

lemma encode_injective:
  assumes "json_text_laws jt" "fits m" "fits m'" "encode_message jt ser m [] = Ok buf" "encode_message jt ser m' [] = Ok buf"
  shows "m = m'"
  using decode_encode [OF assms(1,2,4)] decode_encode [OF assms(1,3,5)] by simp

end

interpretation wire_register_request: wire_message register_request_json register_request_of_json "\<lambda>_. True"
  by unfold_locales (rule register_request_roundtrip)

interpretation wire_register_response: wire_message register_response_json register_response_of_json "\<lambda>r. pred_option config_i32 (rs_config r)"
  by unfold_locales (rule register_response_roundtrip)

interpretation wire_event: wire_message agent_event_json agent_event_of_json
    "\<lambda>e. is_i32 (ae_event_type e) \<and> as_i64 (JInt (ae_timestamp_ns e)) = Some (ae_timestamp_ns e)"
  by unfold_locales (blast intro: agent_event_roundtrip)

interpretation wire_command: wire_message server_command_json server_command_of_json "\<lambda>c. pred_option command_i32 (sc_command c)"
  by unfold_locales (rule server_command_roundtrip)

interpretation wire_heartbeat_request: wire_message heartbeat_request_json heartbeat_request_of_json "\<lambda>_. True"
  by unfold_locales (rule heartbeat_request_roundtrip)

interpretation wire_heartbeat_response: wire_message heartbeat_response_json heartbeat_response_of_json "\<lambda>_. True"
  by unfold_locales (rule heartbeat_response_roundtrip)

text \<open>A call over the codec: what the agent registers with is what the server reads, and the command the server sends is the one
  the agent reads; an empty body is no message, and a body that is no JSON is an internal error that leaves nothing behind.\<close>

lemma call_over_codec:
  assumes "json_text_laws jt"
  shows "encode_message jt register_request_json r [] = Ok buf \<Longrightarrow> decode_message jt register_request_of_json buf = (Ok (Some r), [])"
    and "pred_option command_i32 (sc_command c) \<Longrightarrow> encode_message jt server_command_json c [] = Ok buf \<Longrightarrow>
      decode_message jt server_command_of_json buf = (Ok (Some c), [])"
    and "decode_message jt de [] = (Ok None, [])"
    and "jt_parse jt (b # bs) = Inl e \<Longrightarrow> decode_message jt de (b # bs) = (Err (status_of Internal e), [])"
  using assms wire_register_request.decode_encode wire_command.decode_encode
  by (simp_all add: decode_message_def message_of_slice_def)

end
