(* ===== verification/FleetModules.thy ===== *)
theory FleetModules
  imports AgentCodec
begin

text \<open>
  The modules of the agent's fleet client that its \<open>lib.rs\<close> no longer declares: \<open>connection.rs\<close>, \<open>enrollment.rs\<close>, \<open>stream.rs\<close> and
  \<open>heartbeat.rs\<close> (\<open>agent/crates/fleet-client/src\<close>), written against the JSON codec. Nothing calls them; what they do is kept here
  beside what replaced them (\<open>FleetClient\<close>). The transport, the calls and the metadata check are inputs.
\<close>

section \<open>connection.rs\<close>

datatype connection_state = Connected | Reconnecting | Disconnected

text \<open>The states are all values the watch channel was given, the newest last; a send that finds no receiver is ignored.\<close>

record 'c fleet_connection =
  cx_channel :: "'c option"
  cx_endpoint :: string
  cx_states :: "connection_state list"

definition connection_new :: "string \<Rightarrow> 'c fleet_connection" where
  "connection_new endpoint = \<lparr>cx_channel = None, cx_endpoint = endpoint, cx_states = [Disconnected]\<rparr>"

definition max_backoff :: nat where "max_backoff = 60"

text \<open>One turn of the loop: \<open>valid\<close> says whether the endpoint parses, the answer is the transport's. It gives the channel when the loop
  returns.\<close>

definition connect_turn :: "(string \<Rightarrow> bool) \<Rightarrow> (string, 'c) result \<Rightarrow> 'c fleet_connection \<Rightarrow> 'c option \<times> 'c fleet_connection" where
  "connect_turn valid answer c =
     (let c1 = c\<lparr>cx_states := cx_states c @ [Reconnecting]\<rparr> in
      if \<not> valid (cx_endpoint c) then (None, c1)
      else case answer of
        Inl e \<Rightarrow> (None, c1)
      | Inr ch \<Rightarrow> (Some ch, c1\<lparr>cx_states := cx_states c1 @ [Connected], cx_channel := Some ch\<rparr>))"

text \<open>The loop over the answers of the transport, one per turn, with the seconds slept between them: \<open>None\<close> when it still retries
  after the last of them.\<close>

fun connect_turns :: "(string \<Rightarrow> bool) \<Rightarrow> nat \<Rightarrow> (string, 'c) result list \<Rightarrow> 'c fleet_connection
    \<Rightarrow> ('c \<times> 'c fleet_connection \<times> nat list) option" where
  "connect_turns valid backoff [] c = None"
| "connect_turns valid backoff (answer # answers) c =
     (case connect_turn valid answer c of
        (Some ch, c1) \<Rightarrow> Some (ch, c1, [])
      | (None, c1) \<Rightarrow> map_option (\<lambda>(ch, c2, slept). (ch, c2, backoff # slept))
                       (connect_turns valid (min (backoff * 2) max_backoff) answers c1))"

definition connection_connect :: "(string \<Rightarrow> bool) \<Rightarrow> (string, 'c) result list \<Rightarrow> 'c fleet_connection
    \<Rightarrow> ('c \<times> 'c fleet_connection \<times> nat list) option" where
  "connection_connect valid answers c = connect_turns valid 1 answers c"

section \<open>enrollment.rs\<close>

record enrollment_result =
  er_node_id :: string
  er_token :: string
  er_config :: "proto_agent_config option"

definition agent_enroll :: "(register_request \<Rightarrow> (grpc_status, register_response) result) \<Rightarrow> register_request
    \<Rightarrow> (grpc_status, enrollment_result) result" where
  "agent_enroll unary request = result_bind (unary request) (\<lambda>res.
     Ok \<lparr>er_node_id = rs_node_id res, er_token = rs_token res, er_config = rs_config res\<rparr>)"

section \<open>stream.rs\<close>

definition bearer :: "string \<Rightarrow> string" where
  "bearer token = ''Bearer '' @ token"

datatype stream_error = BadToken | StreamRefused grpc_status

text \<open>The header the call is made with; the answer is that of \<open>streaming\<close>.\<close>

definition stream_start :: "(string \<Rightarrow> bool) \<Rightarrow> (metadata \<Rightarrow> (grpc_status, 's) result) \<Rightarrow> string \<Rightarrow> (stream_error, 's) result" where
  "stream_start legal streaming token =
     (if legal (bearer token) then map_err StreamRefused (streaming [(''authorization'', bearer token)]) else Err BadToken)"

text \<open>The spawned task over the messages of the stream, each with whether the receiver still listens: the commands it delivers.\<close>

fun stream_pump :: "((grpc_status, server_command option) result \<times> bool) list \<Rightarrow> server_command list" where
  "stream_pump [] = []"
| "stream_pump ((m, listening) # ms) = (case m of
     Inr (Some cmd) \<Rightarrow> if listening then cmd # stream_pump ms else []
   | _ \<Rightarrow> [])"

section \<open>heartbeat.rs\<close>

text \<open>A tick: the request and its metadata, whatever the answer, which is only logged.\<close>

definition unary_heartbeat :: "(string \<Rightarrow> bool) \<Rightarrow> string \<Rightarrow> string \<Rightarrow> metadata \<times> heartbeat_request" where
  "unary_heartbeat legal token node_id =
     (if legal (bearer token) then [(''authorization'', bearer token)] else [],
      \<lparr>hr_node_id = node_id, hr_status = ''healthy'', hr_events_buffered = 0\<rparr>)"

text \<open>\<open>start\<close> panics on a zero interval (\<open>Err\<close>); otherwise what the task has sent after so many ticks.\<close>

definition heartbeat_start :: "(string \<Rightarrow> bool) \<Rightarrow> string \<Rightarrow> string \<Rightarrow> nat \<Rightarrow> nat \<Rightarrow> (string, (metadata \<times> heartbeat_request) list) result" where
  "heartbeat_start legal token node_id interval_secs ticks =
     (if interval_secs = 0 then Err ''`period` must be non-zero.'' else Ok (replicate ticks (unary_heartbeat legal token node_id)))"

section \<open>Lemmas\<close>

definition is_channel :: "(string, 'c) result \<Rightarrow> bool" where
  "is_channel r \<longleftrightarrow> (case r of Inl _ \<Rightarrow> False | Inr _ \<Rightarrow> True)"

lemma connect_turn_endpoint [simp]: "cx_endpoint (snd (connect_turn valid answer c)) = cx_endpoint c"
  by (simp add: connect_turn_def Let_def split: sum.splits)

lemma connect_turn_None_iff: "fst (connect_turn valid answer c) = None \<longleftrightarrow> \<not> valid (cx_endpoint c) \<or> \<not> is_channel answer"
  by (simp add: connect_turn_def Let_def is_channel_def split: sum.splits)

text \<open>The loop returns exactly when the endpoint parses and some answer is a channel: an endpoint that does not parse is retried for
  ever.\<close>

lemma connect_turns_returns_iff:
  "connect_turns valid backoff answers c \<noteq> None \<longleftrightarrow> valid (cx_endpoint c) \<and> list_ex is_channel answers"
proof (induction answers arbitrary: backoff c)
  case (Cons a answers)
  show ?case
    using Cons.IH [of "min (backoff * 2) max_backoff" "snd (connect_turn valid a c)"] connect_turn_None_iff [of valid a c]
    by (auto split: prod.splits option.splits)
qed simp

lemma connection_connect_returns_iff:
  "(\<exists>r. connection_connect valid answers c = Some r) \<longleftrightarrow> valid (cx_endpoint c) \<and> list_ex is_channel answers"
  using connect_turns_returns_iff [of valid 1 answers c] by (simp add: connection_connect_def)

text \<open>The waits double from one second to a minute.\<close>

fun doubling :: "nat \<Rightarrow> nat \<Rightarrow> nat list" where
  "doubling backoff 0 = []"
| "doubling backoff (Suc n) = backoff # doubling (min (backoff * 2) max_backoff) n"

lemma connect_turns_waits:
  "connect_turns valid backoff answers c = Some (ch, c', slept) \<Longrightarrow>
   slept = doubling backoff (length slept) \<and> cx_channel c' = Some ch \<and> last (cx_states c') = Connected \<and>
   length slept < length answers \<and> answers ! length slept = Inr ch"
proof (induction answers arbitrary: backoff c slept)
  case (Cons a answers)
  obtain r c1 where turn: "connect_turn valid a c = (r, c1)" by force
  show ?case
  proof (cases r)
    case None
    then show ?thesis using Cons turn by (auto split: option.splits)
  next
    case (Some ch')
    then have "a = Inr ch'" "cx_channel c1 = Some ch'" "last (cx_states c1) = Connected"
      using turn by (auto simp: connect_turn_def Let_def split: if_splits sum.splits)
    then show ?thesis using Cons.prems turn Some by simp
  qed
qed simp

lemma nth_doubling: "0 < b \<Longrightarrow> b \<le> max_backoff \<Longrightarrow> i < n \<Longrightarrow> doubling b n ! i = min (b * 2 ^ i) max_backoff"
proof (induction n arbitrary: b i)
  case (Suc n)
  show ?case
  proof (cases i)
    case (Suc j)
    have "doubling (min (b * 2) max_backoff) n ! j = min (min (b * 2) max_backoff * 2 ^ j) max_backoff"
      using Suc Suc.prems by (intro Suc.IH) (auto simp: max_backoff_def)
    also have "\<dots> = min (b * 2 ^ Suc j) max_backoff"
    proof (cases "b * 2 \<le> max_backoff")
      case False
      have "max_backoff * 1 \<le> max_backoff * 2 ^ j" "b * 2 * 1 \<le> b * 2 * 2 ^ j"
        by (rule mult_le_mono2, simp)+
      then have "max_backoff \<le> max_backoff * 2 ^ j" "max_backoff \<le> b * 2 * 2 ^ j" using False by linarith+
      then show ?thesis using False by (simp add: min_absorb2 mult.assoc)
    qed (simp add: min_def mult.assoc)
    finally show ?thesis using Suc by simp
  qed (use Suc.prems in \<open>simp add: min_def\<close>)
qed simp

lemma connection_waits:
  assumes "connection_connect valid answers c = Some (ch, c', slept)" and "i < length slept"
  shows "slept ! i = min (2 ^ i) 60"
proof -
  have "slept = doubling 1 (length slept)" using assms(1) connect_turns_waits [of valid 1 answers c ch c' slept] by (simp add: connection_connect_def)
  then have "slept ! i = doubling 1 (length slept) ! i" by simp
  also have "\<dots> = min (1 * 2 ^ i) max_backoff" using assms(2) by (intro nth_doubling) (simp_all add: max_backoff_def)
  finally show ?thesis by (simp add: max_backoff_def)
qed

text \<open>The commands delivered are those of the stream, in order, up to the first failure, end or lost receiver.\<close>

lemma stream_pump_prefix:
  "\<exists>n. map (\<lambda>c. (Inr (Some c), True)) (stream_pump ms) = take n ms"
proof (induction ms rule: stream_pump.induct)
  case (2 m listening ms)
  show ?case
  proof (cases "\<exists>cmd. m = Inr (Some cmd) \<and> listening")
    case True
    then obtain cmd n where "m = Inr (Some cmd)" listening "map (\<lambda>c. (Inr (Some c), True)) (stream_pump ms) = take n ms"
      using 2 by auto
    then show ?thesis by (intro exI [of _ "Suc n"]) simp
  next
    case False
    then have "stream_pump ((m, listening) # ms) = []" by (auto split: sum.splits option.splits)
    then show ?thesis by (intro exI [of _ 0]) simp
  qed
qed simp

text \<open>A heartbeat always claims to be healthy with nothing buffered, also without a usable token.\<close>

lemma heartbeat_start_requests:
  "heartbeat_start legal token node_id interval_secs ticks = Ok sent \<Longrightarrow>
   \<forall>x \<in> set sent. snd x = \<lparr>hr_node_id = node_id, hr_status = ''healthy'', hr_events_buffered = 0\<rparr> \<and>
     (\<not> legal (bearer token) \<longrightarrow> fst x = [])"
  by (auto simp: heartbeat_start_def unary_heartbeat_def split: if_splits)

end
