(* ===== verification/FleetStore.thy ===== *)
theory FleetStore
  imports Prelude
begin

text \<open>
  The fleet server's database, \<open>fleet-server/crates/postgres-interface/src\<close>: the tables of
  \<open>schema.rs\<close> with the keys of \<open>fleet-server/migrations\<close>, and the two stores on them, \<open>PgNodeStore\<close>
  (\<open>node_store.rs\<close>) and \<open>PgHealthStore\<close> (\<open>health_store.rs\<close>).

  A table is the list of its rows. An insert that breaks a primary key, a unique key or a foreign
  key is an error, and an error inside a transaction leaves the database as it was. Which statement
  fails for other reasons, the fresh UUIDs and the clocks are arguments.

  The traits \<open>NodeStore\<close> (\<open>node-enrollment/src/store.rs\<close>) and \<open>HealthStore\<close>
  (\<open>health-tracker/src/store.rs\<close>) are the locales \<open>node_store\<close> and \<open>health_store\<close>, with what their
  documentation promises as assumptions; they are interpreted on the two stores.
\<close>

section \<open>Tables\<close>

record node_row =
  nd_node_id :: uuid
  nd_machine_id :: string
  nd_hostname :: string
  nd_os_version :: string
  nd_agent_version :: string
  nd_agent_status :: string
  nd_operator_status :: string
  nd_first_seen_at :: timestamp
  nd_last_enrolled_at :: timestamp

record health_row =
  nh_health_id :: uuid
  nh_node_id :: uuid
  nh_agent_status :: string
  nh_events_buffered :: i64
  nh_recorded_at :: timestamp

record enrollment_row =
  ee_event_id :: uuid
  ee_node_id :: uuid
  ee_event_type :: string
  ee_hostname :: string
  ee_os_version :: string
  ee_agent_version :: string
  ee_enrolled_at :: timestamp

record fleet_db =
  db_nodes :: "node_row list"
  db_node_health :: "health_row list"
  db_enrollment_events :: "enrollment_row list"

text \<open>The errors of the pool and of the statements; \<open>Store\<close> carries their text to the caller.\<close>

datatype sql_stmt = SelectNode | InsertNode | UpdateNode | InsertAudit | InsertHealth | CommitDb

datatype pg_error = PoolError | QueryError sql_stmt | UniqueViolation | ForeignKeyViolation

datatype store_error = StorePg pg_error | StoreInvalidUuid string

section \<open>The node store\<close>

record node_record =
  nr_hostname :: string
  nr_os_version :: string
  nr_agent_version :: string
  nr_machine_id :: string

record upsert_env =
  ue_pool_ok :: bool
  ue_fault :: "sql_stmt option"
  ue_node_id :: uuid  \<comment> \<open>\<open>Uuid::new_v4()\<close> for a new node\<close>
  ue_event_id :: uuid  \<comment> \<open>\<open>Uuid::new_v4()\<close> for the audit row\<close>
  ue_now :: timestamp

definition find_node :: "string \<Rightarrow> fleet_db \<Rightarrow> uuid option" where
  "find_node machine_id db = map_option nd_node_id (find (\<lambda>n. nd_machine_id n = machine_id) (db_nodes db))"

definition insert_node :: "upsert_env \<Rightarrow> node_record \<Rightarrow> fleet_db \<Rightarrow> (pg_error, fleet_db) result" where
  "insert_node env r db =
     (if ue_fault env = Some InsertNode then Err (QueryError InsertNode)
      else if \<exists>n \<in> set (db_nodes db). nd_node_id n = ue_node_id env \<or> nd_machine_id n = nr_machine_id r
      then Err UniqueViolation
      else Ok (db\<lparr>db_nodes := db_nodes db @
        [\<lparr>nd_node_id = ue_node_id env, nd_machine_id = nr_machine_id r, nd_hostname = nr_hostname r,
          nd_os_version = nr_os_version r, nd_agent_version = nr_agent_version r,
          nd_agent_status = ''healthy'', nd_operator_status = ''active'',
          nd_first_seen_at = ue_now env, nd_last_enrolled_at = ue_now env\<rparr>]\<rparr>))"

definition update_node :: "upsert_env \<Rightarrow> node_record \<Rightarrow> uuid \<Rightarrow> fleet_db \<Rightarrow> (pg_error, fleet_db) result" where
  "update_node env r node_id db =
     (if ue_fault env = Some UpdateNode then Err (QueryError UpdateNode)
      else Ok (db\<lparr>db_nodes := map (\<lambda>n. if nd_node_id n = node_id
        then n\<lparr>nd_hostname := nr_hostname r, nd_os_version := nr_os_version r,
               nd_agent_version := nr_agent_version r, nd_last_enrolled_at := ue_now env\<rparr>
        else n) (db_nodes db)\<rparr>))"

definition audit_row :: "upsert_env \<Rightarrow> node_record \<Rightarrow> uuid \<Rightarrow> string \<Rightarrow> enrollment_row" where
  "audit_row env r node_id event_type =
     \<lparr>ee_event_id = ue_event_id env, ee_node_id = node_id, ee_event_type = event_type,
      ee_hostname = nr_hostname r, ee_os_version = nr_os_version r,
      ee_agent_version = nr_agent_version r, ee_enrolled_at = ue_now env\<rparr>"

definition insert_audit :: "upsert_env \<Rightarrow> node_record \<Rightarrow> uuid \<Rightarrow> string \<Rightarrow> fleet_db \<Rightarrow> (pg_error, fleet_db) result" where
  "insert_audit env r node_id event_type db =
     (if ue_fault env = Some InsertAudit then Err (QueryError InsertAudit)
      else if \<exists>e \<in> set (db_enrollment_events db). ee_event_id e = ue_event_id env then Err UniqueViolation
      else if \<not> (\<exists>n \<in> set (db_nodes db). nd_node_id n = node_id) then Err ForeignKeyViolation
      else Ok (db\<lparr>db_enrollment_events := db_enrollment_events db @ [audit_row env r node_id event_type]\<rparr>))"

text \<open>What the transaction does after its lookup. Under PostgreSQL's default isolation the lookup
  may have run on an earlier state than the writes: \<open>existing\<close> is what it gave.\<close>

definition upsert_write :: "upsert_env \<Rightarrow> node_record \<Rightarrow> uuid option \<Rightarrow> fleet_db \<Rightarrow> (pg_error, uuid \<times> fleet_db) result" where
  "upsert_write env r existing db =
     result_bind
       (case existing of
          None \<Rightarrow> result_bind (insert_node env r db) (\<lambda>db1. Ok (ue_node_id env, ''new_enrollment'', db1))
        | Some node_id \<Rightarrow> result_bind (update_node env r node_id db) (\<lambda>db1. Ok (node_id, ''re_enrollment'', db1)))
       (\<lambda>(node_id, event_type, db1).
          result_bind (insert_audit env r node_id event_type db1) (\<lambda>db2.
            if ue_fault env = Some CommitDb then Err (QueryError CommitDb) else Ok (node_id, db2)))"

definition upsert_node :: "(uuid \<Rightarrow> string) \<Rightarrow> upsert_env \<Rightarrow> node_record \<Rightarrow> fleet_db
    \<Rightarrow> (store_error, string) result \<times> fleet_db" where
  "upsert_node uuid_str env r db =
     (if \<not> ue_pool_ok env then (Err (StorePg PoolError), db)
      else if ue_fault env = Some SelectNode then (Err (StorePg (QueryError SelectNode)), db)
      else case upsert_write env r (find_node (nr_machine_id r) db) db of
        Inl e \<Rightarrow> (Err (StorePg e), db)
      | Inr (node_id, db') \<Rightarrow> (Ok (uuid_str node_id), db'))"

section \<open>The health store\<close>

record heartbeat_record =
  hbr_node_id :: string
  hbr_agent_status :: string
  hbr_events_buffered :: i64
  hbr_recorded_at :: timestamp

record health_env =
  he_pool_ok :: bool
  he_fault :: "sql_stmt option"
  he_health_id :: uuid

definition store_heartbeat :: "(string \<Rightarrow> uuid option) \<Rightarrow> health_env \<Rightarrow> heartbeat_record \<Rightarrow> fleet_db
    \<Rightarrow> (store_error, unit) result \<times> fleet_db" where
  "store_heartbeat uuid_parse env r db =
     (case uuid_parse (hbr_node_id r) of
        None \<Rightarrow> (Err (StoreInvalidUuid (hbr_node_id r)), db)
      | Some node_id \<Rightarrow>
          if \<not> he_pool_ok env then (Err (StorePg PoolError), db)
          else if he_fault env = Some InsertHealth then (Err (StorePg (QueryError InsertHealth)), db)
          else if \<exists>h \<in> set (db_node_health db). nh_health_id h = he_health_id env then (Err (StorePg UniqueViolation), db)
          else if \<not> (\<exists>n \<in> set (db_nodes db). nd_node_id n = node_id) then (Err (StorePg ForeignKeyViolation), db)
          else
            let db1 = db\<lparr>db_node_health := db_node_health db @
                  [\<lparr>nh_health_id = he_health_id env, nh_node_id = node_id, nh_agent_status = hbr_agent_status r,
                    nh_events_buffered = hbr_events_buffered r, nh_recorded_at = hbr_recorded_at r\<rparr>]\<rparr>
            in if he_fault env = Some UpdateNode then (Err (StorePg (QueryError UpdateNode)), db)
               else if he_fault env = Some CommitDb then (Err (StorePg (QueryError CommitDb)), db)
               else (Ok (), db1\<lparr>db_nodes := map (\<lambda>n. if nd_node_id n = node_id
                      then n\<lparr>nd_agent_status := hbr_agent_status r\<rparr> else n) (db_nodes db1)\<rparr>))"

section \<open>The traits\<close>

text \<open>\<open>node_of s m\<close> is the id of the node with machine id \<open>m\<close>, \<open>audits\<close> counts the audit rows.\<close>

locale node_store =
  fixes inv :: "'s \<Rightarrow> bool"
    and node_of :: "'s \<Rightarrow> string \<Rightarrow> string option"
    and audits :: "'s \<Rightarrow> nat"
    and upsert :: "'e \<Rightarrow> node_record \<Rightarrow> 's \<Rightarrow> (store_error, string) result \<times> 's"
  assumes upsert_inv: "inv s \<Longrightarrow> inv (snd (upsert e r s))"
    and upsert_ok: "inv s \<Longrightarrow> upsert e r s = (Ok i, s') \<Longrightarrow> node_of s' (nr_machine_id r) = Some i"
    and upsert_keeps: "inv s \<Longrightarrow> upsert e r s = (res, s') \<Longrightarrow> node_of s m = Some i \<Longrightarrow> node_of s' m = Some i"
    and upsert_err: "upsert e r s = (Err x, s') \<Longrightarrow> s' = s"
    and upsert_audit: "upsert e r s = (Ok i, s') \<Longrightarrow> audits s' = Suc (audits s)"
begin

lemma upsert_stable:
  assumes "inv s" "node_of s (nr_machine_id r) = Some i" "upsert e r s = (Ok j, s')"
  shows "j = i"
  using upsert_ok [OF assms(1,3)] upsert_keeps [OF assms(1,3,2)] by simp

text \<open>Any sequence of upserts.\<close>

fun upserts :: "('e \<times> node_record) list \<Rightarrow> 's \<Rightarrow> 's" where
  "upserts [] s = s"
| "upserts ((e, r) # xs) s = upserts xs (snd (upsert e r s))"

lemma upserts_inv: "inv s \<Longrightarrow> inv (upserts xs s)"
  by (induction xs s rule: upserts.induct) (simp_all add: upsert_inv)

lemma upserts_keep: "inv s \<Longrightarrow> node_of s m = Some i \<Longrightarrow> node_of (upserts xs s) m = Some i"
proof (induction xs s rule: upserts.induct)
  case (1 s)
  then show ?case by simp
next
  case (2 e r xs s)
  then show ?case
    using upsert_keeps [of s e r "fst (upsert e r s)" "snd (upsert e r s)" m i] by (simp add: upsert_inv)
qed

lemma upserts_audits_mono: "audits s \<le> audits (upserts xs s)"
proof (induction xs s rule: upserts.induct)
  case (1 s)
  then show ?case by simp
next
  case (2 e r xs s)
  obtain x s' where u: "upsert e r s = (x, s')" by fastforce
  then have "audits s \<le> audits s'"
    using upsert_err upsert_audit by (cases x) fastforce+
  then show ?case using 2 u by simp
qed

end

text \<open>\<open>operator_of\<close> reads what only operators may write, \<open>agent_of\<close> the status the agent reported.\<close>

locale health_store =
  fixes inv :: "'s \<Rightarrow> bool"
    and operator_of :: "'s \<Rightarrow> string \<Rightarrow> string option"
    and agent_of :: "'s \<Rightarrow> string \<Rightarrow> string option"
    and beats :: "'s \<Rightarrow> string list"
    and record_beat :: "'e \<Rightarrow> heartbeat_record \<Rightarrow> 's \<Rightarrow> (store_error, unit) result \<times> 's"
  assumes record_inv: "inv s \<Longrightarrow> inv (snd (record_beat e r s))"
    and record_operator: "inv s \<Longrightarrow> operator_of (snd (record_beat e r s)) = operator_of s"
    and record_err: "record_beat e r s = (Err x, s') \<Longrightarrow> s' = s"
    and record_beats: "record_beat e r s = (Ok u, s') \<Longrightarrow> beats s' = beats s @ [hbr_agent_status r]"
    and record_agent: "inv s \<Longrightarrow> record_beat e r s = (res, s') \<Longrightarrow> agent_of s' n \<noteq> agent_of s n \<Longrightarrow>
          agent_of s' n = Some (hbr_agent_status r)"

section \<open>The stores implement the traits\<close>

definition db_inv :: "fleet_db \<Rightarrow> bool" where
  "db_inv db \<longleftrightarrow>
     distinct (map nd_node_id (db_nodes db)) \<and> distinct (map nd_machine_id (db_nodes db)) \<and>
     distinct (map ee_event_id (db_enrollment_events db)) \<and> distinct (map nh_health_id (db_node_health db)) \<and>
     ee_node_id ` set (db_enrollment_events db) \<subseteq> nd_node_id ` set (db_nodes db) \<and>
     nh_node_id ` set (db_node_health db) \<subseteq> nd_node_id ` set (db_nodes db)"

definition machine_row :: "fleet_db \<Rightarrow> string \<Rightarrow> node_row option" where
  "machine_row db m = find (\<lambda>n. nd_machine_id n = m) (db_nodes db)"

definition pg_node_of :: "(uuid \<Rightarrow> string) \<Rightarrow> fleet_db \<Rightarrow> string \<Rightarrow> string option" where
  "pg_node_of uuid_str db m = map_option uuid_str (find_node m db)"

definition pg_audits :: "fleet_db \<Rightarrow> nat" where
  "pg_audits db = length (db_enrollment_events db)"

definition pg_operator_of :: "fleet_db \<Rightarrow> string \<Rightarrow> string option" where
  "pg_operator_of db m = map_option nd_operator_status (machine_row db m)"

definition pg_agent_of :: "fleet_db \<Rightarrow> string \<Rightarrow> string option" where
  "pg_agent_of db m = map_option nd_agent_status (machine_row db m)"

definition pg_beats :: "fleet_db \<Rightarrow> string list" where
  "pg_beats db = map nh_agent_status (db_node_health db)"

lemma find_node_machine_row: "find_node m db = map_option nd_node_id (machine_row db m)"
  by (simp add: find_node_def machine_row_def)

lemma machine_row_unique:
  assumes "db_inv db" "n \<in> set (db_nodes db)"
  shows "machine_row db (nd_machine_id n) = Some n"
proof -
  have "distinct (map nd_machine_id ns) \<Longrightarrow> n \<in> set ns \<Longrightarrow> find (\<lambda>x. nd_machine_id x = nd_machine_id n) ns = Some n" for ns
    by (induction ns) (auto simp: image_iff)
  then show ?thesis using assms by (simp add: db_inv_def machine_row_def)
qed

lemma machine_row_map:
  assumes "\<And>n. nd_machine_id (f n) = nd_machine_id n"
  shows "machine_row (db\<lparr>db_nodes := map f (db_nodes db)\<rparr>) m = map_option f (machine_row db m)"
  using assms by (simp add: machine_row_def find_map_option)

lemma db_inv_map_nodes:
  assumes "\<And>n. nd_node_id (f n) = nd_node_id n" "\<And>n. nd_machine_id (f n) = nd_machine_id n" "db_inv db"
  shows "db_inv (db\<lparr>db_nodes := map f (db_nodes db)\<rparr>)"
proof -
  have "nd_node_id \<circ> f = nd_node_id" "nd_machine_id \<circ> f = nd_machine_id"
    using assms(1,2) by auto
  then show ?thesis using assms(3) by (simp add: db_inv_def image_comp)
qed

text \<open>The two shapes a successful upsert has.\<close>

lemma upsert_writeE:
  assumes "upsert_write env r existing db = Inr (i, db')"
  obtains (fresh) db1 where "existing = None" "i = ue_node_id env" "insert_node env r db = Inr db1"
      "insert_audit env r i ''new_enrollment'' db1 = Inr db'"
  | (again) db1 where "existing = Some i" "update_node env r i db = Inr db1"
      "insert_audit env r i ''re_enrollment'' db1 = Inr db'"
  using assms
  by (auto simp: upsert_write_def result_bind_Inr_iff split: option.splits if_splits)

lemma insert_node_ok:
  assumes "insert_node env r db = Inr db1"
  shows "db_inv db \<Longrightarrow> db_inv db1" "find_node (nr_machine_id r) db1 = Some (ue_node_id env)"
    "find_node m db = Some i \<Longrightarrow> find_node m db1 = Some i"
    "machine_row db m = Some n \<Longrightarrow> machine_row db1 m = Some n"
    "db_enrollment_events db1 = db_enrollment_events db"
proof -
  obtain row where d: "db1 = db\<lparr>db_nodes := db_nodes db @ [row]\<rparr>" "nd_node_id row = ue_node_id env"
      "nd_machine_id row = nr_machine_id r" "\<forall>n \<in> set (db_nodes db). nd_node_id n \<noteq> ue_node_id env \<and> nd_machine_id n \<noteq> nr_machine_id r"
    using assms by (auto simp: insert_node_def split: if_splits)
  show "db_inv db \<Longrightarrow> db_inv db1" using d by (auto simp: db_inv_def)
  have "find (\<lambda>n. nd_machine_id n = nr_machine_id r) (db_nodes db) = None" using d by (auto simp: find_None_iff)
  then show "find_node (nr_machine_id r) db1 = Some (ue_node_id env)"
    using d by (simp add: find_node_def find_append)
  show "find_node m db = Some i \<Longrightarrow> find_node m db1 = Some i"
    using d by (auto simp: find_node_def find_append)
  show "machine_row db m = Some n \<Longrightarrow> machine_row db1 m = Some n"
    using d by (auto simp: machine_row_def find_append)
  show "db_enrollment_events db1 = db_enrollment_events db" using d by simp
qed

lemma update_node_ok:
  assumes "update_node env r i db = Inr db1"
  shows "db_inv db \<Longrightarrow> db_inv db1" "find_node m db1 = find_node m db"
    "pg_operator_of db1 m = pg_operator_of db m" "db_enrollment_events db1 = db_enrollment_events db"
proof -
  obtain f where d: "db1 = db\<lparr>db_nodes := map f (db_nodes db)\<rparr>"
      "\<And>n. nd_node_id (f n) = nd_node_id n \<and> nd_machine_id (f n) = nd_machine_id n \<and> nd_operator_status (f n) = nd_operator_status n"
    using assms by (auto simp: update_node_def split: if_splits)
  show "db_inv db \<Longrightarrow> db_inv db1" unfolding d(1) using d(2) by (intro db_inv_map_nodes) simp_all
  have m: "machine_row db1 m = map_option f (machine_row db m)"
    unfolding d(1) using d(2) by (intro machine_row_map) simp
  show "find_node m db1 = find_node m db" "pg_operator_of db1 m = pg_operator_of db m"
    using d(2) by (auto simp: find_node_machine_row pg_operator_of_def m option.map_comp comp_def)
  show "db_enrollment_events db1 = db_enrollment_events db" using d by simp
qed

lemma insert_audit_ok:
  assumes "insert_audit env r i t db = Inr db1"
  shows "db_inv db \<Longrightarrow> db_inv db1" "db_nodes db1 = db_nodes db"
    "\<exists>row. db_enrollment_events db1 = db_enrollment_events db @ [row] \<and> ee_node_id row = i \<and> ee_event_type row = t"
proof -
  let ?row = "audit_row env r i t"
  have d: "db1 = db\<lparr>db_enrollment_events := db_enrollment_events db @ [?row]\<rparr>" "ee_node_id ?row = i"
      "ee_event_type ?row = t" "ee_event_id ?row \<notin> ee_event_id ` set (db_enrollment_events db)"
      "i \<in> nd_node_id ` set (db_nodes db)"
    using assms by (auto simp: insert_audit_def audit_row_def split: if_splits)
  show "db_inv db \<Longrightarrow> db_inv db1" using d by (simp add: db_inv_def)
  show "db_nodes db1 = db_nodes db" using d by simp
  show "\<exists>row. db_enrollment_events db1 = db_enrollment_events db @ [row] \<and> ee_node_id row = i \<and> ee_event_type row = t"
    using d by auto
qed

lemma find_node_nodes_cong: "db_nodes a = db_nodes b \<Longrightarrow> find_node m a = find_node m b"
  by (simp add: find_node_def)

text \<open>The writes after a lookup that may be out of date keep the keys; the id they return is the
  node's, provided a node the lookup found is still there.\<close>

lemma upsert_write_inv:
  assumes "db_inv db" "upsert_write env r existing db = Inr (i, db')"
  shows "db_inv db'"
  using assms(2)
proof (cases rule: upsert_writeE)
  case (fresh db1)
  then show ?thesis using insert_node_ok(1) insert_audit_ok(1) assms(1) by metis
next
  case (again db1)
  then show ?thesis using update_node_ok(1) insert_audit_ok(1) assms(1) by metis
qed

lemma upsert_write_keeps:
  assumes "upsert_write env r existing db = Inr (i, db')" "find_node m db = Some j"
  shows "find_node m db' = Some j"
  using assms(1)
proof (cases rule: upsert_writeE)
  case (fresh db1)
  then show ?thesis
    using insert_node_ok(3) [OF fresh(3) assms(2)] insert_audit_ok(2) [OF fresh(4)] by (simp add: find_node_def)
next
  case (again db1)
  then show ?thesis
    using update_node_ok(2) [OF again(2)] assms(2) insert_audit_ok(2) [OF again(3)] by (simp add: find_node_def)
qed

lemma upsert_write_id:
  assumes "upsert_write env r existing db = Inr (i, db')"
    and "\<And>j. existing = Some j \<Longrightarrow> find_node (nr_machine_id r) db = Some j"
  shows "find_node (nr_machine_id r) db' = Some i"
  using assms(1)
proof (cases rule: upsert_writeE)
  case (fresh db1)
  then show ?thesis
    using insert_node_ok(2) [OF fresh(3)] insert_audit_ok(2) [OF fresh(4)] by (simp add: find_node_def)
next
  case (again db1)
  then show ?thesis
    using upsert_write_keeps [OF assms(1)] assms(2) by blast
qed

lemma upsert_write_audit:
  assumes "upsert_write env r existing db = Inr (i, db')"
  shows "pg_audits db' = Suc (pg_audits db)"
  using assms
proof (cases rule: upsert_writeE)
  case (fresh db1)
  then show ?thesis
    using insert_node_ok(5) [OF fresh(3)] insert_audit_ok(3) [OF fresh(4)] by (auto simp: pg_audits_def)
next
  case (again db1)
  then show ?thesis
    using update_node_ok(4) [OF again(2)] insert_audit_ok(3) [OF again(3)] by (auto simp: pg_audits_def)
qed

lemma upsert_node_cases:
  obtains e where "upsert_node uuid_str env r db = (Err e, db)"
  | i db' where "upsert_write env r (find_node (nr_machine_id r) db) db = Inr (i, db')"
      "upsert_node uuid_str env r db = (Ok (uuid_str i), db')"
proof (cases "\<exists>e. upsert_node uuid_str env r db = (Err e, db)")
  case True
  then show thesis using that(1) by blast
next
  case False
  then obtain i db' where "upsert_write env r (find_node (nr_machine_id r) db) db = Inr (i, db')"
    "upsert_node uuid_str env r db = (Ok (uuid_str i), db')"
    by (auto simp: upsert_node_def split: if_splits sum.splits prod.splits)
  then show thesis by (rule that(2))
qed

interpretation pg: node_store db_inv "pg_node_of uuid_str" pg_audits "upsert_node uuid_str" for uuid_str
proof
  fix s s' e r x res i m
  note cs = upsert_node_cases [of uuid_str e r s]
  show "db_inv s \<Longrightarrow> db_inv (snd (upsert_node uuid_str e r s))"
    by (rule cs) (auto intro: upsert_write_inv)
  show "upsert_node uuid_str e r s = (Err x, s') \<Longrightarrow> s' = s"
    by (rule cs) auto
  show "upsert_node uuid_str e r s = (Ok i, s') \<Longrightarrow> pg_audits s' = Suc (pg_audits s)"
    by (rule cs) (auto dest: upsert_write_audit)
  show "db_inv s \<Longrightarrow> upsert_node uuid_str e r s = (Ok i, s') \<Longrightarrow> pg_node_of uuid_str s' (nr_machine_id r) = Some i"
    by (rule cs) (auto dest: upsert_write_id simp: pg_node_of_def)
  show "db_inv s \<Longrightarrow> upsert_node uuid_str e r s = (res, s') \<Longrightarrow> pg_node_of uuid_str s m = Some i \<Longrightarrow>
      pg_node_of uuid_str s' m = Some i"
    by (rule cs) (auto dest: upsert_write_keeps simp: pg_node_of_def)
qed

lemma store_heartbeat_cases:
  obtains (failed) e where "store_heartbeat uuid_parse env r db = (Err e, db)"
  | (stored) i row where "store_heartbeat uuid_parse env r db =
        (Ok (), db\<lparr>db_node_health := db_node_health db @ [row],
            db_nodes := map (\<lambda>n. if nd_node_id n = i then n\<lparr>nd_agent_status := hbr_agent_status r\<rparr> else n) (db_nodes db)\<rparr>)"
      "uuid_parse (hbr_node_id r) = Some i" "i \<in> nd_node_id ` set (db_nodes db)" "nh_node_id row = i"
      "nh_agent_status row = hbr_agent_status r" "nh_health_id row \<notin> nh_health_id ` set (db_node_health db)"
      "nh_recorded_at row = hbr_recorded_at r"
proof (cases "\<exists>e. store_heartbeat uuid_parse env r db = (Err e, db)")
  case True
  then show thesis using failed by blast
next
  case False
  then obtain i where i: "uuid_parse (hbr_node_id r) = Some i"
    by (auto simp: store_heartbeat_def split: option.splits)
  let ?row = "\<lparr>nh_health_id = he_health_id env, nh_node_id = i, nh_agent_status = hbr_agent_status r,
      nh_events_buffered = hbr_events_buffered r, nh_recorded_at = hbr_recorded_at r\<rparr>"
  show thesis
    by (rule stored [of i ?row]) (use False i in \<open>auto simp: store_heartbeat_def Let_def split: if_splits\<close>)
qed

interpretation pgh: health_store db_inv pg_operator_of pg_agent_of pg_beats "store_heartbeat uuid_parse" for uuid_parse
proof
  fix s s' e x res n and r :: heartbeat_record and u :: unit
  note cs = store_heartbeat_cases [of uuid_parse e r s]
  let ?f = "\<lambda>i (n :: node_row). if nd_node_id n = i then n\<lparr>nd_agent_status := hbr_agent_status r\<rparr> else n"
  have f: "nd_node_id (?f i n) = nd_node_id n" "nd_machine_id (?f i n) = nd_machine_id n"
    "nd_operator_status (?f i n) = nd_operator_status n" for i n by simp_all
  have h: "db_inv s \<Longrightarrow> nh_health_id row \<notin> nh_health_id ` set (db_node_health s) \<Longrightarrow>
      nh_node_id row \<in> nd_node_id ` set (db_nodes s) \<Longrightarrow>
      db_inv (s\<lparr>db_node_health := db_node_health s @ [row], db_nodes := map (?f i) (db_nodes s)\<rparr>)" for row i
    using db_inv_map_nodes [of "?f i" "s\<lparr>db_node_health := db_node_health s @ [row]\<rparr>"]
    by (simp add: db_inv_def)
  have m: "machine_row (s\<lparr>db_node_health := h, db_nodes := map (?f i) (db_nodes s)\<rparr>) k = map_option (?f i) (machine_row s k)" for i k h
    by (simp add: machine_row_def find_map_option)
  show "db_inv s \<Longrightarrow> db_inv (snd (store_heartbeat uuid_parse e r s))"
    by (rule cs) (use h in auto)
  show "pg_operator_of (snd (store_heartbeat uuid_parse e r s)) = pg_operator_of s"
    by (rule cs) (auto simp: pg_operator_of_def m fun_eq_iff option.map_comp comp_def f)
  show "store_heartbeat uuid_parse e r s = (Err x, s') \<Longrightarrow> s' = s"
    by (rule cs) auto
  show "store_heartbeat uuid_parse e r s = (Ok u, s') \<Longrightarrow> pg_beats s' = pg_beats s @ [hbr_agent_status r]"
    by (rule cs) (auto simp: pg_beats_def)
  show "store_heartbeat uuid_parse e r s = (res, s') \<Longrightarrow> pg_agent_of s' n \<noteq> pg_agent_of s n \<Longrightarrow>
      pg_agent_of s' n = Some (hbr_agent_status r)"
    by (rule cs; cases "machine_row s n") (auto simp: pg_agent_of_def m split: if_splits)
qed

section \<open>Properties\<close>

definition upsert_all :: "(uuid \<Rightarrow> string) \<Rightarrow> (upsert_env \<times> node_record) list \<Rightarrow> fleet_db \<Rightarrow> fleet_db" where
  "upsert_all uuid_str xs db = foldl (\<lambda>db (e, r). snd (upsert_node uuid_str e r db)) db xs"

lemma upsert_all_upserts: "upsert_all uuid_str xs db = pg.upserts uuid_str xs db"
  unfolding upsert_all_def by (induction xs arbitrary: db) auto

lemma upsert_node_operator:
  assumes "pg_operator_of db m = Some s"
  shows "pg_operator_of (snd (upsert_node uuid_str e r db)) m = Some s"
proof (cases rule: upsert_node_cases [of uuid_str e r db])
  case (1 x)
  then show ?thesis using assms by simp
next
  case (2 i db')
  obtain n where n: "machine_row db m = Some n" "nd_operator_status n = s"
    using assms by (auto simp: pg_operator_of_def)
  from 2(1) have "pg_operator_of db' m = Some s"
  proof (cases rule: upsert_writeE)
    case (fresh db1)
    then show ?thesis
      using insert_node_ok(4) [OF fresh(3) n(1)] insert_audit_ok(2) [OF fresh(4)] n(2)
      by (simp add: pg_operator_of_def machine_row_def)
  next
    case (again db1)
    then show ?thesis
      using update_node_ok(3) [OF again(2)] insert_audit_ok(2) [OF again(3)] assms
      by (simp add: pg_operator_of_def machine_row_def)
  qed
  then show ?thesis using 2(2) by simp
qed

definition sample_record :: "string \<Rightarrow> node_record" where
  "sample_record m = \<lparr>nr_hostname = ''h'', nr_os_version = ''os'', nr_agent_version = ''1'', nr_machine_id = m\<rparr>"

definition sample_upsert :: "uuid \<Rightarrow> upsert_env" where
  "sample_upsert u = \<lparr>ue_pool_ok = True, ue_fault = None, ue_node_id = u, ue_event_id = u + 100, ue_now = 50\<rparr>"

definition empty_db :: fleet_db where
  "empty_db = \<lparr>db_nodes = [], db_node_health = [], db_enrollment_events = []\<rparr>"

definition one_node_db :: fleet_db where
  "one_node_db = snd (upsert_node (\<lambda>_. ''u'') (sample_upsert 1) (sample_record ''m1'') empty_db)"

lemma empty_db_inv: "db_inv empty_db"
  by (simp add: db_inv_def empty_db_def)

lemma one_node_db_inv: "db_inv one_node_db"
  unfolding one_node_db_def by (rule pg.upsert_inv [OF empty_db_inv])

lemma one_node_db_eq:
  "one_node_db = \<lparr>db_nodes = [\<lparr>nd_node_id = 1, nd_machine_id = ''m1'', nd_hostname = ''h'', nd_os_version = ''os'',
       nd_agent_version = ''1'', nd_agent_status = ''healthy'', nd_operator_status = ''active'',
       nd_first_seen_at = 50, nd_last_enrolled_at = 50\<rparr>], db_node_health = [],
     db_enrollment_events = [audit_row (sample_upsert 1) (sample_record ''m1'') 1 ''new_enrollment'']\<rparr>"
  by (simp add: one_node_db_def upsert_node_def upsert_write_def find_node_def insert_node_def insert_audit_def
      sample_upsert_def sample_record_def empty_db_def)

lemma find_node_inj:
  assumes "db_inv db" "find_node m db = Some u" "find_node m' db = Some u"
  shows "m = m'"
proof -
  obtain n n' where n: "n \<in> set (db_nodes db)" "nd_machine_id n = m" "nd_node_id n = u"
    "n' \<in> set (db_nodes db)" "nd_machine_id n' = m'" "nd_node_id n' = u"
    using assms(2,3) by (auto simp: find_node_def dest!: find_SomeD)
  then have "n = n'" using assms(1) by (auto simp: db_inv_def distinct_map inj_on_def)
  with n show ?thesis by simp
qed

text \<open>C18: Node ids identify machines: once an enrollment has succeeded, then after any sequence of enrollments of any machines, failed
  ones included, a further successful enrollment returns the same id exactly when it is of the same machine; it adds one audit
  row and keeps the operator's status of every node.\<close>

theorem node_ids_identify_machines:
  assumes "db_inv db" "inj uuid_str" "upsert_node uuid_str e r db = (Ok i, db1)"
    and "upsert_node uuid_str e' r' (upsert_all uuid_str xs db1) = (Ok j, db2)"
  shows "(j = i \<longleftrightarrow> nr_machine_id r' = nr_machine_id r) \<and>
    length (db_enrollment_events db2) = Suc (length (db_enrollment_events (upsert_all uuid_str xs db1))) \<and>
    (\<forall>m s. pg_operator_of (upsert_all uuid_str xs db1) m = Some s \<longrightarrow> pg_operator_of db2 m = Some s)"
proof -
  let ?mid = "upsert_all uuid_str xs db1"
  have inv1: "db_inv db1" using pg.upsert_inv [OF assms(1), of uuid_str e r] assms(3) by simp
  have mid: "db_inv ?mid" "pg_node_of uuid_str ?mid (nr_machine_id r) = Some i"
    unfolding upsert_all_upserts using pg.upserts_keep [OF inv1 pg.upsert_ok [OF assms(1,3)]] pg.upserts_inv [OF inv1] by simp_all
  have ids: "pg_node_of uuid_str db2 (nr_machine_id r) = Some i" "pg_node_of uuid_str db2 (nr_machine_id r') = Some j" "db_inv db2"
    using pg.upsert_keeps [OF mid(1) assms(4) mid(2)] pg.upsert_ok [OF mid(1) assms(4)] pg.upsert_inv [OF mid(1), of uuid_str e' r']
      assms(4) by simp_all
  have "j = i \<longleftrightarrow> nr_machine_id r' = nr_machine_id r"
    using ids find_node_inj [OF ids(3)] injD [OF assms(2)] by (auto simp: pg_node_of_def)
  then show ?thesis
    using pg.upsert_audit [OF assms(4)] upsert_node_operator [of ?mid _ _ uuid_str e' r'] assms(4) by (simp add: pg_audits_def)
qed

theorem node_ids_identify_machines_witness:
  "\<exists>i j db2 db3. i \<noteq> j \<and>
     upsert_node (\<lambda>u. show_nat (unat u)) (sample_upsert 3) (sample_record ''m1'')
       (upsert_all (\<lambda>u. show_nat (unat u)) [(sample_upsert 2, sample_record ''m2'')] one_node_db) = (Ok i, db2) \<and>
     upsert_node (\<lambda>u. show_nat (unat u)) (sample_upsert 4) (sample_record ''m3'')
       (upsert_all (\<lambda>u. show_nat (unat u)) [(sample_upsert 2, sample_record ''m2'')] one_node_db) = (Ok j, db3)"
proof -
  let ?s = "\<lambda>u :: uuid. show_nat (unat u)"
  let ?mid = "upsert_all ?s [(sample_upsert 2, sample_record ''m2'')] one_node_db"
  note defs = upsert_node_def upsert_write_def find_node_def insert_node_def update_node_def insert_audit_def audit_row_def
    sample_upsert_def sample_record_def
  have inj: "inj ?s" by (intro injI) (metis digits_value_show_nat word_unat_eq_iff)
  obtain i where a: "upsert_node ?s (sample_upsert 1) (sample_record ''m1'') empty_db = (Ok i, one_node_db)"
    by (simp add: one_node_db_def defs empty_db_def)
  have "is_ok (fst (upsert_node ?s (sample_upsert 3) (sample_record ''m1'') ?mid))"
    by (simp add: one_node_db_eq upsert_all_def defs)
  then obtain k db2 where b1: "upsert_node ?s (sample_upsert 3) (sample_record ''m1'') ?mid = (Ok k, db2)" by (rule is_ok_fstE)
  have "is_ok (fst (upsert_node ?s (sample_upsert 4) (sample_record ''m3'') ?mid))"
    by (simp add: one_node_db_eq upsert_all_def defs)
  then obtain j db3 where b2: "upsert_node ?s (sample_upsert 4) (sample_record ''m3'') ?mid = (Ok j, db3)" by (rule is_ok_fstE)
  note ids = node_ids_identify_machines [OF empty_db_inv inj a, THEN conjunct1]
  have "k = i" using ids [OF b1] by (simp add: sample_record_def)
  moreover have "j \<noteq> i" using ids [OF b2] by (simp add: sample_record_def)
  ultimately show ?thesis using b1 b2 by metis
qed

text \<open>Enrollment races are safe: writes that follow a lookup made on an older state keep all keys
  of the database; in particular a lookup that missed a node enrolled meanwhile makes the insert
  fail instead of giving the machine a second node, and the failed transaction changes nothing.\<close>

lemma stale_lookup_safe:
  assumes "db_inv db"
  shows "(case upsert_write env r existing db of
      Inr (i, db') \<Rightarrow> db_inv db' \<and> (existing = None \<longrightarrow> find_node (nr_machine_id r) db = None)
    | Inl e \<Rightarrow> True) \<and>
    (find_node (nr_machine_id r) db \<noteq> None \<and> ue_fault env = None \<longrightarrow> upsert_write env r None db = Inl UniqueViolation)"
proof -
  have found: "\<exists>n \<in> set (db_nodes db). nd_machine_id n = nr_machine_id r" if "find_node (nr_machine_id r) db = Some j" for j
    using that find_SomeD by (fastforce simp: find_node_def)
  have "find_node (nr_machine_id r) db = None" if "upsert_write env r None db = Inr (i, db')" for i db'
    using that found by (fastforce simp: upsert_write_def insert_node_def result_bind_Inr_iff split: if_splits)
  moreover have "upsert_write env r None db = Inl UniqueViolation"
    if "find_node (nr_machine_id r) db \<noteq> None" "ue_fault env = None"
    using that found by (auto simp: upsert_write_def insert_node_def)
  ultimately show ?thesis
    using upsert_write_inv [OF assms] by (auto split: sum.splits)
qed

lemma stale_lookup_safe_witness:
  "upsert_write (sample_upsert 2) (sample_record ''m1'') None one_node_db = Inl UniqueViolation"
  using stale_lookup_safe [OF one_node_db_inv, where env = "sample_upsert 2" and r = "sample_record ''m1''"]
  by (simp add: sample_upsert_def find_node_def one_node_db_eq sample_record_def)

text \<open>Heartbeats never touch what operators write, and are atomic: storing one leaves the operator's
  status of every node as it was; it fails and changes nothing, or appends exactly one row with the
  reported status; and any node whose agent status changes gets the reported one.\<close>

lemma heartbeat_keeps_operator_status:
  assumes "db_inv db" "store_heartbeat uuid_parse env r db = (res, db')"
  shows "db_inv db' \<and> pg_operator_of db' = pg_operator_of db \<and>
    (if is_ok res then pg_beats db' = pg_beats db @ [hbr_agent_status r] else db' = db) \<and>
    (\<forall>m. pg_agent_of db' m = pg_agent_of db m \<or> pg_agent_of db' m = Some (hbr_agent_status r))"
proof -
  have "if is_ok res then pg_beats db' = pg_beats db @ [hbr_agent_status r] else db' = db"
    using pgh.record_err pgh.record_beats assms(2) by (cases res) fastforce+
  then show ?thesis
    using pgh.record_inv [OF assms(1), of uuid_parse env r] pgh.record_operator [OF assms(1), of uuid_parse env r]
      pgh.record_agent [OF assms] assms(2) by auto
qed

lemma heartbeat_keeps_operator_status_witness:
  "pg_operator_of (snd (store_heartbeat (\<lambda>_. Some 1) \<lparr>he_pool_ok = True, he_fault = None, he_health_id = 9\<rparr>
     \<lparr>hbr_node_id = ''u1'', hbr_agent_status = ''degraded'', hbr_events_buffered = 4, hbr_recorded_at = 60\<rparr> one_node_db)) ''m1''
   = Some ''active''"
  using heartbeat_keeps_operator_status [OF one_node_db_inv surjective_pairing, of "\<lambda>_. Some 1"
      "\<lparr>he_pool_ok = True, he_fault = None, he_health_id = 9\<rparr>"
      "\<lparr>hbr_node_id = ''u1'', hbr_agent_status = ''degraded'', hbr_events_buffered = 4, hbr_recorded_at = 60\<rparr>"]
  by (simp add: pg_operator_of_def machine_row_def one_node_db_eq)

end
