(* ===== verification/FleetServer.thy ===== *)
theory FleetServer
  imports FleetStore Proto
begin

text \<open>
  The fleet server, \<open>fleet-server/crates\<close>: signing of tokens (\<open>node-enrollment/src/token.rs\<close>) and their
  validation (\<open>grpc-listener/src/auth.rs\<close>), the enroller (\<open>node-enrollment/src/enroller.rs\<close>), the health
  tracker (\<open>health-tracker/src/tracker.rs\<close>), the publication of events to Kafka
  (\<open>fleet-server-bin/src/ports.rs\<close>) and the gRPC service that ties them together
  (\<open>grpc-listener/src/service.rs\<close>).

  The service reaches the other parts through the port traits of \<open>fleet-manager/src/ports.rs\<close>;
  \<open>EnrollmentPort\<close> and \<open>HeartbeatPort\<close> are the locales \<open>enrollment_port\<close> and \<open>heartbeat_port\<close>, which
  follow from the stores' traits by \<open>sublocale\<close>. JWT, UUID, JSON and Kafka code is third-party: the
  functions are arguments, grouped in \<open>fleet_deps\<close>.
\<close>

section \<open>Ports\<close>

record agent_registration =
  rg_hostname :: string
  rg_os_version :: string
  rg_agent_version :: string
  rg_machine_id :: string

record registration_result =
  rr_node_id :: string
  rr_token :: string

record agent_heartbeat =
  ah_node_id :: string
  ah_status :: string
  ah_events_buffered :: i64

record incoming_event =
  ie_node_id :: string
  ie_event_type :: string
  ie_payload :: bytes
  ie_timestamp_ns :: i64
  ie_sequence_id :: string

datatype outgoing_command = OutAck string

section \<open>Tokens\<close>

record node_claims =
  nc_node_id :: string
  nc_exp :: u64

text \<open>\<open>fd_jwt_encode secret claims\<close>, \<open>fd_jwt_decode now secret token\<close> and \<open>fd_to_str\<close> (the text of
  a metadata value) stand for \<open>jsonwebtoken\<close> and \<open>tonic\<close>; \<open>fd_lossy\<close> is \<open>from_utf8_lossy\<close>.\<close>

record fleet_deps =
  fd_jwt_encode :: "bytes \<Rightarrow> node_claims \<Rightarrow> (string, string) result"
  fd_jwt_decode :: "timestamp \<Rightarrow> bytes \<Rightarrow> string \<Rightarrow> (string, node_claims) result"
  fd_to_str :: "string \<Rightarrow> string option"
  fd_uuid_str :: "uuid \<Rightarrow> string"
  fd_uuid_parse :: "string \<Rightarrow> uuid option"
  fd_from_slice :: "bytes \<Rightarrow> json option"
  fd_to_vec :: "json \<Rightarrow> bytes option"
  fd_lossy :: "bytes \<Rightarrow> string"

datatype enrollment_error = EnrollStore store_error | TokenSign string | Clock

definition TOKEN_TTL_SECS :: u64 where "TOKEN_TTL_SECS = 86400"

definition saturating_add :: "u64 \<Rightarrow> u64 \<Rightarrow> u64" where
  "saturating_add a b = (if uint a + uint b \<ge> 2 ^ 64 then - 1 else a + b)"

text \<open>\<open>now_secs\<close>: seconds since the epoch, \<open>None\<close> when the clock is before it.\<close>

definition sign_token :: "fleet_deps \<Rightarrow> u64 option \<Rightarrow> string \<Rightarrow> bytes \<Rightarrow> (enrollment_error, string) result" where
  "sign_token d now_secs node_id secret =
     (case now_secs of
        None \<Rightarrow> Err Clock
      | Some now \<Rightarrow> map_err TokenSign
          (fd_jwt_encode d secret \<lparr>nc_node_id = node_id, nc_exp = saturating_add now TOKEN_TTL_SECS\<rparr>))"

definition validate_token :: "fleet_deps \<Rightarrow> timestamp \<Rightarrow> metadata \<Rightarrow> bytes \<Rightarrow> (grpc_status, node_claims) result" where
  "validate_token d now md key =
     (case map_of md ''authorization'' of
        None \<Rightarrow> Err (status_of Unauthenticated ''missing authorization header'')
      | Some header \<Rightarrow>
          (case fd_to_str d header of
             None \<Rightarrow> Err (status_of Unauthenticated ''authorization header is not valid utf-8'')
           | Some header_str \<Rightarrow>
               (case strip_prefix ''Bearer '' header_str of
                  None \<Rightarrow> Err (status_of Unauthenticated ''authorization header must use Bearer scheme'')
                | Some token \<Rightarrow>
                    map_err (\<lambda>_. status_of Unauthenticated ''invalid or expired token'') (fd_jwt_decode d now key token))))"

section \<open>The enroller and the tracker\<close>

text \<open>Both are given the store they call.\<close>

definition enroller_register :: "('e \<Rightarrow> node_record \<Rightarrow> 's \<Rightarrow> (store_error, string) result \<times> 's)
    \<Rightarrow> fleet_deps \<Rightarrow> bytes \<Rightarrow> 'e \<times> u64 option \<Rightarrow> agent_registration \<Rightarrow> 's
    \<Rightarrow> (grpc_status, registration_result) result \<times> 's" where
  "enroller_register upsert d jwt_secret env reg s =
     (case upsert (fst env) \<lparr>nr_hostname = rg_hostname reg, nr_os_version = rg_os_version reg,
             nr_agent_version = rg_agent_version reg, nr_machine_id = rg_machine_id reg\<rparr> s of
        (Inl e, s') \<Rightarrow> (Err (status_of Internal ''enrollment failed''), s')
      | (Inr node_id, s') \<Rightarrow>
          (case sign_token d (snd env) node_id jwt_secret of
             Inl e \<Rightarrow> (Err (status_of Internal ''token signing failed''), s')
           | Inr token \<Rightarrow> (Ok \<lparr>rr_node_id = node_id, rr_token = token\<rparr>, s')))"

definition sanitize_status :: "string \<Rightarrow> string" where
  "sanitize_status status = (if status = ''healthy'' then ''healthy''
     else if status = ''degraded'' then ''degraded'' else ''degraded'')"

definition tracker_record :: "('e \<Rightarrow> heartbeat_record \<Rightarrow> 's \<Rightarrow> (store_error, unit) result \<times> 's)
    \<Rightarrow> 'e \<times> timestamp \<Rightarrow> agent_heartbeat \<Rightarrow> 's \<Rightarrow> (grpc_status, unit) result \<times> 's" where
  "tracker_record record_beat env hb s =
     (case record_beat (fst env) \<lparr>hbr_node_id = ah_node_id hb, hbr_agent_status = sanitize_status (ah_status hb),
             hbr_events_buffered = ah_events_buffered hb, hbr_recorded_at = snd env\<rparr> s of
        (r, s') \<Rightarrow> (map_err (\<lambda>_. status_of Internal ''heartbeat store failed'') r, s'))"

section \<open>Publication to Kafka\<close>

record kafka_message =
  km_topic :: string
  km_key :: string
  km_payload :: bytes

record kafka_event_ingest =
  ki_topic :: string

record ingest_env =
  ig_uuid :: string  \<comment> \<open>\<open>Uuid::new_v4().to_string()\<close>\<close>
  ig_publish :: "(string, unit) result"  \<comment> \<open>the broker's answer\<close>

definition telemetry_envelope :: "fleet_deps \<Rightarrow> string \<Rightarrow> incoming_event \<Rightarrow> json" where
  "telemetry_envelope d fresh_id e =
     (let payload_val = unwrap_or (JObject [(''raw'', JString (fd_lossy d (ie_payload e)))]) (fd_from_slice d (ie_payload e));
          event_id = (if ie_sequence_id e = [] then fresh_id else ie_sequence_id e)
      in JObject [(''id'', JString event_id), (''node_id'', JString (ie_node_id e)), (''hostname'', JString []),
                  (''event_type'', JString (ie_event_type e)), (''timestamp_ns'', JInt (sint (ie_timestamp_ns e))),
                  (''payload'', payload_val), (''raw_sequence_id'', JString (ie_sequence_id e))])"

text \<open>\<open>publish\<close> hands a record to the producer; the log is what the broker accepted.\<close>

definition publish :: "(string, unit) result \<Rightarrow> string \<Rightarrow> string \<Rightarrow> bytes \<Rightarrow> kafka_message list
    \<Rightarrow> (string, unit) result \<times> kafka_message list" where
  "publish answer topic key payload log =
     (case answer of
        Inl e \<Rightarrow> (Err e, log)
      | Inr _ \<Rightarrow> (Ok (), log @ [\<lparr>km_topic = topic, km_key = key, km_payload = payload\<rparr>]))"

definition ingest_event :: "fleet_deps \<Rightarrow> kafka_event_ingest \<Rightarrow> ingest_env \<Rightarrow> incoming_event \<Rightarrow> kafka_message list
    \<Rightarrow> (grpc_status, outgoing_command option) result \<times> kafka_message list" where
  "ingest_event d k env e log =
     (let payload_bytes = unwrap_or (ie_payload e) (fd_to_vec d (telemetry_envelope d (ig_uuid env) e)) in
      case publish (ig_publish env) (ki_topic k) (ie_node_id e) payload_bytes log of
        (Inr _, log') \<Rightarrow> (Ok (Some (OutAck (ie_sequence_id e))), log')
      | (Inl _, log') \<Rightarrow> (Err (status_of Internal ''Failed to publish event to message broker''), log'))"

section \<open>The service\<close>

record service_config =
  sv_jwt_secret :: bytes
  sv_enrollment_secret :: "string option"

definition provided_secret :: "fleet_deps \<Rightarrow> metadata \<Rightarrow> string option" where
  "provided_secret d md =
     or_else (Option.bind (map_of md ''x-enrollment-secret'') (fd_to_str d))
       (Option.bind (Option.bind (map_of md ''authorization'') (fd_to_str d)) (strip_prefix ''Bearer ''))"

definition secret_accepted :: "fleet_deps \<Rightarrow> service_config \<Rightarrow> metadata \<Rightarrow> bool" where
  "secret_accepted d cfg md =
     (case sv_enrollment_secret cfg of
        None \<Rightarrow> True
      | Some expected \<Rightarrow> expected = [] \<or> provided_secret d md = Some expected)"

text \<open>The three handlers, given the port they call.\<close>

definition service_register_agent :: "fleet_deps \<Rightarrow> service_config
    \<Rightarrow> ('e \<Rightarrow> agent_registration \<Rightarrow> 's \<Rightarrow> (grpc_status, registration_result) result \<times> 's)
    \<Rightarrow> 'e \<Rightarrow> metadata \<Rightarrow> register_request \<Rightarrow> 's \<Rightarrow> (grpc_status, register_response) result \<times> 's" where
  "service_register_agent d cfg register env md req s =
     (if \<not> secret_accepted d cfg md
      then (Err (status_of Unauthenticated ''invalid or missing enrollment secret''), s)
      else case register env \<lparr>rg_hostname = rq_hostname req, rg_os_version = rq_os_version req,
                  rg_agent_version = rq_agent_version req, rg_machine_id = rq_machine_id req\<rparr> s of
        (Inl st, s') \<Rightarrow> (Err st, s')
      | (Inr res, s') \<Rightarrow> (Ok \<lparr>rs_node_id = rr_node_id res, rs_token = rr_token res, rs_config = None\<rparr>, s'))"

definition service_heartbeat :: "fleet_deps \<Rightarrow> service_config
    \<Rightarrow> ('e \<Rightarrow> agent_heartbeat \<Rightarrow> 's \<Rightarrow> (grpc_status, unit) result \<times> 's)
    \<Rightarrow> timestamp \<Rightarrow> 'e \<Rightarrow> metadata \<Rightarrow> heartbeat_request \<Rightarrow> 's \<Rightarrow> (grpc_status, heartbeat_response) result \<times> 's" where
  "service_heartbeat d cfg record_hb now env md req s =
     (case validate_token d now md (sv_jwt_secret cfg) of
        Inl st \<Rightarrow> (Err st, s)
      | Inr claims \<Rightarrow>
          (case record_hb env \<lparr>ah_node_id = hr_node_id req, ah_status = hr_status req,
                  ah_events_buffered = hr_events_buffered req\<rparr> s of
             (Inl st, s') \<Rightarrow> (Err st, s')
           | (Inr _, s') \<Rightarrow> (Ok \<lparr>hb_ok = True\<rparr>, s')))"

definition incoming_of :: "proto_event \<Rightarrow> incoming_event" where
  "incoming_of e = \<lparr>ie_node_id = pe_node_id e, ie_event_type = pe_event_type e, ie_payload = pe_payload e,
     ie_timestamp_ns = pe_timestamp_ns e, ie_sequence_id = pe_sequence_id e\<rparr>"

text \<open>One item of the agent's stream with what its ingestion meets, and whether the command
  channel still takes an answer.\<close>

record 'e stream_item =
  si_event :: "(grpc_status, proto_event) result"
  si_env :: 'e
  si_open :: bool

fun event_loop :: "('e \<Rightarrow> incoming_event \<Rightarrow> 's \<Rightarrow> (grpc_status, outgoing_command option) result \<times> 's)
    \<Rightarrow> 'e stream_item list \<Rightarrow> 's \<Rightarrow> server_command list \<times> 's" where
  "event_loop ingest [] s = ([], s)"
| "event_loop ingest (it # items) s =
     (case si_event it of
        Inl e \<Rightarrow> ([], s)
      | Inr event \<Rightarrow>
          (case ingest (si_env it) (incoming_of event) s of
             (Inr (Some (OutAck sequence_id)), s') \<Rightarrow>
               if \<not> si_open it then ([], s')
               else (case event_loop ingest items s' of
                       (cmds, s'') \<Rightarrow> (\<lparr>sc_command = Some (Ack sequence_id)\<rparr> # cmds, s''))
           | (Inr None, s') \<Rightarrow> event_loop ingest items s'
           | (Inl st, s') \<Rightarrow> event_loop ingest items s'))"

definition service_event_stream :: "fleet_deps \<Rightarrow> service_config
    \<Rightarrow> ('e \<Rightarrow> incoming_event \<Rightarrow> 's \<Rightarrow> (grpc_status, outgoing_command option) result \<times> 's)
    \<Rightarrow> timestamp \<Rightarrow> metadata \<Rightarrow> 'e stream_item list \<Rightarrow> 's \<Rightarrow> (grpc_status, server_command list) result \<times> 's" where
  "service_event_stream d cfg ingest now md items s =
     (case validate_token d now md (sv_jwt_secret cfg) of
        Inl st \<Rightarrow> (Err st, s)
      | Inr claims \<Rightarrow> (case event_loop ingest items s of (cmds, s') \<Rightarrow> (Ok cmds, s')))"

section \<open>The assembled server\<close>

text \<open>\<open>build_ports\<close> and \<open>main\<close>: one database behind the enroller and the tracker, one publisher, and the
  same secret for signing and validation.\<close>

record fleet_settings =
  ss_host :: string
  ss_port :: u16
  ss_rust_log :: string
  ss_log_format :: string
  ss_database_url :: string
  ss_kafka_brokers :: "string option"
  ss_kafka_topic_agents_events :: "string option"
  ss_jwt_secret :: string
  ss_fleet_enrollment_secret :: "string option"
  ss_db_pool_max_size :: u64

definition server_config :: "fleet_settings \<Rightarrow> service_config" where
  "server_config st = \<lparr>sv_jwt_secret = ss_jwt_secret st, sv_enrollment_secret = ss_fleet_enrollment_secret st\<rparr>"

definition server_topic :: "fleet_settings \<Rightarrow> string" where
  "server_topic st = unwrap_or ''agents_events'' (ss_kafka_topic_agents_events st)"

definition server_register :: "fleet_deps \<Rightarrow> fleet_settings \<Rightarrow> upsert_env \<times> u64 option \<Rightarrow> metadata \<Rightarrow> register_request
    \<Rightarrow> fleet_db \<Rightarrow> (grpc_status, register_response) result \<times> fleet_db" where
  "server_register d st =
     service_register_agent d (server_config st)
       (enroller_register (upsert_node (fd_uuid_str d)) d (ss_jwt_secret st))"

definition server_heartbeat :: "fleet_deps \<Rightarrow> fleet_settings \<Rightarrow> timestamp \<Rightarrow> health_env \<times> timestamp \<Rightarrow> metadata
    \<Rightarrow> heartbeat_request \<Rightarrow> fleet_db \<Rightarrow> (grpc_status, heartbeat_response) result \<times> fleet_db" where
  "server_heartbeat d st =
     service_heartbeat d (server_config st) (tracker_record (store_heartbeat (fd_uuid_parse d)))"

definition server_event_stream :: "fleet_deps \<Rightarrow> fleet_settings \<Rightarrow> timestamp \<Rightarrow> metadata \<Rightarrow> ingest_env stream_item list
    \<Rightarrow> kafka_message list \<Rightarrow> (grpc_status, server_command list) result \<times> kafka_message list" where
  "server_event_stream d st =
     service_event_stream d (server_config st) (ingest_event d \<lparr>ki_topic = server_topic st\<rparr>)"

definition bind_addr :: "fleet_settings \<Rightarrow> string" where
  "bind_addr st = ss_host st @ '':'' @ show_nat (unat (ss_port st))"

section \<open>The port traits\<close>

locale enrollment_port =
  fixes inv :: "'s \<Rightarrow> bool"
    and ident :: "'s \<Rightarrow> string \<Rightarrow> string option"
    and register :: "'e \<Rightarrow> agent_registration \<Rightarrow> 's \<Rightarrow> (grpc_status, registration_result) result \<times> 's"
  assumes register_inv: "inv s \<Longrightarrow> inv (snd (register e reg s))"
    and register_ok: "inv s \<Longrightarrow> register e reg s = (Ok res, s') \<Longrightarrow> ident s' (rg_machine_id reg) = Some (rr_node_id res)"
    and register_keeps: "inv s \<Longrightarrow> ident s m = Some i \<Longrightarrow> ident (snd (register e reg s)) m = Some i"
begin

lemma service_register_inv:
  "inv s \<Longrightarrow> inv (snd (service_register_agent d cfg register e md req s))"
  using register_inv by (auto simp: service_register_agent_def split: prod.splits sum.splits) (metis snd_conv)+

lemma service_register_keeps:
  "inv s \<Longrightarrow> ident s m = Some i \<Longrightarrow> ident (snd (service_register_agent d cfg register e md req s)) m = Some i"
  using register_keeps by (auto simp: service_register_agent_def split: prod.splits sum.splits) (metis snd_conv)+

lemma service_register_ok:
  assumes "inv s" "service_register_agent d cfg register e md req s = (Ok resp, s')"
  shows "ident s' (rq_machine_id req) = Some (rs_node_id resp)"
proof -
  let ?reg = "\<lparr>rg_hostname = rq_hostname req, rg_os_version = rq_os_version req,
      rg_agent_version = rq_agent_version req, rg_machine_id = rq_machine_id req\<rparr>"
  obtain res where "register e ?reg s = (Ok res, s')" "rs_node_id resp = rr_node_id res"
    using assms(2) by (auto simp: service_register_agent_def split: if_splits prod.splits sum.splits)
  then show ?thesis using register_ok [OF assms(1)] by fastforce
qed

text \<open>Registrations of any machines, accepted or not.\<close>

definition service_registers :: "fleet_deps \<Rightarrow> service_config \<Rightarrow> ('e \<times> metadata \<times> register_request) list \<Rightarrow> 's \<Rightarrow> 's" where
  "service_registers d cfg xs s = foldl (\<lambda>s (e, md, req). snd (service_register_agent d cfg register e md req s)) s xs"

lemma service_registers_keep:
  "inv s \<Longrightarrow> ident s m = Some i \<Longrightarrow>
     inv (service_registers d cfg xs s) \<and> ident (service_registers d cfg xs s) m = Some i"
  unfolding service_registers_def
  by (induction xs arbitrary: s) (auto simp: service_register_inv service_register_keeps)

lemma service_same_machine_same_id:
  assumes "inv s" "service_register_agent d cfg register e md req s = (Ok resp, s1)"
    and "service_register_agent d cfg register e' md' req' (service_registers d cfg xs s1) = (Ok resp', s2)"
    and "rq_machine_id req' = rq_machine_id req"
  shows "rs_node_id resp' = rs_node_id resp"
proof -
  have inv1: "inv s1" using service_register_inv [OF assms(1)] assms(2) by (metis snd_conv)
  note k = service_registers_keep [OF inv1 service_register_ok [OF assms(1,2)], of d cfg xs]
  have "ident s2 (rq_machine_id req') = Some (rs_node_id resp')"
    using service_register_ok k assms(3) by blast
  moreover have "ident s2 (rq_machine_id req) = Some (rs_node_id resp)"
    using service_register_keeps k assms(3) by (metis snd_conv)
  ultimately show ?thesis using assms(4) by simp
qed

end

locale enroller = node_store +
  fixes d :: fleet_deps and jwt_secret :: bytes

sublocale enroller \<subseteq> port: enrollment_port inv node_of "enroller_register upsert d jwt_secret"
proof
  fix s s' and e :: "'b \<times> u64 option" and reg :: agent_registration and res m i
  let ?r = "\<lparr>nr_hostname = rg_hostname reg, nr_os_version = rg_os_version reg,
      nr_agent_version = rg_agent_version reg, nr_machine_id = rg_machine_id reg\<rparr>"
  have snd_eq: "snd (enroller_register upsert d jwt_secret e reg s) = snd (upsert (fst e) ?r s)"
    by (simp add: enroller_register_def split: prod.splits sum.splits)
  show "inv s \<Longrightarrow> inv (snd (enroller_register upsert d jwt_secret e reg s))"
    unfolding snd_eq by (rule upsert_inv)
  show "inv s \<Longrightarrow> node_of s m = Some i \<Longrightarrow> node_of (snd (enroller_register upsert d jwt_secret e reg s)) m = Some i"
    unfolding snd_eq using upsert_keeps by (metis prod.collapse)
  show "inv s \<Longrightarrow> enroller_register upsert d jwt_secret e reg s = (Ok res, s') \<Longrightarrow>
      node_of s' (rg_machine_id reg) = Some (rr_node_id res)"
    using upsert_ok [of s "fst e" ?r] by (auto simp: enroller_register_def split: prod.splits sum.splits)
qed

locale heartbeat_port =
  fixes inv :: "'s \<Rightarrow> bool"
    and operator_of :: "'s \<Rightarrow> string \<Rightarrow> string option"
    and agent_of :: "'s \<Rightarrow> string \<Rightarrow> string option"
    and record_hb :: "'e \<Rightarrow> agent_heartbeat \<Rightarrow> 's \<Rightarrow> (grpc_status, unit) result \<times> 's"
  assumes hb_inv: "inv s \<Longrightarrow> inv (snd (record_hb e hb s))"
    and hb_operator: "inv s \<Longrightarrow> operator_of (snd (record_hb e hb s)) = operator_of s"
    and hb_agent: "inv s \<Longrightarrow> agent_of (snd (record_hb e hb s)) n \<noteq> agent_of s n \<Longrightarrow>
          agent_of (snd (record_hb e hb s)) n \<in> {Some ''healthy'', Some ''degraded''}"
    and hb_err: "record_hb e hb s = (Err st, s') \<Longrightarrow> s' = s"
begin

text \<open>Heartbeats of any agents, authenticated or not.\<close>

definition service_heartbeats :: "fleet_deps \<Rightarrow> service_config \<Rightarrow> (timestamp \<times> 'e \<times> metadata \<times> heartbeat_request) list \<Rightarrow> 's \<Rightarrow> 's" where
  "service_heartbeats d cfg xs s =
     foldl (\<lambda>s (now, e, md, req). snd (service_heartbeat d cfg record_hb now e md req s)) s xs"

lemma service_heartbeat_shape:
  "snd (service_heartbeat d cfg record_hb now e md req s) = s \<or>
   (\<exists>hb. snd (service_heartbeat d cfg record_hb now e md req s) = snd (record_hb e hb s))"
  by (auto simp: service_heartbeat_def split: sum.splits prod.splits) (metis snd_conv)+

lemma service_heartbeat_step:
  assumes "inv s" and s'_def: "s' = snd (service_heartbeat d cfg record_hb now e md req s)"
  shows "inv s'" "operator_of s' = operator_of s"
    "agent_of s' n \<noteq> agent_of s n \<Longrightarrow> agent_of s' n \<in> {Some ''healthy'', Some ''degraded''}"
proof -
  consider "s' = s" | hb where "s' = snd (record_hb e hb s)"
    using service_heartbeat_shape [of d cfg now e md req s] s'_def by blast
  then have "inv s' \<and> operator_of s' = operator_of s \<and>
      (agent_of s' n \<noteq> agent_of s n \<longrightarrow> agent_of s' n \<in> {Some ''healthy'', Some ''degraded''})"
    using assms(1) hb_inv [OF assms(1)] hb_operator [OF assms(1)] hb_agent [OF assms(1)]
    by cases simp_all
  then show "inv s'" "operator_of s' = operator_of s"
    "agent_of s' n \<noteq> agent_of s n \<Longrightarrow> agent_of s' n \<in> {Some ''healthy'', Some ''degraded''}"
    by simp_all
qed

lemma service_heartbeats_run:
  assumes "inv s"
  shows "inv (service_heartbeats d cfg xs s) \<and> operator_of (service_heartbeats d cfg xs s) = operator_of s \<and>
    (agent_of (service_heartbeats d cfg xs s) n = agent_of s n \<or>
     agent_of (service_heartbeats d cfg xs s) n \<in> {Some ''healthy'', Some ''degraded''})"
  using assms unfolding service_heartbeats_def
proof (induction xs arbitrary: s)
  case Nil
  then show ?case by simp
next
  case (Cons x xs)
  obtain now e md req where x: "x = (now, e, md, req)" by (cases x) auto
  let ?s1 = "snd (service_heartbeat d cfg record_hb now e md req s)"
  have st: "inv ?s1" "operator_of ?s1 = operator_of s"
    "agent_of ?s1 n = agent_of s n \<or> agent_of ?s1 n \<in> {Some ''healthy'', Some ''degraded''}"
    using service_heartbeat_step [OF Cons.prems refl] by blast+
  show ?case
    using Cons.IH [OF st(1)] st(2,3) x by auto
qed

end

lemma sanitize_status_known: "sanitize_status st \<in> {''healthy'', ''degraded''}"
  by (simp add: sanitize_status_def)

sublocale health_store \<subseteq> hport: heartbeat_port inv operator_of agent_of "tracker_record record_beat"
proof
  fix s s' and e :: "'e \<times> timestamp" and hb :: agent_heartbeat and st n
  let ?r = "\<lparr>hbr_node_id = ah_node_id hb, hbr_agent_status = sanitize_status (ah_status hb),
      hbr_events_buffered = ah_events_buffered hb, hbr_recorded_at = snd e\<rparr>"
  have snd_eq: "snd (tracker_record record_beat e hb s) = snd (record_beat (fst e) ?r s)"
    by (simp add: tracker_record_def split: prod.splits)
  show "inv s \<Longrightarrow> inv (snd (tracker_record record_beat e hb s))"
    unfolding snd_eq by (rule record_inv)
  show "inv s \<Longrightarrow> operator_of (snd (tracker_record record_beat e hb s)) = operator_of s"
    unfolding snd_eq by (rule record_operator)
  show "inv s \<Longrightarrow> agent_of (snd (tracker_record record_beat e hb s)) n \<noteq> agent_of s n \<Longrightarrow>
      agent_of (snd (tracker_record record_beat e hb s)) n \<in> {Some ''healthy'', Some ''degraded''}"
    unfolding snd_eq using record_agent [of s "fst e" ?r "fst (record_beat (fst e) ?r s)"] sanitize_status_known
    by (metis heartbeat_record.select_convs(2) insertE insertI1 insertI2 prod.collapse singletonD)
  show "tracker_record record_beat e hb s = (Err st, s') \<Longrightarrow> s' = s"
  proof -
    assume t: "tracker_record record_beat e hb s = (Err st, s')"
    obtain x where "record_beat (fst e) ?r s = (Err x, s')"
      using t by (cases "record_beat (fst e) ?r s"; cases "fst (record_beat (fst e) ?r s)")
        (auto simp: tracker_record_def)
    then show ?thesis by (rule record_err)
  qed
qed

interpretation pge: enroller db_inv "pg_node_of (fd_uuid_str d)" pg_audits "upsert_node (fd_uuid_str d)" d secret for d secret
  by unfold_locales

section \<open>Lemmas on tokens and streams\<close>

lemma saturating_add_exact: "uint a + uint b < 2 ^ 64 \<Longrightarrow> uint (saturating_add a b) = uint a + uint b"
  by (simp add: saturating_add_def uint_plus_if')

lemma validate_bearer:
  assumes "fd_to_str d (''Bearer '' @ tok) = Some (''Bearer '' @ tok)"
  shows "validate_token d now [(''authorization'', ''Bearer '' @ tok)] key =
    map_err (\<lambda>_. status_of Unauthenticated ''invalid or expired token'') (fd_jwt_decode d now key tok)"
  using assms by (simp add: validate_token_def strip_prefix_append del: append_Cons)

lemma validate_token_errors: "validate_token d now md key = Inl st \<Longrightarrow> gs_code st = Unauthenticated"
  by (auto simp: validate_token_def status_of_def map_err_def split: option.splits sum.splits)

lemma server_register_okE:
  assumes "server_register d st env md req db = (Ok resp, db')"
  obtains now where "snd env = Some now" "secret_accepted d (server_config st) md"
    "fd_jwt_encode d (ss_jwt_secret st)
       \<lparr>nc_node_id = rs_node_id resp, nc_exp = saturating_add now TOKEN_TTL_SECS\<rparr> = Ok (rs_token resp)"
  using assms
  by (auto simp: server_register_def service_register_agent_def enroller_register_def sign_token_def
      split: if_splits prod.splits sum.splits option.splits)

text \<open>The events the loop reaches, and the message each one becomes.\<close>

definition reached :: "'e stream_item list \<Rightarrow> ('e \<times> proto_event) list" where
  "reached items = map (\<lambda>it. (si_env it, projr (si_event it))) (takeWhile (\<lambda>it. is_ok (si_event it)) items)"

definition message_of :: "fleet_deps \<Rightarrow> string \<Rightarrow> ingest_env \<times> proto_event \<Rightarrow> kafka_message" where
  "message_of d topic x = (case x of (env, e) \<Rightarrow>
     \<lparr>km_topic = topic, km_key = pe_node_id e,
      km_payload = unwrap_or (pe_payload e) (fd_to_vec d (telemetry_envelope d (ig_uuid env) (incoming_of e)))\<rparr>)"

lemma ingest_event_cases:
  "ingest_event d k env (incoming_of e) log =
     (case ig_publish env of
        Inr _ \<Rightarrow> (Ok (Some (OutAck (pe_sequence_id e))), log @ [message_of d (ki_topic k) (env, e)])
      | Inl _ \<Rightarrow> (Err (status_of Internal ''Failed to publish event to message broker''), log))"
  by (simp add: ingest_event_def publish_def message_of_def incoming_of_def Let_def split: sum.split)

lemma event_loop_ingest:
  assumes "\<forall>it \<in> set items. si_open it"
  shows "event_loop (ingest_event d k) items log =
    (let pub = filter (\<lambda>(env, e). is_ok (ig_publish env)) (reached items) in
     (map (\<lambda>(env, e). \<lparr>sc_command = Some (Ack (pe_sequence_id e))\<rparr>) pub, log @ map (message_of d (ki_topic k)) pub))"
  using assms
proof (induction items arbitrary: log)
  case Nil
  then show ?case by (simp add: reached_def)
next
  case (Cons it items)
  then show ?case
    by (cases "si_event it"; cases "ig_publish (si_env it)")
      (auto simp: reached_def ingest_event_cases Let_def split: prod.splits)
qed

section \<open>Properties\<close>

definition server_registers :: "fleet_deps \<Rightarrow> fleet_settings \<Rightarrow> ((upsert_env \<times> u64 option) \<times> metadata \<times> register_request) list
    \<Rightarrow> fleet_db \<Rightarrow> fleet_db" where
  "server_registers d st xs db = foldl (\<lambda>db (e, md, req). snd (server_register d st e md req db)) db xs"

definition server_heartbeats :: "fleet_deps \<Rightarrow> fleet_settings \<Rightarrow> (timestamp \<times> (health_env \<times> timestamp) \<times> metadata \<times> heartbeat_request) list
    \<Rightarrow> fleet_db \<Rightarrow> fleet_db" where
  "server_heartbeats d st xs db = foldl (\<lambda>db (now, e, md, req). snd (server_heartbeat d st now e md req db)) db xs"

text \<open>What \<open>jsonwebtoken\<close> promises with the default \<open>Validation\<close> both services use: a token it made decodes to its claims under its key
  as long as the clock is at most the leeway, 60 seconds, past the expiry, and is refused from then on; a token is a legal header text.\<close>

definition jwt_laws :: "fleet_deps \<Rightarrow> bool" where
  "jwt_laws d \<longleftrightarrow> (\<forall>secret c tok. fd_jwt_encode d secret c = Ok tok \<longrightarrow>
     (\<forall>t. t \<le> uint (nc_exp c) + 60 \<longrightarrow> fd_jwt_decode d t secret tok = Ok c) \<and>
     (\<forall>t. t > uint (nc_exp c) + 60 \<longrightarrow> \<not> is_ok (fd_jwt_decode d t secret tok)) \<and>
     fd_to_str d (''Bearer '' @ tok) = Some (''Bearer '' @ tok))"

definition sample_deps :: fleet_deps where
  "sample_deps = \<lparr>
     fd_jwt_encode = (\<lambda>secret c. Ok (show_nat (unat (nc_exp c)) @ ''.'' @ nc_node_id c)),
     fd_jwt_decode = (\<lambda>t secret tok. case split_once (CHR ''.'') tok of
        None \<Rightarrow> Err ''malformed''
      | Some (e, n) \<Rightarrow> if t \<le> int (digits_value e) + 60 then Ok \<lparr>nc_node_id = n, nc_exp = of_nat (digits_value e)\<rparr> else Err ''expired''),
     fd_to_str = Some, fd_uuid_str = (\<lambda>u. if u = 1 then ''u1'' else ''u2''), fd_uuid_parse = (\<lambda>s. Some 1),
     fd_from_slice = (\<lambda>_. None), fd_to_vec = (\<lambda>_. Some ''{}''), fd_lossy = (\<lambda>b. b)\<rparr>"

definition sample_settings :: fleet_settings where
  "sample_settings = \<lparr>ss_host = ''0.0.0.0'', ss_port = 50051, ss_rust_log = ''info'', ss_log_format = ''human'',
     ss_database_url = ''pg'', ss_kafka_brokers = None, ss_kafka_topic_agents_events = None,
     ss_jwt_secret = ''k'', ss_fleet_enrollment_secret = Some ''s3cret'', ss_db_pool_max_size = 20\<rparr>"

definition sample_request :: "string \<Rightarrow> register_request" where
  "sample_request m = \<lparr>rq_hostname = ''h'', rq_os_version = ''os'', rq_agent_version = ''1'', rq_machine_id = m\<rparr>"

lemma split_once_no_sep: "c \<notin> set a \<Longrightarrow> split_once c (a @ c # b) = Some (a, b)"
  by (induction a) auto

lemma sample_deps_jwt: "jwt_laws sample_deps"
proof -
  have "CHR ''.'' \<notin> set (show_nat n)" for n using show_nat_digits [of "CHR ''.''" n] by auto
  then show ?thesis
    by (auto simp: jwt_laws_def sample_deps_def split_once_no_sep)
qed

text \<open>Through the service a machine keeps its identity: whatever registrations happen in between,
  accepted, refused or failing, two accepted registrations with the same machine id get the same
  node id.\<close>

lemma register_same_machine_same_id:
  assumes "db_inv db" "server_register d st e md req db = (Ok resp, db1)"
    and "server_register d st e' md' req' (server_registers d st xs db1) = (Ok resp', db2)"
    and "rq_machine_id req' = rq_machine_id req"
  shows "rs_node_id resp' = rs_node_id resp"
proof -
  have "server_registers d st xs db1 = pge.port.service_registers d (ss_jwt_secret st) d (server_config st) xs db1"
    by (simp add: server_registers_def server_register_def pge.port.service_registers_def)
  then show ?thesis
    using pge.port.service_same_machine_same_id [OF assms(1) assms(2) [unfolded server_register_def] _ assms(4)]
      assms(3) unfolding server_register_def by metis
qed

lemma register_same_machine_same_id_witness:
  "\<exists>resp db2. server_register sample_deps sample_settings (sample_upsert 3, Some 20) [(''x-enrollment-secret'', ''s3cret'')]
      (sample_request ''m1'')
      (server_registers sample_deps sample_settings [((sample_upsert 2, Some 10), [], sample_request ''m2'')] one_node_db) =
      (Ok resp, db2) \<and> rs_node_id resp = ''u1''"
proof -
  let ?md = "[(''x-enrollment-secret'', ''s3cret'')]"
  let ?mid = "server_registers sample_deps sample_settings [((sample_upsert 2, Some 10), [], sample_request ''m2'')] one_node_db"
  note defs = server_register_def service_register_agent_def server_config_def secret_accepted_def provided_secret_def
    enroller_register_def sign_token_def sample_deps_def sample_settings_def sample_request_def
    upsert_node_def upsert_write_def find_node_def insert_node_def update_node_def insert_audit_def audit_row_def
    sample_upsert_def sample_record_def
  obtain resp0 where a: "server_register sample_deps sample_settings (sample_upsert 1, Some 5) ?md (sample_request ''m1'') empty_db
      = (Ok resp0, one_node_db)" "rs_node_id resp0 = ''u1''"
    by (simp add: defs one_node_db_eq empty_db_def)
  have "?mid = one_node_db"
    by (simp add: server_registers_def server_register_def service_register_agent_def server_config_def
        secret_accepted_def provided_secret_def sample_settings_def)
  then have "is_ok (fst (server_register sample_deps sample_settings (sample_upsert 3, Some 20) ?md (sample_request ''m1'') ?mid))"
    by (simp add: defs one_node_db_eq)
  then obtain resp db2 where b: "server_register sample_deps sample_settings (sample_upsert 3, Some 20) ?md (sample_request ''m1'') ?mid
      = (Ok resp, db2)"
    by (rule is_ok_fstE)
  then show ?thesis using register_same_machine_same_id [OF empty_db_inv a(1) b] a(2) by simp
qed

text \<open>C28: the token a registration returns carries the registered node and expires 86400 seconds after it was signed. Under the
  server's own secret it authenticates every request made up to then, and still those of the 60 seconds of the validation's leeway,
  and it authenticates no request after that: whatever comes later is answered with an Unauthenticated status. The hypothesis is that
  the JWT library decodes what it encoded until the expiry and its leeway are over, and refuses it from then on.\<close>

theorem token_lifecycle:
  assumes "jwt_laws d" "server_register d st (ue, Some now) md req db = (Ok resp, db')" "uint now + 86400 < 2 ^ 64"
  shows "case validate_token d t [(''authorization'', ''Bearer '' @ rs_token resp)] (sv_jwt_secret (server_config st)) of
      Inr claims \<Rightarrow> t \<le> uint now + 86400 + 60 \<and> nc_node_id claims = rs_node_id resp \<and> uint (nc_exp claims) = uint now + 86400
    | Inl e \<Rightarrow> uint now + 86400 + 60 < t \<and> gs_code e = Unauthenticated"
proof -
  let ?c = "\<lparr>nc_node_id = rs_node_id resp, nc_exp = saturating_add now TOKEN_TTL_SECS\<rparr>"
  have e: "fd_jwt_encode d (ss_jwt_secret st) ?c = Ok (rs_token resp)"
    using assms(2) by (rule server_register_okE) simp
  have x: "uint (nc_exp ?c) = uint now + 86400"
    using assms(3) saturating_add_exact [of now TOKEN_TTL_SECS] by (simp add: TOKEN_TTL_SECS_def)
  have l: "s \<le> uint now + 86460 \<Longrightarrow> fd_jwt_decode d s (ss_jwt_secret st) (rs_token resp) = Ok ?c"
    "s > uint now + 86460 \<Longrightarrow> \<not> is_ok (fd_jwt_decode d s (ss_jwt_secret st) (rs_token resp))"
    "fd_to_str d (''Bearer '' @ rs_token resp) = Some (''Bearer '' @ rs_token resp)" for s
    using assms(1) e x unfolding jwt_laws_def by auto
  show ?thesis
  proof (cases "t \<le> uint now + 86460")
    case True
    then show ?thesis using l(1) x unfolding validate_bearer [OF l(3)] by (simp add: server_config_def)
  next
    case False
    then show ?thesis using l(2) [of t] validate_token_errors unfolding validate_bearer [OF l(3)]
      by (cases "fd_jwt_decode d t (ss_jwt_secret st) (rs_token resp)") (auto simp: server_config_def map_err_def status_of_def)
  qed
qed

theorem token_lifecycle_witness:
  "\<exists>resp db' claims. server_register sample_deps sample_settings (sample_upsert 1, Some 5) [(''authorization'', ''Bearer s3cret'')]
      (sample_request ''m1'') empty_db = (Ok resp, db') \<and>
    validate_token sample_deps 86465 [(''authorization'', ''Bearer '' @ rs_token resp)] ''k'' = Ok claims \<and>
    nc_node_id claims = ''u1''"
proof -
  let ?r = "server_register sample_deps sample_settings (sample_upsert 1, Some 5) [(''authorization'', ''Bearer s3cret'')]
      (sample_request ''m1'') empty_db"
  have ok: "is_ok (fst ?r)" "\<And>resp db'. ?r = (Ok resp, db') \<Longrightarrow> rs_node_id resp = ''u1''"
    by (auto simp: server_register_def service_register_agent_def server_config_def secret_accepted_def provided_secret_def
        enroller_register_def sign_token_def sample_deps_def sample_settings_def sample_request_def strip_prefix_def starts_with_def
        upsert_node_def upsert_write_def find_node_def insert_node_def insert_audit_def sample_upsert_def empty_db_def)
  from ok(1) obtain resp db' where r: "?r = (Ok resp, db')" by (rule is_ok_fstE)
  then show ?thesis
    using token_lifecycle [OF sample_deps_jwt r, of 86465] ok(2) [OF r] by (auto simp: server_config_def sample_settings_def split: sum.splits)
qed

text \<open>C29: no call gets through unauthenticated: without a valid token a heartbeat and an event stream are
  refused with an Unauthenticated status and change nothing, and so is a registration that does not
  bring the configured, non-empty enrollment secret.\<close>

theorem unauthenticated_rejected:
  "(case validate_token d now md (sv_jwt_secret (server_config st)) of
      Inl e \<Rightarrow> gs_code e = Unauthenticated \<and> server_heartbeat d st now he md hreq db = (Err e, db) \<and>
               server_event_stream d st now md items log = (Err e, log)
    | Inr _ \<Rightarrow> True) \<and>
   (case ss_fleet_enrollment_secret st of
      None \<Rightarrow> True
    | Some s \<Rightarrow> s = [] \<or> provided_secret d md = Some s \<or>
        server_register d st re md rreq db = (Err (status_of Unauthenticated ''invalid or missing enrollment secret''), db))"
  by (auto simp: server_heartbeat_def service_heartbeat_def server_event_stream_def service_event_stream_def
      server_register_def service_register_agent_def secret_accepted_def server_config_def validate_token_errors
      split: sum.splits option.splits)

text \<open>Acknowledgements are honest: on an authenticated stream whose agent keeps listening, the commands
  sent back are exactly the acknowledgements of the events the broker accepted, in the order of
  arrival up to the first error of the stream, and the broker's log grows by exactly the messages of
  those events, keyed by node, on the configured topic.\<close>

lemma stream_acks_are_published:
  assumes "is_ok (validate_token d now md (sv_jwt_secret (server_config st)))" "\<forall>it \<in> set items. si_open it"
  shows "server_event_stream d st now md items log =
    (let pub = filter (\<lambda>(env, e). is_ok (ig_publish env)) (reached items) in
     (Ok (map (\<lambda>(env, e). \<lparr>sc_command = Some (Ack (pe_sequence_id e))\<rparr>) pub),
      log @ map (message_of d (server_topic st)) pub))"
  using assms event_loop_ingest [OF assms(2), of d "\<lparr>ki_topic = server_topic st\<rparr>" log]
  by (auto simp: server_event_stream_def service_event_stream_def Let_def is_ok_def split: sum.splits)

definition sample_event :: "string \<Rightarrow> proto_event" where
  "sample_event s = \<lparr>pe_node_id = ''u1'', pe_event_type = ''osquery'', pe_payload = ''{}'', pe_timestamp_ns = 7, pe_sequence_id = s\<rparr>"

lemma stream_acks_are_published_witness:
  "fst (server_event_stream sample_deps sample_settings 3 [(''authorization'', ''Bearer 9.u1'')]
     [\<lparr>si_event = Ok (sample_event ''a''), si_env = \<lparr>ig_uuid = ''x'', ig_publish = Err ''down''\<rparr>, si_open = True\<rparr>,
      \<lparr>si_event = Ok (sample_event ''b''), si_env = \<lparr>ig_uuid = ''y'', ig_publish = Ok ()\<rparr>, si_open = True\<rparr>] [])
   = Ok [\<lparr>sc_command = Some (Ack ''b'')\<rparr>]"
proof -
  have "is_ok (validate_token sample_deps 3 [(''authorization'', ''Bearer 9.u1'')] (sv_jwt_secret (server_config sample_settings)))"
    by (simp add: validate_token_def sample_deps_def strip_prefix_def starts_with_def digits_value_def)
  then show ?thesis
    by (subst stream_acks_are_published) (simp_all add: reached_def sample_event_def)
qed

text \<open>No sequence of heartbeat requests, authenticated or not, changes the operator's status of any
  node, and every agent status that changes becomes healthy or degraded: an agent can neither
  isolate itself nor lift an isolation.\<close>

lemma heartbeats_cannot_isolate:
  assumes "db_inv db"
  shows "pg_operator_of (server_heartbeats d st xs db) = pg_operator_of db \<and>
    (pg_agent_of (server_heartbeats d st xs db) m = pg_agent_of db m \<or>
     pg_agent_of (server_heartbeats d st xs db) m \<in> {Some ''healthy'', Some ''degraded''})"
proof -
  have "server_heartbeats d st xs db = pgh.hport.service_heartbeats (fd_uuid_parse d) d (server_config st) xs db"
    by (simp add: server_heartbeats_def server_heartbeat_def pgh.hport.service_heartbeats_def)
  then show ?thesis
    using pgh.hport.service_heartbeats_run [OF assms, of "fd_uuid_parse d" d "server_config st" xs m] by simp
qed

lemma heartbeats_cannot_isolate_witness:
  "pg_agent_of (server_heartbeats sample_deps sample_settings
      [(3, (\<lparr>he_pool_ok = True, he_fault = None, he_health_id = 9\<rparr>, 3), [(''authorization'', ''Bearer 9.u1'')],
        \<lparr>hr_node_id = ''u1'', hr_status = ''isolated'', hr_events_buffered = 0\<rparr>)] one_node_db) ''m1''
    \<in> {Some ''healthy'', Some ''degraded''} \<and> pg_agent_of one_node_db ''m1'' = Some ''healthy''"
proof -
  have "pg_agent_of one_node_db ''m1'' = Some ''healthy''"
    by (simp add: pg_agent_of_def machine_row_def one_node_db_eq)
  then show ?thesis
    using heartbeats_cannot_isolate [OF one_node_db_inv, of sample_deps sample_settings
      "[(3, (\<lparr>he_pool_ok = True, he_fault = None, he_health_id = 9\<rparr>, 3), [(''authorization'', ''Bearer 9.u1'')],
        \<lparr>hr_node_id = ''u1'', hr_status = ''isolated'', hr_events_buffered = 0\<rparr>)]" "''m1''"] by auto
qed

text \<open>The node a request speaks for is the one its body names, not the one its token was issued to.\<close>

lemma heartbeat_for_another_node:
  assumes "validate_token d now md (sv_jwt_secret (server_config st)) = Ok claims"
    and "store_heartbeat (fd_uuid_parse d) (fst he) \<lparr>hbr_node_id = hr_node_id req,
      hbr_agent_status = sanitize_status (hr_status req), hbr_events_buffered = hr_events_buffered req, hbr_recorded_at = snd he\<rparr> db
      = (Ok u, db')"
  shows "server_heartbeat d st now he md req db = (Ok \<lparr>hb_ok = True\<rparr>, db')"
  using assms by (simp add: server_heartbeat_def service_heartbeat_def tracker_record_def)

end
