(* ===== verification/FleetMain.thy ===== *)
theory FleetMain
  imports FleetServer
begin

text \<open>
  The start of the fleet server: its settings and their defaults (\<open>fleet-server-bin/src/settings.rs\<close>), the log format
  (\<open>fleet-tracing/src/config.rs\<close>), the set-up of logging (\<open>fleet-tracing/src/init.rs\<close>), of the pool (\<open>postgres-interface/src/pool.rs\<close>)
  and of the publisher (\<open>kafka-handler/src/lib.rs\<close>), and the steps of \<open>fleet-server-bin/src/main.rs\<close> up to the listener. The crates
  these call, which read the environment, parse filters, connect and produce, are third-party: their answers are inputs.
\<close>

section \<open>Logging\<close>

datatype fleet_log_format = FleetHuman | FleetJson

definition log_format_from_str :: "string \<Rightarrow> (string, fleet_log_format) result" where
  "log_format_from_str s =
     (let other = to_lowercase s in
      if other = ''json'' then Ok FleetJson
      else if other = ''human'' \<or> other = ''pretty'' then Ok FleetHuman
      else Err (''unknown log format '' @ [CHR 0x27] @ other @ [CHR 0x27] @ '': expected '' @ [CHR 0x27] @ ''json'' @ [CHR 0x27] @
        '' or '' @ [CHR 0x27] @ ''human'' @ [CHR 0x27]))"

record tracing_config =
  tc_log_level :: string
  tc_format :: fleet_log_format
  tc_service_name :: string

definition tracing_config_default :: tracing_config where
  "tracing_config_default = \<lparr>tc_log_level = ''info'', tc_format = FleetHuman, tc_service_name = ''fleet-server''\<rparr>"

text \<open>\<open>tracing_subscriber\<close>: the filter of \<open>RUST_LOG\<close>, where it is set and parses, the parser of directives, its lenient
  variant, and whether a subscriber is installed already.\<close>

record 'f tracing_world =
  tw_default_env :: "'f option"
  tw_try_new :: "string \<Rightarrow> 'f option"
  tw_new :: "string \<Rightarrow> 'f"
  tw_installed :: bool

datatype init_error = AlreadyInitialised | InvalidDirective string string

record fmt_layer =
  fl_json :: bool
  fl_target :: bool
  fl_thread_ids :: bool
  fl_thread_names :: bool
  fl_file :: bool
  fl_line_number :: bool
  fl_ansi :: bool
  fl_current_span :: bool
  fl_span_list :: bool

definition tracing_filter :: "'f tracing_world \<Rightarrow> string \<Rightarrow> 'f" where
  "tracing_filter w level = unwrap_or (unwrap_or (tw_new w ''info'') (tw_try_new w level)) (tw_default_env w)"

definition tracing_layer :: "fleet_log_format \<Rightarrow> fmt_layer" where
  "tracing_layer f = (case f of
     FleetHuman \<Rightarrow> \<lparr>fl_json = False, fl_target = True, fl_thread_ids = True, fl_thread_names = True, fl_file = True, fl_line_number = True,
       fl_ansi = True, fl_current_span = False, fl_span_list = False\<rparr>
   | FleetJson \<Rightarrow> \<lparr>fl_json = True, fl_target = True, fl_thread_ids = True, fl_thread_names = True, fl_file = True, fl_line_number = True,
       fl_ansi = False, fl_current_span = True, fl_span_list = True\<rparr>)"

text \<open>The subscriber that is installed: its filter and its layer.\<close>

definition tracing_init :: "'f tracing_world \<Rightarrow> tracing_config \<Rightarrow> (init_error, 'f \<times> fmt_layer) result" where
  "tracing_init w config =
     (let filter = tracing_filter w (tc_log_level config) in
      if tw_installed w then Err AlreadyInitialised else Ok (filter, tracing_layer (tc_format config)))"

section \<open>Pool and publisher\<close>

datatype pool_error = PoolConfig string

text \<open>In seconds.\<close>

record pool_timeouts =
  pt_wait :: nat
  pt_create :: nat
  pt_recycle :: nat

definition fleet_timeouts :: pool_timeouts where
  "fleet_timeouts = \<lparr>pt_wait = 3, pt_create = 5, pt_recycle = 2\<rparr>"

definition fleet_create_pool :: "(string \<Rightarrow> u64 \<Rightarrow> pool_timeouts \<Rightarrow> (string, unit) result) \<Rightarrow> string \<Rightarrow> u64 \<Rightarrow> (pool_error, unit) result" where
  "fleet_create_pool build database_url max_size = map_err PoolConfig (build database_url max_size fleet_timeouts)"

definition fleet_connect :: "(string \<Rightarrow> u64 \<Rightarrow> pool_timeouts \<Rightarrow> (string, unit) result) \<Rightarrow> string \<Rightarrow> (pool_error, unit) result" where
  "fleet_connect build database_url = fleet_create_pool build database_url 5"

definition publisher_new :: "((string \<times> string) list \<Rightarrow> (string, unit) result) \<Rightarrow> string \<Rightarrow> (string, unit) result" where
  "publisher_new create brokers = create
     [(''bootstrap.servers'', brokers), (''message.timeout.ms'', ''5000''), (''compression.type'', ''lz4''), (''linger.ms'', ''5''),
      (''batch.num.messages'', ''10000''), (''queue.buffering.max.messages'', ''100000''), (''queue.buffering.max.kbytes'', ''65536''),
      (''acks'', ''1'')]"

section \<open>Listener\<close>

text \<open>The parser of socket addresses, and the transport, which binds and serves until the shutdown.\<close>

record 'a listen_world =
  lw_parse :: "string \<Rightarrow> (string, 'a) result"
  lw_serve :: "'a \<Rightarrow> (string, unit) result"

datatype listener_error = ListenerUnauthenticated | ListenerMissingAuthHeader | Transport string | AddrParse string

definition serve_until_shutdown :: "'a listen_world \<Rightarrow> fleet_settings \<Rightarrow> (listener_error, unit) result" where
  "serve_until_shutdown w st =
     result_bind (map_err AddrParse (lw_parse w (bind_addr st))) (\<lambda>addr. map_err Transport (lw_serve w addr))"

section \<open>Settings\<close>

text \<open>The fields as the crate \<open>config\<close> found them in the environment, each of its type.\<close>

record raw_settings =
  rw_host :: "string option"
  rw_port :: "u16 option"
  rw_rust_log :: "string option"
  rw_log_format :: "string option"
  rw_database_url :: "string option"
  rw_kafka_brokers :: "string option"
  rw_kafka_topic_agents_events :: "string option"
  rw_jwt_secret :: "string option"
  rw_fleet_enrollment_secret :: "string option"
  rw_db_pool_max_size :: "u64 option"

definition load_settings :: "(string, raw_settings) result \<Rightarrow> (string, fleet_settings) result" where
  "load_settings source =
     result_bind source (\<lambda>r.
     result_bind (ok_or ''missing field `database_url`'' (rw_database_url r)) (\<lambda>url.
       Ok \<lparr>ss_host = unwrap_or ''0.0.0.0'' (rw_host r), ss_port = unwrap_or 50051 (rw_port r),
           ss_rust_log = unwrap_or ''info'' (rw_rust_log r), ss_log_format = unwrap_or ''human'' (rw_log_format r),
           ss_database_url = url, ss_kafka_brokers = rw_kafka_brokers r,
           ss_kafka_topic_agents_events = rw_kafka_topic_agents_events r,
           ss_jwt_secret = unwrap_or ''change-me-in-production'' (rw_jwt_secret r),
           ss_fleet_enrollment_secret = rw_fleet_enrollment_secret r,
           ss_db_pool_max_size = unwrap_or 20 (rw_db_pool_max_size r)\<rparr>))"

section \<open>Main\<close>

definition main_tracing :: "fleet_settings \<Rightarrow> tracing_config" where
  "main_tracing st = \<lparr>tc_log_level = ss_rust_log st,
     tc_format = unwrap_or FleetHuman (ok_opt (log_format_from_str (ss_log_format st))), tc_service_name = ''fleet-server''\<rparr>"

definition main_brokers :: "fleet_settings \<Rightarrow> string" where
  "main_brokers st = unwrap_or ''localhost:9092'' (ss_kafka_brokers st)"

record ('f, 'a) boot_env =
  be_source :: "(string, raw_settings) result"
  be_tracing :: "'f tracing_world"
  be_pool :: "string \<Rightarrow> u64 \<Rightarrow> pool_timeouts \<Rightarrow> (string, unit) result"
  be_producer :: "(string \<times> string) list \<Rightarrow> (string, unit) result"
  be_listen :: "'a listen_world"

datatype boot_error = SettingsFailed string | TracingFailed init_error | PoolFailed pool_error | PublisherPanic string | ServeFailed listener_error

text \<open>The settings the server runs with until it stops, or what kept it from starting.\<close>

definition fleet_main :: "('f, 'a) boot_env \<Rightarrow> (boot_error, fleet_settings) result" where
  "fleet_main env =
     result_bind (map_err SettingsFailed (load_settings (be_source env))) (\<lambda>st.
     result_bind (map_err TracingFailed (tracing_init (be_tracing env) (main_tracing st))) (\<lambda>_.
     result_bind (map_err PoolFailed (fleet_create_pool (be_pool env) (ss_database_url st) (ss_db_pool_max_size st))) (\<lambda>_.
     result_bind (map_err PublisherPanic (publisher_new (be_producer env) (main_brokers st))) (\<lambda>_.
     result_bind (map_err ServeFailed (serve_until_shutdown (be_listen env) st)) (\<lambda>_. Ok st)))))"

section \<open>Lemmas\<close>

lemma fleet_main_OkE:
  assumes "fleet_main env = Inr st"
  obtains r url where "be_source env = Inr r" "rw_database_url r = Some url" "load_settings (be_source env) = Inr st"
    "be_pool env url (ss_db_pool_max_size st) fleet_timeouts = Inr ()" "\<not> tw_installed (be_tracing env)"
proof -
  have l: "load_settings (be_source env) = Inr st" "be_pool env (ss_database_url st) (ss_db_pool_max_size st) fleet_timeouts = Inr ()"
    "\<not> tw_installed (be_tracing env)"
    using assms by (auto simp: fleet_main_def result_bind_Inr_iff fleet_create_pool_def tracing_init_def Let_def split: if_splits)
  then obtain r url where "be_source env = Inr r" "rw_database_url r = Some url" "ss_database_url st = url"
    by (auto simp: load_settings_def result_bind_Inr_iff ok_or_def split: option.splits)
  then show ?thesis using l that by blast
qed

text \<open>A level that does not parse is no error: the filter falls back to \<open>info\<close>, and only a second subscriber fails.\<close>

lemma tracing_init_fails_iff:
  "tracing_init w config = Inl e \<longleftrightarrow> tw_installed w \<and> e = AlreadyInitialised"
  by (auto simp: tracing_init_def Let_def)

section \<open>Properties\<close>

text \<open>The secrets the server runs with are those of its environment. A server that got as far as serving had a database
  address and its pool. It signs and checks tokens with the secret it was given, or with the text of the default when there was
  none, in which case a token that anybody signed with that text passes; and it asks for the enrollment secret it was given, every
  registration being let through when there was none or an empty one.\<close>

lemma server_secrets_as_configured:
  assumes "fleet_main env = Inr st"
  shows "\<exists>r url. be_source env = Inr r \<and> rw_database_url r = Some url \<and> be_pool env url (ss_db_pool_max_size st) fleet_timeouts = Inr ()
    \<and> sv_jwt_secret (server_config st) = unwrap_or ''change-me-in-production'' (rw_jwt_secret r)
    \<and> (secret_accepted d (server_config st) md \<longleftrightarrow> rw_fleet_enrollment_secret r \<in> {None, Some []} \<or>
        (provided_secret d md \<noteq> None \<and> provided_secret d md = rw_fleet_enrollment_secret r))
    \<and> (rw_jwt_secret r = None \<longrightarrow> jwt_laws d \<longrightarrow> fd_jwt_encode d ''change-me-in-production'' claims = Ok tok \<longrightarrow>
        now \<le> uint (nc_exp claims) \<longrightarrow>
        validate_token d now [(''authorization'', ''Bearer '' @ tok)] (sv_jwt_secret (server_config st)) = Ok claims)"
proof -
  obtain r url where r: "be_source env = Inr r" "rw_database_url r = Some url" "load_settings (be_source env) = Inr st"
    "be_pool env url (ss_db_pool_max_size st) fleet_timeouts = Inr ()"
    using fleet_main_OkE [OF assms] by blast
  then have st: "ss_jwt_secret st = unwrap_or ''change-me-in-production'' (rw_jwt_secret r)"
    "ss_fleet_enrollment_secret st = rw_fleet_enrollment_secret r"
    by (auto simp: load_settings_def ok_or_def)
  have "validate_token d now [(''authorization'', ''Bearer '' @ tok)] ''change-me-in-production'' = Ok claims"
    if "jwt_laws d" "fd_jwt_encode d ''change-me-in-production'' claims = Ok tok" "now \<le> uint (nc_exp claims)"
  proof -
    have "fd_to_str d (''Bearer '' @ tok) = Some (''Bearer '' @ tok)" "fd_jwt_decode d now ''change-me-in-production'' tok = Ok claims"
      using that by (auto simp: jwt_laws_def)
    then show ?thesis using validate_bearer [of d tok now "''change-me-in-production''"] by (simp add: map_err_def)
  qed
  then show ?thesis
    using r st by (intro exI [of _ r] exI [of _ url]) (auto simp: server_config_def secret_accepted_def split: option.splits)
qed

definition sample_boot :: "(string, string) boot_env" where
  "sample_boot = \<lparr>be_source = Inr \<lparr>rw_host = None, rw_port = None, rw_rust_log = None, rw_log_format = Some ''JSON'', rw_database_url = Some ''pg'',
     rw_kafka_brokers = None, rw_kafka_topic_agents_events = None, rw_jwt_secret = None, rw_fleet_enrollment_secret = Some ''s3cret'',
     rw_db_pool_max_size = None\<rparr>, be_tracing = \<lparr>tw_default_env = None, tw_try_new = Some, tw_new = (\<lambda>s. s), tw_installed = False\<rparr>, be_pool = (\<lambda>_ _ _. Inr ()), be_producer = (\<lambda>_. Inr ()), be_listen = \<lparr>lw_parse = Inr, lw_serve = (\<lambda>_. Inr ())\<rparr>\<rparr>"

lemma sample_boot_runs: "\<exists>st. fleet_main sample_boot = Inr st"
  by (simp add: fleet_main_def sample_boot_def load_settings_def ok_or_def map_err_def tracing_init_def fleet_create_pool_def
      publisher_new_def serve_until_shutdown_def)

lemma server_secrets_as_configured_witness:
  "\<exists>st. fleet_main sample_boot = Inr st \<and> sv_jwt_secret (server_config st) = ''change-me-in-production''
     \<and> \<not> secret_accepted sample_deps (server_config st) []"
proof -
  obtain st where st: "fleet_main sample_boot = Inr st" using sample_boot_runs by blast
  have "provided_secret sample_deps [] = None" by (simp add: provided_secret_def or_else_def)
  then show ?thesis
    using server_secrets_as_configured [OF st, of sample_deps "[]"] st by (auto simp: sample_boot_def)
qed

end
