(* ===== verification/KafkaPipeline.thy ===== *)
theory KafkaPipeline
  imports Json
begin

text \<open>
  The normalization pipeline, \<open>kafka-pipeline/src\<close>: the router that moves raw events to the typed topics
  or to the dead letter queue (\<open>event_router.rs\<close>), its counters (\<open>metrics.rs\<close>), the consumer that drives
  it (\<open>consumer.rs\<close>), and the provisioning of topics (\<open>bin/kafka-admin.rs\<close>).

  The trait \<open>MessageProcessor\<close> is the locale \<open>message_processor\<close>; the consumer's lemmas are proved in it
  and it is interpreted on the router. JSON parsing and printing and the broker's answers are arguments.
\<close>

section \<open>Counters\<close>

record pipeline_metrics =
  pm_consumed :: u64
  pm_routed_process :: u64
  pm_routed_network :: u64
  pm_routed_file :: u64
  pm_routed_auth :: u64
  pm_routed_dlq :: u64
  pm_routing_errors :: u64

definition metrics_new :: pipeline_metrics where
  "metrics_new = \<lparr>pm_consumed = 0, pm_routed_process = 0, pm_routed_network = 0, pm_routed_file = 0,
     pm_routed_auth = 0, pm_routed_dlq = 0, pm_routing_errors = 0\<rparr>"

definition inc_consumed :: "pipeline_metrics \<Rightarrow> pipeline_metrics" where
  "inc_consumed m = m\<lparr>pm_consumed := pm_consumed m + 1\<rparr>"

definition inc_routed :: "string \<Rightarrow> pipeline_metrics \<Rightarrow> pipeline_metrics" where
  "inc_routed target_topic m =
     (if target_topic = ''aigis.events.process'' then m\<lparr>pm_routed_process := pm_routed_process m + 1\<rparr>
      else if target_topic = ''aigis.events.network'' then m\<lparr>pm_routed_network := pm_routed_network m + 1\<rparr>
      else if target_topic = ''aigis.events.file'' then m\<lparr>pm_routed_file := pm_routed_file m + 1\<rparr>
      else if target_topic = ''aigis.events.auth'' then m\<lparr>pm_routed_auth := pm_routed_auth m + 1\<rparr>
      else m\<lparr>pm_routed_dlq := pm_routed_dlq m + 1\<rparr>)"

definition inc_errors :: "pipeline_metrics \<Rightarrow> pipeline_metrics" where
  "inc_errors m = m\<lparr>pm_routing_errors := pm_routing_errors m + 1\<rparr>"

definition topic_label :: "string \<Rightarrow> string" where
  "topic_label t = ''aigis_pipeline_events_routed_total{topic='' @ [CHR 0x22] @ t @ [CHR 0x22] @ ''} ''"

definition format_prometheus :: "pipeline_metrics \<Rightarrow> string" where
  "format_prometheus m = concat (map (\<lambda>l. l @ [newline])
     [''# HELP aigis_pipeline_events_consumed_total Total raw events consumed by normalization pipeline'',
      ''# TYPE aigis_pipeline_events_consumed_total counter'',
      ''aigis_pipeline_events_consumed_total '' @ show_nat (unat (pm_consumed m)),
      ''# HELP aigis_pipeline_events_routed_total Total events routed to typed topics'',
      ''# TYPE aigis_pipeline_events_routed_total counter'',
      topic_label ''aigis.events.process'' @ show_nat (unat (pm_routed_process m)),
      topic_label ''aigis.events.network'' @ show_nat (unat (pm_routed_network m)),
      topic_label ''aigis.events.file'' @ show_nat (unat (pm_routed_file m)),
      topic_label ''aigis.events.auth'' @ show_nat (unat (pm_routed_auth m)),
      topic_label ''aigis.events.dlq'' @ show_nat (unat (pm_routed_dlq m)),
      ''# HELP aigis_pipeline_routing_errors_total Total unparsable event errors encountered'',
      ''# TYPE aigis_pipeline_routing_errors_total counter'',
      ''aigis_pipeline_routing_errors_total '' @ show_nat (unat (pm_routing_errors m))])"

section \<open>The router\<close>

record kafka_in =
  ki_key :: "bytes option"
  ki_payload :: bytes
  ki_topic :: string
  ki_partition :: int
  ki_offset :: int

record kafka_out =
  ko_topic :: string
  ko_key :: bytes
  ko_payload :: bytes
  ko_headers :: "(string \<times> bytes) list"

record router =
  rt_metrics :: pipeline_metrics
  rt_sent :: "kafka_out list"  \<comment> \<open>what the broker accepted\<close>

definition DLQ :: string where "DLQ = ''aigis.events.dlq''"

definition route_topic :: "string \<Rightarrow> string option" where
  "route_topic event_type =
     (if event_type \<in> {''process_start'', ''process_end'', ''process'', ''process_events'', ''bpf_process_events'',
        ''processes'', ''osquery_result'', ''osquery_snapshot'', ''running_processes''} then Some ''aigis.events.process''
      else if event_type \<in> {''network_connect'', ''network_listen'', ''socket_events'', ''bpf_socket_events'', ''network'',
        ''listening_ports''} then Some ''aigis.events.network''
      else if event_type \<in> {''file_create'', ''file_modify'', ''file_delete'', ''file_events'', ''file''} then Some ''aigis.events.file''
      else if event_type \<in> {''user_login'', ''user_logout'', ''logged_in_users'', ''auth'', ''users''} then Some ''aigis.events.auth''
      else None)"

definition dlq_headers :: "kafka_in \<Rightarrow> string \<Rightarrow> (string \<times> bytes) list" where
  "dlq_headers m reason =
     [(''x-source-topic'', ki_topic m), (''x-original-partition'', show_int (ki_partition m)),
      (''x-original-offset'', show_int (ki_offset m)), (''x-error-reason'', reason)]"

text \<open>\<open>answer\<close> is the broker's.\<close>

definition router_send :: "(string, unit) result \<Rightarrow> kafka_out \<Rightarrow> router \<Rightarrow> (string, unit) result \<times> router" where
  "router_send answer rec s =
     (case answer of
        Inl e \<Rightarrow> (Err (''Kafka send error: '' @ e), s)
      | Inr _ \<Rightarrow> (Ok (), s\<lparr>rt_sent := rt_sent s @ [rec]\<rparr>))"

definition event_type_of :: "json \<Rightarrow> string" where
  "event_type_of event =
     (let query_name = Option.bind (Option.bind (jget ''payload'' event) (jget ''query_name'')) as_str;
          raw_event_type = Option.bind (jget ''event_type'' event) as_str
      in case raw_event_type of
           None \<Rightarrow> unwrap_or ''osquery'' query_name
         | Some et \<Rightarrow> if et = ''osquery'' then unwrap_or ''osquery'' query_name else et)"

definition target_topic :: "json \<Rightarrow> string" where
  "target_topic event = unwrap_or DLQ (route_topic (event_type_of event))"

definition category_of :: "string \<Rightarrow> string \<Rightarrow> string" where
  "category_of topic event_type =
     (if topic = ''aigis.events.process'' then ''process''
      else if topic = ''aigis.events.network'' then ''network''
      else if topic = ''aigis.events.file'' then ''file''
      else if topic = ''aigis.events.auth'' then ''auth''
      else event_type)"

definition normalize_event :: "json \<Rightarrow> string \<Rightarrow> json" where
  "normalize_event event category =
     (case event of JObject kvs \<Rightarrow> JObject (jinsert ''event_type'' (JString category) kvs) | _ \<Rightarrow> event)"

definition process :: "(bytes \<Rightarrow> (string, json) result) \<Rightarrow> (json \<Rightarrow> bytes option) \<Rightarrow> (string, unit) result
    \<Rightarrow> kafka_in \<Rightarrow> router \<Rightarrow> (string, unit) result \<times> router" where
  "process from_slice to_vec answer m s =
     (let s1 = s\<lparr>rt_metrics := inc_consumed (rt_metrics s)\<rparr> in
      case from_slice (ki_payload m) of
        Inl e \<Rightarrow>
          (let s2 = s1\<lparr>rt_metrics := inc_routed DLQ (inc_errors (rt_metrics s1))\<rparr>;
               rec = \<lparr>ko_topic = DLQ, ko_key = unwrap_or [] (ki_key m), ko_payload = ki_payload m,
                      ko_headers = dlq_headers m ''Invalid JSON payload''\<rparr>
           in case router_send answer rec s2 of
                (Inl err, s3) \<Rightarrow> (Err err, s3)
              | (Inr _, s3) \<Rightarrow> (Err (''Invalid JSON: '' @ e), s3))
      | Inr event \<Rightarrow>
          (let topic = target_topic event;
               s2 = s1\<lparr>rt_metrics := inc_routed topic (rt_metrics s1)\<rparr>;
               category = category_of topic (event_type_of event);
               outbound = (if topic \<noteq> DLQ
                 then unwrap_or (ki_payload m) (to_vec (normalize_event event category))
                 else ki_payload m);
               rec = \<lparr>ko_topic = topic, ko_key = unwrap_or [] (ki_key m), ko_payload = outbound,
                      ko_headers = (if topic = DLQ then dlq_headers m ''Unclassified event type'' else [])\<rparr>
           in router_send answer rec s2))"

section \<open>The consumer\<close>

text \<open>What the loop is woken by: the cancellation, a message with its environment and whether its
  commit is accepted, an error of the stream, or its end.\<close>

datatype 'e worker_item = Cancelled | Message kafka_in 'e bool | StreamError string | StreamEnd

text \<open>The loop over the items: the processor's state, and the (topic, partition, offset) committed.\<close>

fun worker_run :: "('e \<Rightarrow> kafka_in \<Rightarrow> 's \<Rightarrow> (string, unit) result \<times> 's) \<Rightarrow> 'e worker_item list \<Rightarrow> 's
    \<Rightarrow> 's \<times> (string \<times> int \<times> int) list" where
  "worker_run proc [] s = (s, [])"
| "worker_run proc (Cancelled # items) s = (s, [])"
| "worker_run proc (StreamEnd # items) s = (s, [])"
| "worker_run proc (StreamError e # items) s = worker_run proc items s"
| "worker_run proc (Message m e commit_ok # items) s =
     (case proc e m s of
        (_, s1) \<Rightarrow>
          (case worker_run proc items s1 of
             (s2, commits) \<Rightarrow>
               (s2, (if commit_ok then [(ki_topic m, ki_partition m, ki_offset m)] else []) @ commits)))"

section \<open>Provisioning of topics\<close>

record topic_spec =
  ts_name :: string
  ts_partitions :: int
  ts_retention_ms :: int

definition TOPICS :: "topic_spec list" where
  "TOPICS = map (\<lambda>(n, p, r). \<lparr>ts_name = n, ts_partitions = p, ts_retention_ms = r\<rparr>)
     [(''aigis.events.raw'', 64, 604800000), (''aigis.events.process'', 32, 1209600000),
      (''aigis.events.network'', 32, 1209600000), (''aigis.events.file'', 16, 1209600000),
      (''aigis.events.auth'', 16, 2592000000), (''aigis.heartbeats'', 8, 259200000),
      (''aigis.alerts'', 8, 7776000000), (''aigis.events.dlq'', 4, 2592000000)]"

datatype admin_error = UsageError | BrokersNeedsValue | BrokersRequired | UnknownCommand string

text \<open>The scan of the flags: the last \<open>--brokers\<close> wins; its absence of a value ends the scan.\<close>

fun parse_flags :: "string list \<Rightarrow> string option \<Rightarrow> (admin_error, string option) result" where
  "parse_flags [] acc = Ok acc"
| "parse_flags [a] acc = (if a = ''--brokers'' then Err BrokersNeedsValue else Ok acc)"
| "parse_flags (a # b # rest) acc =
     (if a = ''--brokers'' then parse_flags rest (Some b) else parse_flags (b # rest) acc)"

record new_topic =
  nt_name :: string
  nt_partitions :: int
  nt_config :: "(string \<times> string) list"

text \<open>What the tool asks the broker for: the brokers and the topics to create.\<close>

definition admin_main :: "string list \<Rightarrow> (admin_error, string \<times> new_topic list) result" where
  "admin_main args =
     (if length args < 4 then Err UsageError
      else result_bind (parse_flags (drop 2 args) None) (\<lambda>brokers_opt.
        case brokers_opt of
          None \<Rightarrow> Err BrokersRequired
        | Some brokers \<Rightarrow>
            if args ! 1 = ''create-topics''
            then Ok (brokers, map (\<lambda>t. \<lparr>nt_name = ts_name t, nt_partitions = ts_partitions t,
                   nt_config = [(''retention.ms'', show_int (ts_retention_ms t)), (''cleanup.policy'', ''delete'')]\<rparr>) TOPICS)
            else Err (UnknownCommand (args ! 1))))"

section \<open>The interface of processors\<close>

text \<open>The messages the loop reaches before it is cancelled or the stream ends.\<close>

definition worker_messages :: "'e worker_item list \<Rightarrow> (kafka_in \<times> bool) list" where
  "worker_messages items = concat (map (\<lambda>i. case i of Message m e ok \<Rightarrow> [(m, ok)] | _ \<Rightarrow> [])
     (takeWhile (\<lambda>i. i \<noteq> Cancelled \<and> i \<noteq> StreamEnd) items))"

lemma worker_messages_simps [simp]:
  "worker_messages [] = []"
  "worker_messages (Cancelled # items) = []"
  "worker_messages (StreamEnd # items) = []"
  "worker_messages (StreamError e # items) = worker_messages items"
  "worker_messages (Message m env ok # items) = (m, ok) # worker_messages items"
  by (simp_all add: worker_messages_def)

lemma worker_commits:
  "snd (worker_run proc items s) =
     map (\<lambda>(m, ok). (ki_topic m, ki_partition m, ki_offset m)) (filter snd (worker_messages items))"
  by (induction proc items s rule: worker_run.induct) (auto split: prod.splits)

text \<open>A processor counts what it is given, and accounts for every message exactly once.\<close>

locale message_processor =
  fixes proc :: "'e \<Rightarrow> kafka_in \<Rightarrow> 's \<Rightarrow> (string, unit) result \<times> 's"
    and consumed :: "'s \<Rightarrow> u64"
    and accounted :: "'s \<Rightarrow> u64"
  assumes proc_consumed: "consumed (snd (proc e m s)) = consumed s + 1"
    and proc_accounted: "accounted (snd (proc e m s)) = accounted s + 1"
begin

lemma worker_counts:
  "consumed (fst (worker_run proc items s)) = consumed s + of_nat (length (worker_messages items)) \<and>
   accounted (fst (worker_run proc items s)) = accounted s + of_nat (length (worker_messages items))"
proof (induction items arbitrary: s)
  case Nil
  then show ?case by simp
next
  case (Cons item items)
  show ?case
  proof (cases item)
    case (Message m e ok)
    have "fst (worker_run proc (item # items) s) = fst (worker_run proc items (snd (proc e m s)))"
      by (simp add: Message split: prod.splits)
    then show ?thesis
      using Cons.IH [of "snd (proc e m s)"] by (simp add: Message proc_consumed proc_accounted)
  qed (use Cons.IH in simp_all)
qed

text \<open>As many messages are accounted for as are consumed.\<close>

lemma worker_conserves:
  "consumed s = accounted s \<Longrightarrow>
     consumed (fst (worker_run proc items s)) = accounted (fst (worker_run proc items s))"
  using worker_counts [of items s] by simp

end

section \<open>The router is a processor\<close>

definition routed_total :: "router \<Rightarrow> u64" where
  "routed_total s = (let m = rt_metrics s in pm_routed_process m + pm_routed_network m + pm_routed_file m +
     pm_routed_auth m + pm_routed_dlq m)"

definition router_consumed :: "router \<Rightarrow> u64" where
  "router_consumed s = pm_consumed (rt_metrics s)"

lemma router_send_metrics [simp]: "rt_metrics (snd (router_send a rec s)) = rt_metrics s"
  by (simp add: router_send_def split: sum.split)

lemma process_metrics:
  "\<exists>topic m1. rt_metrics (snd (process from_slice to_vec answer m s)) = inc_routed topic m1 \<and>
     (m1 = inc_consumed (rt_metrics s) \<or> m1 = inc_errors (inc_consumed (rt_metrics s)))"
proof (cases "from_slice (ki_payload m)")
  case (Inl e)
  have "rt_metrics (snd (process from_slice to_vec answer m s)) = inc_routed DLQ (inc_errors (inc_consumed (rt_metrics s)))"
    using Inl by (cases answer) (simp_all add: process_def Let_def router_send_def)
  then show ?thesis by blast
next
  case (Inr event)
  then show ?thesis by (auto simp: process_def Let_def)
qed

lemma inc_routed_counts:
  "pm_consumed (inc_routed t m) = pm_consumed m"
  "pm_routed_process (inc_routed t m) + pm_routed_network (inc_routed t m) + pm_routed_file (inc_routed t m) +
     pm_routed_auth (inc_routed t m) + pm_routed_dlq (inc_routed t m) =
   pm_routed_process m + pm_routed_network m + pm_routed_file m + pm_routed_auth m + pm_routed_dlq m + 1"
  by (simp_all add: inc_routed_def)

interpretation router: message_processor "process from_slice to_vec" router_consumed routed_total for from_slice to_vec
proof
  fix e m s
  obtain topic m1 where p: "rt_metrics (snd (process from_slice to_vec e m s)) = inc_routed topic m1"
    "m1 = inc_consumed (rt_metrics s) \<or> m1 = inc_errors (inc_consumed (rt_metrics s))"
    using process_metrics by blast
  show "router_consumed (snd (process from_slice to_vec e m s)) = router_consumed s + 1"
    using p by (auto simp: router_consumed_def inc_routed_counts(1) inc_consumed_def inc_errors_def)
  show "routed_total (snd (process from_slice to_vec e m s)) = routed_total s + 1"
    unfolding routed_total_def Let_def p(1) inc_routed_counts(2)
    using p(2) by (auto simp: inc_consumed_def inc_errors_def)
qed

section \<open>Properties\<close>

lemma route_topic_range:
  "route_topic et = Some t \<Longrightarrow> t \<in> {''aigis.events.process'', ''aigis.events.network'', ''aigis.events.file'', ''aigis.events.auth''}"
  by (auto simp: route_topic_def split: if_splits)

lemma route_topic_category:
  "t \<in> {''aigis.events.process'', ''aigis.events.network'', ''aigis.events.file'', ''aigis.events.auth''} \<Longrightarrow>
     route_topic (category_of t et) = Some t \<and> category_of t et \<noteq> ''osquery''"
  by (auto simp: route_topic_def category_of_def)

lemma target_topic_cases:
  "target_topic event = DLQ \<or>
   target_topic event \<in> {''aigis.events.process'', ''aigis.events.network'', ''aigis.events.file'', ''aigis.events.auth''}"
  using route_topic_range by (cases "route_topic (event_type_of event)") (auto simp: target_topic_def)

lemma event_type_of_explicit:
  "Option.bind (jget ''event_type'' event) as_str = Some et \<Longrightarrow> et \<noteq> ''osquery'' \<Longrightarrow> event_type_of event = et"
  by (simp add: event_type_of_def)

definition start_router :: router where
  "start_router = \<lparr>rt_metrics = metrics_new, rt_sent = []\<rparr>"

text \<open>The messages the loop reaches, each with what the broker answers to its record.\<close>

definition worker_inputs :: "'e worker_item list \<Rightarrow> (kafka_in \<times> 'e) list" where
  "worker_inputs items = concat (map (\<lambda>i. case i of Message m e ok \<Rightarrow> [(m, e)] | _ \<Rightarrow> [])
     (takeWhile (\<lambda>i. i \<noteq> Cancelled \<and> i \<noteq> StreamEnd) items))"

lemma worker_inputs_simps [simp]:
  "worker_inputs [] = []"
  "worker_inputs (Cancelled # items) = []"
  "worker_inputs (StreamEnd # items) = []"
  "worker_inputs (StreamError e # items) = worker_inputs items"
  "worker_inputs (Message m env ok # items) = (m, env) # worker_inputs items"
  by (simp_all add: worker_inputs_def)

lemma worker_run_fold: "fst (worker_run proc items s) = fold (\<lambda>(m, e) s. snd (proc e m s)) (worker_inputs items) s"
  by (induction proc items s rule: worker_run.induct) (auto split: prod.splits)

lemma worker_messages_inputs: "map fst (worker_messages items) = map fst (worker_inputs items)"
proof (induction items)
  case (Cons item items)
  then show ?case by (cases item) simp_all
qed simp

lemma process_errors:
  "pm_routing_errors (rt_metrics (snd (process from_slice to_vec answer m s))) =
     pm_routing_errors (rt_metrics s) + (if is_ok (from_slice (ki_payload m)) then 0 else 1)"
  by (cases "from_slice (ki_payload m)"; cases answer)
    (simp_all add: process_def Let_def router_send_def inc_routed_def inc_errors_def inc_consumed_def)

lemma fold_process_errors:
  "pm_routing_errors (rt_metrics (fold (\<lambda>(m, e) s. snd (process from_slice to_vec e m s)) ms s)) =
     pm_routing_errors (rt_metrics s) + of_nat (length (filter (\<lambda>m. \<not> is_ok (from_slice (ki_payload m))) (map fst ms)))"
  by (induction ms arbitrary: s) (auto simp: process_errors)

text \<open>C34: the counters account for every event: after any run of the consumer from the start, with any
  mixture of valid, invalid and unclassified events, broker failures and stream errors, the counter of events
  consumed is the number of messages reached; it equals the sum of the counters of the four typed
  topics and of the dead letter queue; and the counter of routing errors is the number of those messages whose payload is not JSON.\<close>

theorem pipeline_accounts_for_all:
  "router_consumed (fst (worker_run (process from_slice to_vec) items start_router)) = of_nat (length (worker_messages items)) \<and>
   routed_total (fst (worker_run (process from_slice to_vec) items start_router)) = of_nat (length (worker_messages items)) \<and>
   pm_routing_errors (rt_metrics (fst (worker_run (process from_slice to_vec) items start_router))) =
     of_nat (length (filter (\<lambda>m. \<not> is_ok (from_slice (ki_payload m))) (map fst (worker_messages items))))"
  using router.worker_counts [of from_slice to_vec items start_router]
  by (simp add: worker_run_fold fold_process_errors worker_messages_inputs router_consumed_def routed_total_def start_router_def metrics_new_def)

text \<open>Normalization is stable: an event object that was routed to a typed topic would be routed to the
  same topic again, its type is now the topic's category, every other field is as it was, and every
  topic the router writes to is among those the provisioning tool creates.\<close>

lemma normalization_stable:
  "target_topic event \<in> set (map ts_name TOPICS) \<and>
   (case event of
      JObject kvs \<Rightarrow>
        target_topic event = DLQ \<or>
        target_topic (normalize_event event (category_of (target_topic event) (event_type_of event))) = target_topic event \<and>
        (case normalize_event event (category_of (target_topic event) (event_type_of event)) of
           JObject kvs' \<Rightarrow> map_of kvs' = (map_of kvs)(''event_type'' \<mapsto> JString (category_of (target_topic event) (event_type_of event)))
         | _ \<Rightarrow> False)
    | _ \<Rightarrow> True)"
proof -
  have "target_topic event \<in> set (map ts_name TOPICS)"
    using target_topic_cases [of event] by (auto simp: TOPICS_def DLQ_def)
  moreover have "target_topic (JObject (jinsert ''event_type'' (JString (category_of (target_topic e) (event_type_of e))) kvs)) = target_topic e"
    if "target_topic e \<noteq> DLQ" for e kvs
  proof -
    have t: "target_topic e \<in> {''aigis.events.process'', ''aigis.events.network'', ''aigis.events.file'', ''aigis.events.auth''}"
      using target_topic_cases that by blast
    have "event_type_of (JObject (jinsert ''event_type'' (JString (category_of (target_topic e) (event_type_of e))) kvs)) =
        category_of (target_topic e) (event_type_of e)"
      using route_topic_category [OF t] by (intro event_type_of_explicit) simp_all
    then show ?thesis
      using route_topic_category [OF t] by (simp add: target_topic_def)
  qed
  ultimately show ?thesis
    by (auto simp: normalize_event_def split: json.split)
qed

text \<open>Types of the guide's routing matrix that the router does not know.\<close>

lemma guide_types_unrouted:
  "list_all (\<lambda>t. route_topic t = None) [''process_terminate'', ''exec'', ''socket_connect'', ''bind'', ''listen'', ''sudo_exec'', ''pam_auth'']"
  by (simp add: route_topic_def)

section \<open>The records of a run\<close>

text \<open>What a record has to do with the message it was made of, in terms of what a reader of both decodes. A dead letter is the message
  byte for byte, with headers that say where it was; a record of a typed topic has no headers and decodes to the message's event, of
  which only the type was replaced, by the category that the topic is named after, so that it would be routed to this topic again.\<close>

definition faithful_record :: "(bytes \<Rightarrow> (string, json) result) \<Rightarrow> kafka_in \<Rightarrow> kafka_out \<Rightarrow> bool" where
  "faithful_record from_slice m rec \<longleftrightarrow> ko_key rec = unwrap_or [] (ki_key m) \<and> ko_topic rec \<in> set (map ts_name TOPICS) \<and>
     (if ko_topic rec = ''aigis.events.dlq''
      then ko_payload rec = ki_payload m \<and> map_of (ko_headers rec) ''x-source-topic'' = Some (ki_topic m) \<and>
        map_of (ko_headers rec) ''x-original-partition'' = Some (show_int (ki_partition m)) \<and>
        map_of (ko_headers rec) ''x-original-offset'' = Some (show_int (ki_offset m)) \<and> ''x-error-reason'' \<in> fst ` set (ko_headers rec)
      else ko_headers rec = [] \<and> (\<exists>ev ev' category. from_slice (ki_payload m) = Inr ev \<and> from_slice (ko_payload rec) = Inr ev' \<and>
        ko_topic rec = ''aigis.events.'' @ category \<and> target_topic ev' = ko_topic rec \<and>
        (\<forall>k. jget k ev' = (if k = ''event_type'' then Some (JString category) else jget k ev))))"

text \<open>What \<open>serde_json\<close> promises here: an event that was parsed, with its type replaced, is printed, and parses to itself.\<close>

definition reads_back :: "(bytes \<Rightarrow> (string, json) result) \<Rightarrow> (json \<Rightarrow> bytes option) \<Rightarrow> bool" where
  "reads_back from_slice to_vec \<longleftrightarrow> (\<forall>b ev c. from_slice b = Inr ev \<longrightarrow>
     (\<exists>b'. to_vec (normalize_event ev c) = Some b' \<and> from_slice b' = Inr (normalize_event ev c)))"

lemma target_topic_object: "target_topic ev \<noteq> DLQ \<Longrightarrow> \<exists>kvs. ev = JObject kvs"
  by (cases ev) (auto simp: target_topic_def event_type_of_def jget_def route_topic_def)

lemma category_of_topic:
  "t \<in> {''aigis.events.process'', ''aigis.events.network'', ''aigis.events.file'', ''aigis.events.auth''} \<Longrightarrow> t = ''aigis.events.'' @ category_of t et"
  by (auto simp: category_of_def)

lemma typed_record_faithful:
  assumes "reads_back from_slice to_vec" and "from_slice (ki_payload m) = Inr ev" and "target_topic ev \<noteq> DLQ"
  shows "faithful_record from_slice m \<lparr>ko_topic = target_topic ev, ko_key = unwrap_or [] (ki_key m),
    ko_payload = unwrap_or (ki_payload m) (to_vec (normalize_event ev (category_of (target_topic ev) (event_type_of ev)))), ko_headers = []\<rparr>"
proof -
  let ?c = "category_of (target_topic ev) (event_type_of ev)"
  obtain kvs where ev: "ev = JObject kvs" using target_topic_object [OF assms(3)] by blast
  obtain b where b: "to_vec (normalize_event ev ?c) = Some b" "from_slice b = Inr (normalize_event ev ?c)"
    using assms(1,2) unfolding reads_back_def by blast
  have t: "target_topic ev = ''aigis.events.'' @ ?c" "target_topic ev \<in> set (map ts_name TOPICS)" "target_topic ev \<noteq> ''aigis.events.dlq''"
    using target_topic_cases [of ev] category_of_topic [of "target_topic ev"] assms(3) normalization_stable [of ev] by (auto simp: DLQ_def)
  have "target_topic (normalize_event ev ?c) = target_topic ev" using normalization_stable [of ev] assms(3) ev by simp
  moreover have "jget k (normalize_event ev ?c) = (if k = ''event_type'' then Some (JString ?c) else jget k ev)" for k
    by (simp add: ev normalize_event_def)
  ultimately show ?thesis using assms(2) b t by (auto simp: faithful_record_def)
qed

lemma dead_letter_faithful:
  "faithful_record from_slice m \<lparr>ko_topic = DLQ, ko_key = unwrap_or [] (ki_key m), ko_payload = ki_payload m, ko_headers = dlq_headers m reason\<rparr>"
  by (simp add: faithful_record_def dlq_headers_def DLQ_def TOPICS_def)

lemma process_sends:
  assumes "reads_back from_slice to_vec"
  shows "\<exists>rec. rt_sent (snd (process from_slice to_vec answer m s)) = rt_sent s @ (if is_ok answer then [rec] else []) \<and>
    faithful_record from_slice m rec"
proof (cases "from_slice (ki_payload m)")
  case (Inl e)
  then show ?thesis
    using dead_letter_faithful by (cases answer) (auto simp: process_def Let_def router_send_def is_ok_def)
next
  case (Inr ev)
  show ?thesis
  proof (cases "target_topic ev = DLQ")
    case True
    then show ?thesis using Inr dead_letter_faithful by (cases answer) (auto simp: process_def Let_def router_send_def is_ok_def)
  next
    case False
    then show ?thesis
      using Inr typed_record_faithful [OF assms Inr False] by (cases answer) (auto simp: process_def Let_def router_send_def is_ok_def)
  qed
qed

lemma fold_process_sends:
  assumes "reads_back from_slice to_vec"
  shows "\<exists>sent. rt_sent (fold (\<lambda>(m, e) s. snd (process from_slice to_vec e m s)) ms s) = rt_sent s @ sent \<and>
    list_all2 (\<lambda>(m, answer) rec. faithful_record from_slice m rec) (filter (\<lambda>(m, answer). is_ok answer) ms) sent"
proof (induction ms arbitrary: s)
  case (Cons x ms)
  obtain m answer where x: "x = (m, answer)" by fastforce
  obtain rec where "rt_sent (snd (process from_slice to_vec answer m s)) = rt_sent s @ (if is_ok answer then [rec] else [])"
      "faithful_record from_slice m rec"
    using process_sends [OF assms] by blast
  then show ?case using Cons [of "snd (process from_slice to_vec answer m s)"] by (auto simp: x)
qed simp


definition sample_raw :: json where
  "sample_raw = JObject [(''event_type'', JString ''listening_ports''), (''port'', JInt 22)]"

definition sample_slice :: "bytes \<Rightarrow> (string, json) result" where
  "sample_slice b = (if b = ''raw'' then Inr sample_raw else if take 1 b = ''n'' then Inr (normalize_event sample_raw (drop 1 b)) else Inl ''bad'')"

definition sample_vec :: "json \<Rightarrow> bytes option" where
  "sample_vec v = map_option (\<lambda>t. ''n'' @ t) (Option.bind (jget ''event_type'' v) as_str)"

lemma sample_reads_back: "reads_back sample_slice sample_vec"
  unfolding reads_back_def
  by (auto simp: sample_slice_def sample_vec_def sample_raw_def normalize_event_def jinsert_def split: if_splits)


end
