(* ===== verification/PipelineMain.thy ===== *)
theory PipelineMain
  imports KafkaPipeline
begin

text \<open>
  The pipeline's executable, \<open>kafka-pipeline/src/main.rs\<close>: its two variables, the probe's server (\<open>health.rs\<close>), the
  producer and the consumer it is built from (\<open>consumer.rs\<close>), and its run until the stream ends or the signal comes.
  What the socket, the Kafka library and the broker answer are inputs.
\<close>

record pipeline_world =
  pw_env :: "string \<Rightarrow> string option"
  pw_bind :: "string \<Rightarrow> (string, unit) result"
  pw_producer :: "(string \<times> string) list \<Rightarrow> (string, unit) result"
  pw_consumer :: "(string \<times> string) list \<Rightarrow> (string, unit) result"
  pw_subscribe :: "string list \<Rightarrow> (string, unit) result"

datatype pipeline_failure = PipelineBind string | ProducerPanic string | PipelineWorker string

definition pipeline_brokers :: "(string \<Rightarrow> string option) \<Rightarrow> string" where
  "pipeline_brokers env = unwrap_or ''localhost:29092'' (env ''KAFKA_BROKERS'')"

definition pipeline_health_port :: "(string \<Rightarrow> string option) \<Rightarrow> nat" where
  "pipeline_health_port env = unwrap_or 8082 (Option.bind (env ''HEALTH_PORT'') (parse_unsigned 16))"

definition consumer_worker_new :: "((string \<times> string) list \<Rightarrow> (string, unit) result) \<Rightarrow> (string list \<Rightarrow> (string, unit) result)
    \<Rightarrow> string \<Rightarrow> string \<Rightarrow> string list \<Rightarrow> (string, unit) result" where
  "consumer_worker_new create subscribe brokers group_id topics =
     result_bind (map_err (\<lambda>e. ''Consumer creation error: '' @ e) (create
       [(''bootstrap.servers'', brokers), (''group.id'', group_id), (''auto.offset.reset'', ''earliest''),
        (''enable.auto.commit'', ''false''), (''auto.commit.interval.ms'', ''1000''), (''fetch.min.bytes'', ''1''),
        (''fetch.wait.max.ms'', ''100''), (''max.poll.interval.ms'', ''300000''), (''session.timeout.ms'', ''45000'')])) (\<lambda>_.
       map_err (\<lambda>e. ''Topic subscription error: '' @ e) (subscribe topics))"

definition router_producer :: "((string \<times> string) list \<Rightarrow> (string, unit) result) \<Rightarrow> string \<Rightarrow> (pipeline_failure, unit) result" where
  "router_producer create brokers = map_err ProducerPanic (create
     [(''bootstrap.servers'', brokers), (''linger.ms'', ''5''), (''compression.type'', ''lz4''), (''batch.num.messages'', ''10000''),
      (''queue.buffering.max.messages'', ''100000''), (''queue.buffering.max.kbytes'', ''65536''), (''acks'', ''1'')])"

definition pipeline_health_router :: "pipeline_metrics \<Rightarrow> string \<Rightarrow> nat \<times> string" where
  "pipeline_health_router m path =
     (if path = ''/health/live'' \<or> path = ''/healthz'' then (200, ''OK'')
      else if path = ''/health/ready'' \<or> path = ''/readyz'' then (200, ''READY'')
      else if path = ''/metrics'' then (200, format_prometheus m)
      else (404, []))"

text \<open>The run: \<open>proc\<close> is the processor on its state, \<open>items\<close> what the stream and the token bring.\<close>

definition pipeline_main :: "pipeline_world \<Rightarrow> ('e \<Rightarrow> kafka_in \<Rightarrow> 's \<Rightarrow> (string, unit) result \<times> 's) \<Rightarrow> 'e worker_item list \<Rightarrow> 's
    \<Rightarrow> (pipeline_failure, 's) result" where
  "pipeline_main w proc items s =
     result_bind (map_err PipelineBind (pw_bind w (''0.0.0.0:'' @ show_nat (pipeline_health_port (pw_env w))))) (\<lambda>_.
     result_bind (router_producer (pw_producer w) (pipeline_brokers (pw_env w))) (\<lambda>_.
     result_bind (map_err PipelineWorker (consumer_worker_new (pw_consumer w) (pw_subscribe w) (pipeline_brokers (pw_env w))
       ''aigis-event-router'' [''aigis.events.raw''])) (\<lambda>_.
     Ok (fst (worker_run proc items s)))))"

text \<open>A pipeline that does not start leaves the processor as it was; one that starts runs the worker, whatever the stream brings.\<close>

lemma pipeline_main_runs:
  "pipeline_main w proc items s = Inr s' \<longleftrightarrow>
     is_ok (pw_bind w (''0.0.0.0:'' @ show_nat (pipeline_health_port (pw_env w)))) \<and>
     is_ok (router_producer (pw_producer w) (pipeline_brokers (pw_env w))) \<and>
     is_ok (consumer_worker_new (pw_consumer w) (pw_subscribe w) (pipeline_brokers (pw_env w)) ''aigis-event-router'' [''aigis.events.raw'']) \<and>
     s' = fst (worker_run proc items s)"
  by (auto simp: pipeline_main_def result_bind_def is_ok_def map_err_def split: sum.splits)

end
