(* ===== verification/Floats.thy ===== *)
theory Floats
  imports Prelude
begin

text \<open>
  The floating-point values of the alerts, as the bits of IEEE-754 numbers: an \<open>f32\<close> is a
  \<^typ>\<open>32 word\<close>, an \<open>f64\<close> a \<^typ>\<open>64 word\<close>. Modelled are the casts the sources use
  (\<open>i64 as f32\<close>, \<open>f64 as f32\<close>), which round to the nearest value and ties to even, and the
  comparison with \<open>0.0\<close>.
\<close>

type_synonym f32 = "32 word"
type_synonym f64 = "64 word"

definition f32_five :: f32 where "f32_five = 0x40A00000"

text \<open>\<open>x == 0.0\<close> holds of both zeros.\<close>

definition f32_is_zero :: "f32 \<Rightarrow> bool" where
  "f32_is_zero x \<longleftrightarrow> x = 0 \<or> x = 0x80000000"

function bit_len :: "int \<Rightarrow> int" where
  "bit_len n = (if n \<le> 0 then 0 else 1 + bit_len (n div 2))"
  by pat_completeness auto
termination
  by (relation "measure nat") auto

declare bit_len.simps [simp del]

text \<open>\<open>n / 2^s\<close> rounded to the nearest integer, ties to even.\<close>

definition round_shift :: "int \<Rightarrow> nat \<Rightarrow> int" where
  "round_shift n s =
     (if s = 0 then n
      else let q = n div 2 ^ s; r = n mod 2 ^ s; h = 2 ^ (s - 1)
           in if h < r \<or> r = h \<and> odd q then q + 1 else q)"

text \<open>The bits, without the sign, of the \<open>f32\<close> nearest to \<open>m * 2^k\<close>: the significand is kept
  at 24 bits, or fewer below the exponent \<open>- 126\<close>; a carry out of the significand moves into the
  exponent, and an exponent above 127 gives infinity.\<close>

definition f32_magnitude :: "int \<Rightarrow> int \<Rightarrow> int" where
  "f32_magnitude m k =
     (if m = 0 then 0
      else let E = bit_len m - 1 + k; e = max E (- 126); s = e - 23 - k;
               q = (if s \<le> 0 then m * 2 ^ nat (- s) else round_shift m (nat s))
           in if 127 < E then 0x7F800000
              else if E < - 126 then q
              else (e + 127) * 2 ^ 23 + q - 2 ^ 23)"

definition f32_pack :: "bool \<Rightarrow> int \<Rightarrow> f32" where
  "f32_pack neg mag = word_of_int ((if neg then 2 ^ 31 else 0) + mag)"

definition i64_as_f32 :: "int \<Rightarrow> f32" where
  "i64_as_f32 i = f32_pack (i < 0) (f32_magnitude \<bar>i\<bar> 0)"

definition f64_as_f32 :: "f64 \<Rightarrow> f32" where
  "f64_as_f32 x =
     (let n = uint x; neg = (2 ^ 63 \<le> n); e = n div 2 ^ 52 mod 2 ^ 11; f = n mod 2 ^ 52
      in if e = 2047 then (if f = 0 then f32_pack neg 0x7F800000 else f32_pack neg 0x7FC00000)
         else if e = 0 then f32_pack neg (f32_magnitude f (- 1074))
         else f32_pack neg (f32_magnitude (2 ^ 52 + f) (e - 1075)))"

text \<open>\<open>i64 as f64\<close> and \<open>u64 as f64\<close>: the magnitude is below \<open>2^64\<close>, so the exponent needs no bounds.\<close>

definition int_as_f64 :: "int \<Rightarrow> f64" where
  "int_as_f64 i =
     (if i = 0 then 0
      else let m = \<bar>i\<bar>; e = bit_len m - 1; s = e - 52;
               q = (if s \<le> 0 then m * 2 ^ nat (- s) else round_shift m (nat s))
           in word_of_int ((if i < 0 then 2 ^ 63 else 0) + (e + 1023) * 2 ^ 52 + q - 2 ^ 52))"

lemma f32_is_zero_zero [simp]: "f32_is_zero 0"
  by (simp add: f32_is_zero_def)

lemma i64_as_f32_zero [simp]: "i64_as_f32 0 = 0"
  by (simp add: i64_as_f32_def f32_magnitude_def f32_pack_def)

end
