(* ===== verification/RuleModels.thy ===== *)
theory RuleModels
  imports Json Floats
begin

text \<open>
  The values of the rule engine, \<open>rule-engine/src/models.rs\<close> and \<open>error.rs\<close>: events, alerts, the rows
  they are stored as, and the errors; and the MITRE taxonomy that enriches alerts
  (\<open>mitre/taxonomy.rs\<close>), with its trait \<open>MitreCatalog\<close> as the locale \<open>mitre_catalog\<close>.
\<close>

section \<open>Errors\<close>

datatype app_error =
    RuleCompilation string nat string
  | ScanFailure string string
  | MitreTaxonomyLoad string
  | EventDeserialization string
  | DatabasePool string
  | DatabaseQuery string
  | KafkaProduce string
  | KafkaConsume string
  | Config string
  | Serialization string
  | Io string

section \<open>Events and alerts\<close>

datatype alert_severity = Low | Medium | High | Critical

fun severity_str :: "alert_severity \<Rightarrow> string" where
  "severity_str Low = ''low''"
| "severity_str Medium = ''medium''"
| "severity_str High = ''high''"
| "severity_str Critical = ''critical''"

datatype detection_source = YaraX | Sigma | Mitre | Behavioral

fun source_str :: "detection_source \<Rightarrow> string" where
  "source_str YaraX = ''yara_x''"
| "source_str Sigma = ''sigma''"
| "source_str Mitre = ''mitre''"
| "source_str Behavioral = ''behavioral''"

record telemetry_event =
  te_id :: string
  te_node_id :: uuid
  te_hostname :: string
  te_event_type :: string
  te_timestamp_ns :: i64
  te_payload :: json
  te_raw_sequence_id :: "string option"

record alert =
  al_alert_id :: uuid
  al_node_id :: uuid
  al_hostname :: string
  al_severity :: alert_severity
  al_source :: detection_source
  al_mitre_technique_id :: "string option"
  al_mitre_tactic :: "string option"
  al_description :: string
  al_triggering_event_id :: "string option"
  al_threat_score :: f32
  al_status :: string
  al_created_at :: timestamp

record new_alert_entity =
  na_alert_id :: uuid
  na_node_id :: uuid
  na_hostname :: string
  na_severity :: string
  na_source :: string
  na_mitre_technique_id :: "string option"
  na_mitre_tactic :: "string option"
  na_description :: string
  na_triggering_event_id :: "string option"
  na_threat_score :: f32
  na_status :: string
  na_created_at :: timestamp

definition entity_of_alert :: "alert \<Rightarrow> new_alert_entity" where
  "entity_of_alert a =
     \<lparr>na_alert_id = al_alert_id a, na_node_id = al_node_id a, na_hostname = al_hostname a,
      na_severity = severity_str (al_severity a), na_source = source_str (al_source a),
      na_mitre_technique_id = al_mitre_technique_id a, na_mitre_tactic = al_mitre_tactic a,
      na_description = al_description a, na_triggering_event_id = al_triggering_event_id a,
      na_threat_score = al_threat_score a, na_status = al_status a, na_created_at = al_created_at a\<rparr>"

lemma severity_str_inj [simp]: "severity_str a = severity_str b \<longleftrightarrow> a = b"
  by (cases a; cases b) simp_all

lemma source_str_inj [simp]: "source_str a = source_str b \<longleftrightarrow> a = b"
  by (cases a; cases b) simp_all

text \<open>The conversion to a row loses nothing.\<close>

lemma entity_of_alert_inj: "entity_of_alert a = entity_of_alert b \<Longrightarrow> a = (b :: alert)"
  by (simp add: entity_of_alert_def)

section \<open>The MITRE taxonomy\<close>

record mitre_technique =
  mt_technique_id :: string
  mt_technique_name :: string
  mt_tactic :: string
  mt_tactic_id :: string
  mt_default_severity :: alert_severity
  mt_base_threat_score :: f32
  mt_description :: string

record mitre_taxonomy =
  tx_techniques :: "(string \<times> mitre_technique) list"  \<comment> \<open>a \<open>HashMap\<close>: only lookups\<close>

definition empty_taxonomy :: mitre_taxonomy where
  "empty_taxonomy = \<lparr>tx_techniques = []\<rparr>"

text \<open>\<open>parse\<close> is \<open>serde_json::from_str\<close> at the type of the table.\<close>

definition load_from_json :: "(string \<Rightarrow> (string, (string \<times> mitre_technique) list) result) \<Rightarrow> string
    \<Rightarrow> (string, mitre_taxonomy) result" where
  "load_from_json parse json_str =
     result_bind (parse json_str) (\<lambda>techniques. Ok \<lparr>tx_techniques = techniques\<rparr>)"

text \<open>\<open>content\<close> is what reading the file gives.\<close>

definition load_from_file :: "(string \<Rightarrow> (string, (string \<times> mitre_technique) list) result)
    \<Rightarrow> string \<Rightarrow> (string, string) result \<Rightarrow> (app_error, mitre_taxonomy) result" where
  "load_from_file parse path content =
     result_bind (map_err (\<lambda>e. MitreTaxonomyLoad (''Failed to read '' @ path @ '': '' @ e)) content)
       (\<lambda>c. map_err (\<lambda>e. MitreTaxonomyLoad (''Failed to parse JSON: '' @ e)) (load_from_json parse c))"

definition taxonomy_len :: "mitre_taxonomy \<Rightarrow> nat" where
  "taxonomy_len tx = length (tx_techniques tx)"

definition resolve_technique :: "mitre_taxonomy \<Rightarrow> string \<Rightarrow> mitre_technique option" where
  "resolve_technique tx technique_id = map_of (tx_techniques tx) technique_id"

definition enrich_alert :: "mitre_taxonomy \<Rightarrow> string \<Rightarrow> alert \<Rightarrow> alert" where
  "enrich_alert tx technique_id alert =
     (case resolve_technique tx technique_id of
        None \<Rightarrow> alert
      | Some tech \<Rightarrow>
          (let a1 = alert\<lparr>al_mitre_tactic := Some (mt_tactic tech)\<rparr>;
               a2 = (if al_description a1 = [] then a1\<lparr>al_description := mt_description tech\<rparr> else a1)
           in if f32_is_zero (al_threat_score a2) then a2\<lparr>al_threat_score := mt_base_threat_score tech\<rparr> else a2))"

text \<open>What an alert is about, apart from what enrichment may fill in.\<close>

definition alert_core :: "alert \<Rightarrow> uuid \<times> uuid \<times> string \<times> alert_severity \<times> detection_source \<times>
    string option \<times> string option \<times> string \<times> timestamp" where
  "alert_core a = (al_alert_id a, al_node_id a, al_hostname a, al_severity a, al_source a,
     al_mitre_technique_id a, al_triggering_event_id a, al_status a, al_created_at a)"

text \<open>The trait \<open>MitreCatalog\<close>: enrichment with an unknown technique changes nothing, with a known one
  it sets the tactic, and in no case does it touch what the alert is about or overwrite a
  description.\<close>

locale mitre_catalog =
  fixes resolve :: "'t \<Rightarrow> string \<Rightarrow> mitre_technique option"
    and enrich :: "'t \<Rightarrow> string \<Rightarrow> alert \<Rightarrow> alert"
  assumes enrich_unknown: "resolve t k = None \<Longrightarrow> enrich t k a = a"
    and enrich_tactic: "resolve t k = Some tech \<Longrightarrow> al_mitre_tactic (enrich t k a) = Some (mt_tactic tech)"
    and enrich_core: "alert_core (enrich t k a) = alert_core a"
    and enrich_description: "al_description a \<noteq> [] \<Longrightarrow> al_description (enrich t k a) = al_description a"
    and enrich_score: "\<not> f32_is_zero (al_threat_score a) \<Longrightarrow> al_threat_score (enrich t k a) = al_threat_score a"
begin

lemma enrich_tactic_known:
  "al_mitre_tactic (enrich t k a) =
     (case resolve t k of None \<Rightarrow> al_mitre_tactic a | Some tech \<Rightarrow> Some (mt_tactic tech))"
  by (cases "resolve t k") (simp_all add: enrich_unknown enrich_tactic)

lemma enrich_fields:
  "al_alert_id (enrich t k a) = al_alert_id a" "al_node_id (enrich t k a) = al_node_id a"
  "al_hostname (enrich t k a) = al_hostname a" "al_severity (enrich t k a) = al_severity a"
  "al_source (enrich t k a) = al_source a"
  "al_mitre_technique_id (enrich t k a) = al_mitre_technique_id a"
  "al_triggering_event_id (enrich t k a) = al_triggering_event_id a"
  "al_status (enrich t k a) = al_status a" "al_created_at (enrich t k a) = al_created_at a"
  using enrich_core [of t k a] by (simp_all add: alert_core_def)

end

interpretation tax: mitre_catalog resolve_technique enrich_alert
  by unfold_locales (simp_all add: enrich_alert_def alert_core_def Let_def split: option.split)

end
