(* ===== verification/RuleScan.thy ===== *)
theory RuleScan
  imports RuleModels
begin

text \<open>
  The evaluation of events against compiled rules, \<open>rule-engine/src/engine\<close>: what of an event is scanned
  and under which rule set (\<open>scanner.rs\<close>), the alert built from a match (\<open>transform.rs\<close>), the compilation
  of a directory of rules (\<open>compiler.rs\<close>) and the registry it is swapped into (\<open>registry.rs\<close>).

  The engine \<open>yara_x\<close> is third-party: its compiler and its scanner are arguments, and a match is what
  \<open>matching_rules\<close> gives of it, the rule's identifier and metadata. The file system is the listing
  that \<open>read_dir\<close> returns.
\<close>

section \<open>The scanned text\<close>

definition SCAN_KEYS :: "string list" where
  "SCAN_KEYS = [''cmdline'', ''cmd'', ''command_line'', ''path'', ''target_path'', ''parent_path'', ''cwd'', ''name'',
     ''remote_address'', ''local_address'', ''user'', ''description'', ''args'', ''syscall'', ''action'']"

definition push_line :: "string \<Rightarrow> bytes \<Rightarrow> bytes" where
  "push_line val buffer = buffer @ val @ [newline]"

definition scan_object :: "(string \<times> json) list \<Rightarrow> bytes \<Rightarrow> bytes" where
  "scan_object obj buffer =
     fold (\<lambda>key b. case map_of obj key of Some (JString val) \<Rightarrow> push_line val b | _ \<Rightarrow> b) SCAN_KEYS buffer"

definition scan_columns :: "json list \<Rightarrow> bytes \<Rightarrow> bytes" where
  "scan_columns cols buffer =
     fold (\<lambda>col b. case as_object col of
         Some col_obj \<Rightarrow> (case map_of col_obj ''value'' of Some (JString val) \<Rightarrow> push_line val b | _ \<Rightarrow> b)
       | None \<Rightarrow> b) cols buffer"

definition scan_row :: "json \<Rightarrow> bytes \<Rightarrow> bytes" where
  "scan_row row buffer =
     (case as_object row of
        None \<Rightarrow> buffer
      | Some row_obj \<Rightarrow>
          (let b = scan_object row_obj buffer in
           case Option.bind (map_of row_obj ''columns'') as_array of
             None \<Rightarrow> b
           | Some cols \<Rightarrow> scan_columns cols b))"

definition extract_scannable_buffer :: "(json \<Rightarrow> bytes option) \<Rightarrow> telemetry_event \<Rightarrow> bytes" where
  "extract_scannable_buffer to_vec event =
     (let buffer =
        (case as_object (te_payload event) of
           None \<Rightarrow> []
         | Some obj \<Rightarrow>
             (let b = scan_object obj [] in
              case Option.bind (map_of obj ''rows'') as_array of
                None \<Rightarrow> b
              | Some rows \<Rightarrow> fold scan_row rows b))
      in if buffer = [] then unwrap_or buffer (to_vec (te_payload event)) else buffer)"

section \<open>The rule set of an event\<close>

definition scan_category :: "telemetry_event \<Rightarrow> string" where
  "scan_category event =
     (let et = te_event_type event in
      if et \<in> {''process'', ''processes'', ''running_processes'', ''process_start'', ''process_end'', ''process_events'',
        ''bpf_process_events'', ''osquery_result'', ''osquery_snapshot''} then ''process''
      else if et \<in> {''network'', ''listening_ports'', ''network_connect'', ''network_listen'', ''socket_events'',
        ''bpf_socket_events''} then ''network''
      else if et \<in> {''file'', ''file_create'', ''file_modify'', ''file_delete'', ''file_events''} then ''file''
      else if et \<in> {''auth'', ''users'', ''user_login'', ''user_logout'', ''logged_in_users''} then ''auth''
      else if et = ''custom'' then ''custom''
      else if et = ''osquery'' then
        (case get_str ''query_name'' (te_payload event) of
           None \<Rightarrow> ''custom''
         | Some qn \<Rightarrow>
             if qn \<in> {''running_processes'', ''processes''} then ''process''
             else if qn \<in> {''listening_ports'', ''network''} then ''network''
             else if qn = ''users'' then ''auth''
             else ''custom'')
      else et)"

section \<open>From a match to an alert\<close>

datatype meta_value = MetaInteger int | MetaFloat f64 | MetaBool bool | MetaString string | MetaBytes bytes

record matched_rule =
  mr_identifier :: string
  mr_metadata :: "(string \<times> meta_value) list"

record alert_fields =
  af_technique :: "string option"
  af_severity :: alert_severity
  af_score :: f32
  af_description :: string

definition severity_of :: "string \<Rightarrow> alert_severity" where
  "severity_of v = (let l = to_lowercase v in
     if l = ''critical'' then Critical else if l = ''high'' then High else if l = ''medium'' then Medium else Low)"

definition meta_step :: "string \<times> meta_value \<Rightarrow> alert_fields \<Rightarrow> alert_fields" where
  "meta_step kv f = (case kv of (key, value) \<Rightarrow>
     if key = ''mitre_technique'' then (case value of MetaString v \<Rightarrow> f\<lparr>af_technique := Some v\<rparr> | _ \<Rightarrow> f)
     else if key = ''severity'' then (case value of MetaString v \<Rightarrow> f\<lparr>af_severity := severity_of v\<rparr> | _ \<Rightarrow> f)
     else if key = ''threat_score'' then
       (case value of MetaInteger v \<Rightarrow> f\<lparr>af_score := i64_as_f32 v\<rparr> | MetaFloat v \<Rightarrow> f\<lparr>af_score := f64_as_f32 v\<rparr> | _ \<Rightarrow> f)
     else if key = ''description'' then (case value of MetaString v \<Rightarrow> f\<lparr>af_description := v\<rparr> | _ \<Rightarrow> f)
     else f)"

definition default_fields :: "string \<Rightarrow> alert_fields" where
  "default_fields identifier =
     \<lparr>af_technique = None, af_severity = Medium, af_score = f32_five,
      af_description = ''YARA rule '' @ [CHR 0x27] @ identifier @ [CHR 0x27] @ '' matched''\<rparr>"

text \<open>\<open>alert_id\<close> and \<open>now\<close> are \<open>Uuid::new_v4()\<close> and \<open>Utc::now()\<close>.\<close>

definition build_alert :: "uuid \<Rightarrow> timestamp \<Rightarrow> telemetry_event \<Rightarrow> matched_rule \<Rightarrow> mitre_taxonomy \<Rightarrow> alert" where
  "build_alert alert_id now event rule mitre =
     (let f = fold meta_step (mr_metadata rule) (default_fields (mr_identifier rule));
          alert = \<lparr>al_alert_id = alert_id, al_node_id = te_node_id event, al_hostname = te_hostname event,
            al_severity = af_severity f, al_source = YaraX, al_mitre_technique_id = af_technique f,
            al_mitre_tactic = None, al_description = af_description f,
            al_triggering_event_id = Some (te_id event), al_threat_score = af_score f,
            al_status = ''open'', al_created_at = now\<rparr>
      in case af_technique f of
           None \<Rightarrow> alert
         | Some tech_id \<Rightarrow> enrich_alert mitre tech_id alert)"

section \<open>The registry and the scanner\<close>

record 'r engine_registry =
  er_rule_sets :: "(string \<times> 'r) list"  \<comment> \<open>a \<open>HashMap\<close>: only lookups\<close>
  er_mitre :: mitre_taxonomy

definition registry_new :: "(string \<times> 'r) list \<Rightarrow> mitre_taxonomy \<Rightarrow> 'r engine_registry" where
  "registry_new rule_sets mitre = \<lparr>er_rule_sets = rule_sets, er_mitre = mitre\<rparr>"

text \<open>\<open>fresh i\<close> is the id and the clock that the \<open>i\<close>-th alert of the call gets.\<close>

definition evaluate :: "('r \<Rightarrow> bytes \<Rightarrow> (string, matched_rule list) result) \<Rightarrow> (json \<Rightarrow> bytes option)
    \<Rightarrow> (nat \<Rightarrow> uuid \<times> timestamp) \<Rightarrow> 'r engine_registry \<Rightarrow> telemetry_event \<Rightarrow> (app_error, alert list) result" where
  "evaluate scan to_vec fresh registry event =
     (case map_of (er_rule_sets registry) (scan_category event) of
        None \<Rightarrow> Ok []
      | Some rules \<Rightarrow>
          (let scan_buffer = extract_scannable_buffer to_vec event in
           if scan_buffer = [] then Ok []
           else result_bind (map_err (ScanFailure (te_id event)) (scan rules scan_buffer)) (\<lambda>matches.
             Ok (map (\<lambda>(i, r). build_alert (fst (fresh i)) (snd (fresh i)) event r (er_mitre registry))
                  (enumerate 0 matches)))))"

section \<open>The compiler\<close>

record ('c, 'r) yara_compiler =
  yc_new :: 'c
  yc_add_source :: "string \<Rightarrow> 'c \<Rightarrow> (string, 'c) result"
  yc_build :: "'c \<Rightarrow> 'r"

text \<open>What \<open>read_dir\<close> lists: for a file, what reading it gives; for a directory, its listing.\<close>

datatype file_entry = RuleFile string "(string, string) result" | NotAFile string

datatype dir_entry = SubDir string "(string, (string, file_entry) result list) result" | NotADir string

text \<open>\<open>Path::extension\<close>: what follows the last dot, unless there is none or it is the first character.\<close>

definition path_extension :: "string \<Rightarrow> string option" where
  "path_extension name =
     (let ext = rev (takeWhile (\<lambda>c. c \<noteq> CHR ''.'') (rev name)) in
      if length name \<le> length ext + 1 \<or> name = ''..'' then None else Some ext)"

fun compile_files :: "('c, 'r) yara_compiler \<Rightarrow> string \<Rightarrow> (string, file_entry) result list \<Rightarrow> 'c
    \<Rightarrow> (app_error, 'c) result" where
  "compile_files yc dir [] c = Ok c"
| "compile_files yc dir (Inl e # es) c = Err (Io e)"
| "compile_files yc dir (Inr (NotAFile name) # es) c = compile_files yc dir es c"
| "compile_files yc dir (Inr (RuleFile name content) # es) c =
     (if path_extension name = Some ''yar'' \<or> path_extension name = Some ''yara''
      then result_bind (map_err Io content) (\<lambda>source.
             result_bind (map_err (RuleCompilation (dir @ ''/'' @ name) 0) (yc_add_source yc source c)) (\<lambda>c1.
               compile_files yc dir es c1))
      else compile_files yc dir es c)"

definition compile_directory :: "('c, 'r) yara_compiler \<Rightarrow> string \<Rightarrow> (string, (string, file_entry) result list) result
    \<Rightarrow> (app_error, 'r) result" where
  "compile_directory yc dir listing =
     result_bind (map_err Io listing) (\<lambda>entries.
       result_bind (compile_files yc dir entries (yc_new yc)) (\<lambda>c. Ok (yc_build yc c)))"

fun compile_entries :: "('c, 'r) yara_compiler \<Rightarrow> string \<Rightarrow> (string, dir_entry) result list \<Rightarrow> (string \<times> 'r) list
    \<Rightarrow> (app_error, (string \<times> 'r) list) result" where
  "compile_entries yc dir [] sets = Ok sets"
| "compile_entries yc dir (Inl e # es) sets = Err (Io e)"
| "compile_entries yc dir (Inr (NotADir name) # es) sets = compile_entries yc dir es sets"
| "compile_entries yc dir (Inr (SubDir event_type listing) # es) sets =
     (if event_type = ''mitre'' then compile_entries yc dir es sets
      else result_bind (compile_directory yc (dir @ ''/'' @ event_type) listing) (\<lambda>rules.
             compile_entries yc dir es (AList.update event_type rules sets)))"

text \<open>\<open>None\<close> is a directory that does not exist.\<close>

definition compile_all :: "('c, 'r) yara_compiler \<Rightarrow> string \<Rightarrow> (string, (string, dir_entry) result list) result option
    \<Rightarrow> (app_error, (string \<times> 'r) list) result" where
  "compile_all yc rules_dir listing =
     (case listing of
        None \<Rightarrow> Ok []
      | Some l \<Rightarrow> result_bind (map_err Io l) (\<lambda>entries. compile_entries yc rules_dir entries []))"

definition compile_source :: "('c, 'r) yara_compiler \<Rightarrow> string \<Rightarrow> string \<Rightarrow> (app_error, 'r) result" where
  "compile_source yc name source =
     result_bind (map_err (RuleCompilation name 0) (yc_add_source yc source (yc_new yc))) (\<lambda>c. Ok (yc_build yc c))"

section \<open>What is scanned\<close>

definition str_field :: "(string \<times> json) list \<Rightarrow> string \<Rightarrow> string list" where
  "str_field obj key = (case map_of obj key of Some (JString val) \<Rightarrow> [val] | _ \<Rightarrow> [])"

definition object_strings :: "(string \<times> json) list \<Rightarrow> string list" where
  "object_strings obj = concat (map (str_field obj) SCAN_KEYS)"

definition array_field :: "(string \<times> json) list \<Rightarrow> string \<Rightarrow> json list" where
  "array_field obj key = (case Option.bind (map_of obj key) as_array of None \<Rightarrow> [] | Some xs \<Rightarrow> xs)"

definition column_strings :: "json \<Rightarrow> string list" where
  "column_strings col = (case as_object col of None \<Rightarrow> [] | Some obj \<Rightarrow> str_field obj ''value'')"

definition row_strings :: "json \<Rightarrow> string list" where
  "row_strings row = (case as_object row of None \<Rightarrow> []
     | Some obj \<Rightarrow> object_strings obj @ concat (map column_strings (array_field obj ''columns'')))"

definition scannable_strings :: "json \<Rightarrow> string list" where
  "scannable_strings payload = (case as_object payload of None \<Rightarrow> []
     | Some obj \<Rightarrow> object_strings obj @ concat (map row_strings (array_field obj ''rows'')))"

definition unlines :: "string list \<Rightarrow> string" where
  "unlines vs = concat (map (\<lambda>v. v @ [newline]) vs)"

lemma unlines_append [simp]: "unlines (a @ b) = unlines a @ unlines b" and unlines_Nil [simp]: "unlines [] = []"
  by (simp_all add: unlines_def)

lemma unlines_Nil_iff [simp]: "unlines vs = [] \<longleftrightarrow> vs = []"
  by (cases vs) (simp_all add: unlines_def)

lemma fold_appends: "(\<And>x b. f x b = b @ unlines (g x)) \<Longrightarrow> fold f xs b = b @ unlines (concat (map g xs))"
  by (induction xs arbitrary: b) simp_all

lemma scan_object_strings: "scan_object obj b = b @ unlines (object_strings obj)"
  unfolding scan_object_def object_strings_def
  by (rule fold_appends) (auto simp: str_field_def push_line_def unlines_def split: option.split json.split)

lemma scan_columns_strings: "scan_columns cols b = b @ unlines (concat (map column_strings cols))"
  unfolding scan_columns_def
  by (rule fold_appends)
    (auto simp: column_strings_def str_field_def push_line_def unlines_def split: option.split json.split)

lemma scan_row_strings: "scan_row row b = b @ unlines (row_strings row)"
  by (auto simp: scan_row_def row_strings_def array_field_def scan_object_strings scan_columns_strings Let_def split: option.split)

lemma extract_scannable_strings:
  "extract_scannable_buffer to_vec event =
     (if scannable_strings (te_payload event) = [] then unwrap_or [] (to_vec (te_payload event))
      else unlines (scannable_strings (te_payload event)))"
  by (auto simp: extract_scannable_buffer_def scannable_strings_def array_field_def Let_def
      scan_object_strings fold_appends [of scan_row row_strings, OF scan_row_strings] split: option.split)

lemma contains_unlines: "v \<in> set vs \<Longrightarrow> contains_str (unlines vs) v"
  by (simp add: unlines_def contains_str_line)

text \<open>The scanned text is complete: the buffer is exactly the string fields the scanner looks at, in
  the object, in its rows and in their columns, one per line in that order, so that every one of them
  occurs in it unbroken; only where there is none is it the printed payload.\<close>

lemma scan_buffer_complete:
  "extract_scannable_buffer to_vec event =
     (if scannable_strings (te_payload event) = [] then unwrap_or [] (to_vec (te_payload event))
      else unlines (scannable_strings (te_payload event))) \<and>
   list_all (contains_str (extract_scannable_buffer to_vec event)) (scannable_strings (te_payload event))"
proof -
  have "list_all (contains_str (unlines vs)) vs" for vs
    by (simp add: list_all_iff contains_unlines)
  then show ?thesis by (simp add: extract_scannable_strings)
qed

section \<open>What is reported\<close>

text \<open>The value of the last metadata entry with a key and a value of the right kind.\<close>

definition string_values :: "string \<Rightarrow> (string \<times> meta_value) list \<Rightarrow> string list" where
  "string_values k meta = concat (map (\<lambda>(k', v). case v of MetaString s \<Rightarrow> if k' = k then [s] else [] | _ \<Rightarrow> []) meta)"

definition last_string :: "string \<Rightarrow> (string \<times> meta_value) list \<Rightarrow> string option" where
  "last_string k meta = (let vs = string_values k meta in if vs = [] then None else Some (last vs))"

lemma last_string_Nil [simp]: "last_string k [] = None"
  by (simp add: last_string_def string_values_def)

lemma last_string_snoc:
  "last_string k (meta @ [(k', v)]) = (case v of MetaString s \<Rightarrow> if k' = k then Some s else last_string k meta
     | _ \<Rightarrow> last_string k meta)"
  by (cases v) (simp_all add: last_string_def string_values_def Let_def)

lemma meta_step_fields:
  "af_technique (meta_step (k, v) f) =
     (case v of MetaString s \<Rightarrow> if k = ''mitre_technique'' then Some s else af_technique f | _ \<Rightarrow> af_technique f)"
  "af_severity (meta_step (k, v) f) =
     (case v of MetaString s \<Rightarrow> if k = ''severity'' then severity_of s else af_severity f | _ \<Rightarrow> af_severity f)"
  "af_description (meta_step (k, v) f) =
     (case v of MetaString s \<Rightarrow> if k = ''description'' then s else af_description f | _ \<Rightarrow> af_description f)"
  by (cases v; simp add: meta_step_def)+

lemma default_technique: "af_technique (default_fields i) = None" "af_severity (default_fields i) = Medium"
  by (simp_all add: default_fields_def)

lemma fold_meta_fields:
  "af_technique (fold meta_step meta (default_fields i)) = last_string ''mitre_technique'' meta"
  "af_severity (fold meta_step meta (default_fields i)) =
     (case last_string ''severity'' meta of None \<Rightarrow> Medium | Some v \<Rightarrow> severity_of v)"
  "af_description (fold meta_step meta (default_fields i)) =
     (case last_string ''description'' meta of None \<Rightarrow> af_description (default_fields i) | Some v \<Rightarrow> v)"
  by (induction meta rule: rev_induct; force simp: last_string_snoc meta_step_fields default_technique split: meta_value.split)+

text \<open>What an alert says of the event and the rule it comes from.\<close>

definition alert_reports :: "mitre_taxonomy \<Rightarrow> telemetry_event \<Rightarrow> matched_rule \<Rightarrow> alert \<Rightarrow> bool" where
  "alert_reports mitre event rule a \<longleftrightarrow>
     al_node_id a = te_node_id event \<and> al_hostname a = te_hostname event \<and>
     al_triggering_event_id a = Some (te_id event) \<and> al_source a = YaraX \<and> al_status a = ''open'' \<and>
     al_severity a = (case last_string ''severity'' (mr_metadata rule) of None \<Rightarrow> Medium | Some v \<Rightarrow> severity_of v) \<and>
     al_mitre_technique_id a = last_string ''mitre_technique'' (mr_metadata rule) \<and>
     al_mitre_tactic a = map_option mt_tactic
       (Option.bind (last_string ''mitre_technique'' (mr_metadata rule)) (resolve_technique mitre)) \<and>
     (case last_string ''description'' (mr_metadata rule) of
        None \<Rightarrow> al_description a = af_description (default_fields (mr_identifier rule))
      | Some v \<Rightarrow> v = [] \<or> al_description a = v)"

lemma default_description_nonempty [simp]: "af_description (default_fields i) \<noteq> []"
  by (simp add: default_fields_def)

lemma build_alert_reports: "alert_reports mitre event rule (build_alert aid now event rule mitre)"
proof -
  let ?f = "fold meta_step (mr_metadata rule) (default_fields (mr_identifier rule))"
  have d: "al_description (enrich_alert mitre t a) = al_description a" if "al_description a \<noteq> []" for t a
    using tax.enrich_description that .
  show ?thesis
    by (cases "last_string ''mitre_technique'' (mr_metadata rule)";
        cases "last_string ''description'' (mr_metadata rule) = Some []")
      (auto simp: alert_reports_def build_alert_def Let_def fold_meta_fields tax.enrich_fields tax.enrich_tactic_known
        d split: option.split)
qed

text \<open>Evaluation reports every match and only matches: without rules for the event's category, or with
  nothing to scan, there is no alert; a failing scan is an error that names the event; otherwise there is
  one alert per matching rule, in order, that names the event and its node and carries the rule's
  technique, severity and description, with the tactic the taxonomy gives for the technique.\<close>

lemma evaluate_reports_matches:
  "(case map_of (er_rule_sets registry) (scan_category event) of
      None \<Rightarrow> evaluate scan to_vec fresh registry event = Ok []
    | Some rules \<Rightarrow>
        if extract_scannable_buffer to_vec event = [] then evaluate scan to_vec fresh registry event = Ok []
        else case scan rules (extract_scannable_buffer to_vec event) of
               Inl e \<Rightarrow> evaluate scan to_vec fresh registry event = Err (ScanFailure (te_id event) e)
             | Inr matches \<Rightarrow> (\<exists>alerts. evaluate scan to_vec fresh registry event = Ok alerts \<and>
                 list_all2 (alert_reports (er_mitre registry) event) matches alerts))"
  by (auto simp: evaluate_def Let_def list_all2_conv_all_nth nth_enumerate_eq build_alert_reports split: option.split sum.split)

section \<open>What is compiled\<close>

definition subdirs :: "(string, dir_entry) result list \<Rightarrow> string list" where
  "subdirs es = concat (map (\<lambda>e. case e of Inr (SubDir t l) \<Rightarrow> [t] | _ \<Rightarrow> []) es)"

lemma subdirs_Cons [simp]:
  "subdirs [] = []" "subdirs (Inl e # es) = subdirs es" "subdirs (Inr (NotADir n) # es) = subdirs es"
  "subdirs (Inr (SubDir t l) # es) = t # subdirs es"
  by (simp_all add: subdirs_def)

lemma subdirs_mem: "t \<in> set (subdirs es) \<Longrightarrow> \<exists>l. Inr (SubDir t l) \<in> set es"
  by (auto simp: subdirs_def split: sum.splits dir_entry.splits)

lemma compile_entries_untouched:
  "compile_entries yc dir es sets = Inr out \<Longrightarrow> t = ''mitre'' \<or> t \<notin> set (subdirs es) \<Longrightarrow> map_of out t = map_of sets t"
  by (induction yc dir es sets rule: compile_entries.induct)
    (auto simp: result_bind_Inr_iff update_conv' split: if_splits)

fun entry_compiled :: "('c, 'r) yara_compiler \<Rightarrow> string \<Rightarrow> (string \<times> 'r) list \<Rightarrow> (string, dir_entry) result \<Rightarrow> bool" where
  "entry_compiled yc dir out (Inl err) \<longleftrightarrow> False"
| "entry_compiled yc dir out (Inr (NotADir n)) \<longleftrightarrow> True"
| "entry_compiled yc dir out (Inr (SubDir t l)) \<longleftrightarrow>
     t = ''mitre'' \<or> (\<exists>r. compile_directory yc (dir @ ''/'' @ t) l = Inr r \<and> map_of out t = Some r)"

lemma compile_entries_each:
  "compile_entries yc dir es sets = Inr out \<Longrightarrow> distinct (subdirs es) \<Longrightarrow>
     list_all (entry_compiled yc dir out) es"
proof (induction yc dir es sets rule: compile_entries.induct)
  case (4 yc dir event_type listing es sets)
  show ?case
  proof (cases "event_type = ''mitre''")
    case True
    then show ?thesis using 4 by simp
  next
    case False
    with 4(3) obtain r where r: "compile_directory yc (dir @ ''/'' @ event_type) listing = Inr r"
      "compile_entries yc dir es (AList.update event_type r sets) = Inr out"
      by (auto simp: result_bind_Inr_iff)
    have "map_of out event_type = Some r"
      using compile_entries_untouched [OF r(2), of event_type] 4(4) by (simp add: update_conv')
    then show ?thesis using 4(2) [OF False r(2)] 4(4) r(1) by simp
  qed
qed simp_all

text \<open>Compilation is all or nothing: a compiled directory has a rule set for exactly its
  subdirectories other than the taxonomy's, each the compilation of all its rule files; an
  unreadable entry or a source the compiler refuses fails the whole.\<close>

lemma compile_all_or_nothing:
  assumes "distinct (subdirs es)"
    and "compile_all yc dir (Some (Inr es)) = Inr out"
  shows "dom (map_of out) = set (subdirs es) - {''mitre''} \<and>
     list_all (entry_compiled yc dir out) es"
proof -
  have c: "compile_entries yc dir es [] = Inr out" using assms(2) by (simp add: compile_all_def)
  note each = compile_entries_each [OF c assms(1)]
  have "map_of out t \<noteq> None" if t: "t \<in> set (subdirs es)" "t \<noteq> ''mitre''" for t
  proof -
    obtain l where "Inr (SubDir t l) \<in> set es" using subdirs_mem [OF t(1)] by blast
    then have "entry_compiled yc dir out (Inr (SubDir t l))" using each unfolding list_all_iff by blast
    then show ?thesis using t(2) by auto
  qed
  moreover have "map_of out t = None" if "t = ''mitre'' \<or> t \<notin> set (subdirs es)" for t
    using compile_entries_untouched [OF c that] by simp
  ultimately have "t \<in> dom (map_of out) \<longleftrightarrow> t \<in> set (subdirs es) - {''mitre''}" for t
    by (metis (no_types, lifting) Diff_iff domIff empty_iff insert_iff)
  then have "dom (map_of out) = set (subdirs es) - {''mitre''}" by blast
  then show ?thesis using each by blast
qed

text \<open>A compiler whose rule set is the list of its sources and that refuses empty ones.\<close>

definition demo_yara :: "(string list, string list) yara_compiler" where
  "demo_yara = \<lparr>yc_new = [], yc_add_source = (\<lambda>s c. if s = [] then Err ''empty'' else Ok (c @ [s])), yc_build = (\<lambda>c. c)\<rparr>"

definition demo_rules_dir :: "(string, dir_entry) result list" where
  "demo_rules_dir = [Inr (SubDir ''process'' (Inr [Inr (RuleFile ''a.yar'' (Inr ''rule a'')), Inr (RuleFile ''README'' (Inl ''unread'')),
      Inr (RuleFile ''b.yara'' (Inr ''rule b''))])), Inr (NotADir ''x.yar''), Inr (SubDir ''mitre'' (Inl ''unread''))]"

lemma demo_compile: "compile_all demo_yara ''rules'' (Some (Inr demo_rules_dir)) = Inr [(''process'', [''rule a'', ''rule b''])]"
  by code_simp

lemma compile_all_or_nothing_witness:
  "dom (map_of [(''process'', [''rule a'', ''rule b''])]) = set (subdirs demo_rules_dir) - {''mitre''} \<and>
   list_all (entry_compiled demo_yara ''rules'' [(''process'', [''rule a'', ''rule b''])]) demo_rules_dir"
  by (rule compile_all_or_nothing [OF _ demo_compile]) (simp add: demo_rules_dir_def)

end
