(* ===== verification/Dedup.thy ===== *)
theory Dedup
  imports RuleModels
begin

text \<open>
  The suppression of repeated alerts, \<open>rule-engine/src/engine/dedup.rs\<close>: sixteen shards, each an LRU
  cache behind a mutex, from the signature of an alert to the instant it last passed and the number
  of alerts since. A call holds the lock of its shard throughout, so calls happen one after another;
  each reads the clock after taking the lock.

  The cache is the crate \<open>lru\<close>: its operations are the argument \<open>ops\<close> and its documented behaviour, over
  the entries in order of use (most recent first), is \<open>lru_laws\<close>. The hash of a node id
  (\<open>DefaultHasher\<close>, whose algorithm is unspecified) is an argument.
\<close>

section \<open>The deduplicator\<close>

record alert_signature =
  sg_node_id :: uuid
  sg_rule_identifier :: string
  sg_mitre_technique :: "string option"

type_synonym instant = nat  \<comment> \<open>nanoseconds of the monotonic clock\<close>

text \<open>\<open>LruCache\<close>: \<open>get_mut\<close> gives the value and the cache with the entry promoted, \<open>write\<close> is the
  assignment through the reference it returned.\<close>

record 'c lru_ops =
  lru_new :: "nat \<Rightarrow> 'c"
  lru_get_mut :: "alert_signature \<Rightarrow> 'c \<Rightarrow> (instant \<times> u64) option \<times> 'c"
  lru_write :: "alert_signature \<Rightarrow> instant \<times> u64 \<Rightarrow> 'c \<Rightarrow> 'c"
  lru_put :: "alert_signature \<Rightarrow> instant \<times> u64 \<Rightarrow> 'c \<Rightarrow> 'c"

record 'c deduplicator =
  dd_shards :: "'c list"
  dd_window :: nat

definition SHARD_COUNT :: nat where "SHARD_COUNT = 16"

definition dedup_new :: "'c lru_ops \<Rightarrow> nat \<Rightarrow> nat \<Rightarrow> (app_error, 'c deduplicator) result" where
  "dedup_new ops total_capacity suppression_window =
     (let per_shard = total_capacity div SHARD_COUNT in
      if per_shard = 0 then Err (Config ''dedup capacity must be >= SHARD_COUNT (16)'')
      else Ok \<lparr>dd_shards = map (\<lambda>_. lru_new ops per_shard) [0..<SHARD_COUNT], dd_window = suppression_window\<rparr>)"

definition shard_index :: "(uuid \<Rightarrow> u64) \<Rightarrow> alert_signature \<Rightarrow> nat" where
  "shard_index hash sig = unat (hash (sg_node_id sig)) mod SHARD_COUNT"

text \<open>\<open>now.duration_since(last_seen)\<close> is zero where \<open>last_seen\<close> is later, as subtraction on naturals is.\<close>

definition check_and_record :: "(uuid \<Rightarrow> u64) \<Rightarrow> 'c lru_ops \<Rightarrow> instant \<Rightarrow> alert_signature \<Rightarrow> 'c deduplicator
    \<Rightarrow> bool \<times> 'c deduplicator" where
  "check_and_record hash ops now sig d =
     (let idx = shard_index hash sig; c = dd_shards d ! idx in
      case lru_get_mut ops sig c of
        (Some (last_seen, cnt), c1) \<Rightarrow>
          if now - last_seen < dd_window d
          then (False, d\<lparr>dd_shards := (dd_shards d)[idx := lru_write ops sig (last_seen, cnt + 1) c1]\<rparr>)
          else (True, d\<lparr>dd_shards := (dd_shards d)[idx := lru_write ops sig (now, 1) c1]\<rparr>)
      | (None, c1) \<Rightarrow> (True, d\<lparr>dd_shards := (dd_shards d)[idx := lru_put ops sig (now, 1) c1]\<rparr>))"

text \<open>A run of calls, each with the instant it reads.\<close>

fun dedup_run :: "(uuid \<Rightarrow> u64) \<Rightarrow> 'c lru_ops \<Rightarrow> (instant \<times> alert_signature) list \<Rightarrow> 'c deduplicator
    \<Rightarrow> bool list \<times> 'c deduplicator" where
  "dedup_run hash ops [] d = ([], d)"
| "dedup_run hash ops ((now, sig) # calls) d =
     (case check_and_record hash ops now sig d of
        (b, d1) \<Rightarrow> (case dedup_run hash ops calls d1 of (bs, d2) \<Rightarrow> (b # bs, d2)))"

section \<open>What the cache promises\<close>

definition promote :: "alert_signature \<Rightarrow> (alert_signature \<times> instant \<times> u64) list \<Rightarrow> (alert_signature \<times> instant \<times> u64) list" where
  "promote k es = (case map_of es k of None \<Rightarrow> es | Some v \<Rightarrow> (k, v) # filter (\<lambda>e. fst e \<noteq> k) es)"

definition overwrite :: "alert_signature \<Rightarrow> instant \<times> u64 \<Rightarrow> (alert_signature \<times> instant \<times> u64) list
    \<Rightarrow> (alert_signature \<times> instant \<times> u64) list" where
  "overwrite k v es = map (\<lambda>e. if fst e = k then (k, v) else e) es"

text \<open>The documented behaviour of \<open>LruCache\<close>: a new cache is empty, a lookup answers from the entries and
  promotes, a write changes the value in place, and putting an absent key drops the entry least
  recently used where the capacity is exceeded.\<close>

definition lru_laws :: "'c lru_ops \<Rightarrow> ('c \<Rightarrow> (alert_signature \<times> instant \<times> u64) list) \<Rightarrow> ('c \<Rightarrow> nat) \<Rightarrow> bool" where
  "lru_laws ops entries cap \<longleftrightarrow>
     (\<forall>n. entries (lru_new ops n) = [] \<and> cap (lru_new ops n) = n) \<and>
     (\<forall>k c. fst (lru_get_mut ops k c) = map_of (entries c) k \<and>
            entries (snd (lru_get_mut ops k c)) = promote k (entries c) \<and>
            cap (snd (lru_get_mut ops k c)) = cap c) \<and>
     (\<forall>k v c. entries (lru_write ops k v c) = overwrite k v (entries c) \<and> cap (lru_write ops k v c) = cap c) \<and>
     (\<forall>k v c. map_of (entries c) k = None \<longrightarrow>
        entries (lru_put ops k v c) = take (cap c) ((k, v) # entries c) \<and> cap (lru_put ops k v c) = cap c)"

lemma lru_lawsD:
  assumes "lru_laws ops entries cap"
  shows "entries (lru_new ops n) = []" "cap (lru_new ops n) = n"
    "fst (lru_get_mut ops k c) = map_of (entries c) k"
    "entries (snd (lru_get_mut ops k c)) = promote k (entries c)" "cap (snd (lru_get_mut ops k c)) = cap c"
    "entries (lru_write ops k v c) = overwrite k v (entries c)" "cap (lru_write ops k v c) = cap c"
    "map_of (entries c) k = None \<Longrightarrow> entries (lru_put ops k v c) = take (cap c) ((k, v) # entries c)"
    "map_of (entries c) k = None \<Longrightarrow> cap (lru_put ops k v c) = cap c"
  using assms unfolding lru_laws_def by blast+

lemma map_of_filter_other: "k' \<noteq> k \<Longrightarrow> map_of (filter (\<lambda>e. fst e \<noteq> k) es) k' = map_of es k'"
  by (induction es) auto

lemma map_of_promote [simp]: "map_of (promote k es) = map_of es"
  by (rule ext) (auto simp: promote_def map_of_filter_other split: option.split)

lemma map_of_overwrite: "map_of (overwrite k v es) k' =
   (if k' = k then (if map_of es k = None then None else Some v) else map_of es k')"
  by (induction es) (auto simp: overwrite_def)

lemma keys_overwrite [simp]: "map fst (overwrite k v es) = map fst es"
  by (auto simp: overwrite_def)

lemma keys_promote: "distinct (map fst es) \<Longrightarrow>
   distinct (map fst (promote k es)) \<and> fst ` set (promote k es) = fst ` set es \<and> length (promote k es) = length es"
proof -
  assume d: "distinct (map fst es)"
  have s: "fst ` set (promote k es) = fst ` set es"
    using domIff [of k "map_of es"] by (auto simp: promote_def dom_map_of_conv_image_fst image_iff split: option.split)
  have "distinct (map fst (promote k es))"
    using d by (auto simp: promote_def distinct_map_filter split: option.split)
  moreover from this d s have "length (promote k es) = length es"
    by (metis distinct_card length_map list.set_map)
  ultimately show ?thesis using s by blast
qed

section \<open>Refinement of a table with a window\<close>

text \<open>The intended behaviour, over one unbounded table.\<close>

definition window_check :: "nat \<Rightarrow> instant \<Rightarrow> alert_signature \<Rightarrow> (alert_signature \<rightharpoonup> instant \<times> u64)
    \<Rightarrow> bool \<times> (alert_signature \<rightharpoonup> instant \<times> u64)" where
  "window_check w now sig m =
     (case m sig of
        Some (t, n) \<Rightarrow> if now - t < w then (False, m(sig \<mapsto> (t, n + 1))) else (True, m(sig \<mapsto> (now, 1)))
      | None \<Rightarrow> (True, m(sig \<mapsto> (now, 1))))"

definition dedup_lookup :: "(uuid \<Rightarrow> u64) \<Rightarrow> ('c \<Rightarrow> (alert_signature \<times> instant \<times> u64) list) \<Rightarrow> 'c deduplicator
    \<Rightarrow> alert_signature \<Rightarrow> (instant \<times> u64) option" where
  "dedup_lookup hash entries d sig = map_of (entries (dd_shards d ! shard_index hash sig)) sig"

definition dedup_inv :: "('c \<Rightarrow> (alert_signature \<times> instant \<times> u64) list) \<Rightarrow> ('c \<Rightarrow> nat) \<Rightarrow> nat \<Rightarrow> 'c deduplicator \<Rightarrow> bool" where
  "dedup_inv entries cap n d \<longleftrightarrow> 0 < n \<and> length (dd_shards d) = SHARD_COUNT \<and>
     (\<forall>c \<in> set (dd_shards d). cap c = n \<and> length (entries c) \<le> n \<and> distinct (map fst (entries c)))"

text \<open>The shard of the signature after a call, and every other shard as it was.\<close>

definition shard_after :: "nat \<Rightarrow> instant \<Rightarrow> alert_signature \<Rightarrow> nat \<Rightarrow> (alert_signature \<times> instant \<times> u64) list
    \<Rightarrow> (alert_signature \<times> instant \<times> u64) list" where
  "shard_after w now sig n es =
     (case map_of es sig of
        Some (t, k) \<Rightarrow> overwrite sig (if now - t < w then (t, k + 1) else (now, 1)) (promote sig es)
      | None \<Rightarrow> take n ((sig, now, 1) # es))"

lemma shard_index_less [simp]: "shard_index hash sig < SHARD_COUNT"
  by (simp add: shard_index_def SHARD_COUNT_def)

lemma check_and_record_shard:
  assumes laws: "lru_laws ops entries cap" and len: "length (dd_shards d) = SHARD_COUNT"
  shows "\<exists>c. snd (check_and_record hash ops now sig d) = d\<lparr>dd_shards := (dd_shards d)[shard_index hash sig := c]\<rparr> \<and>
      entries c = shard_after (dd_window d) now sig (cap (dd_shards d ! shard_index hash sig))
        (entries (dd_shards d ! shard_index hash sig)) \<and>
      cap c = cap (dd_shards d ! shard_index hash sig)"
    and "fst (check_and_record hash ops now sig d) =
      (case dedup_lookup hash entries d sig of None \<Rightarrow> True | Some (t, k) \<Rightarrow> \<not> now - t < dd_window d)"
proof -
  let ?c = "dd_shards d ! shard_index hash sig"
  obtain r c1 where g: "lru_get_mut ops sig ?c = (r, c1)" by fastforce
  note l = lru_lawsD [OF laws]
  have r: "r = map_of (entries ?c) sig" and e1: "entries c1 = promote sig (entries ?c)" and k1: "cap c1 = cap ?c"
    using l(3) [of sig ?c] l(4) [of sig ?c] l(5) [of sig ?c] g by simp_all
  show "\<exists>c. snd (check_and_record hash ops now sig d) = d\<lparr>dd_shards := (dd_shards d)[shard_index hash sig := c]\<rparr> \<and>
      entries c = shard_after (dd_window d) now sig (cap ?c) (entries ?c) \<and> cap c = cap ?c"
  proof (cases r)
    case None
    then have "entries c1 = entries ?c" using r e1 by (simp add: promote_def)
    then show ?thesis
      using None g r k1 l(8) [of c1 sig] l(9) [of c1 sig]
      by (auto simp: check_and_record_def Let_def shard_after_def)
  next
    case (Some v)
    obtain t k where v: "v = (t, k)" by fastforce
    show ?thesis
      using Some v g r k1 e1 l(6,7)
      by (auto simp: check_and_record_def Let_def shard_after_def)
  qed
  show "fst (check_and_record hash ops now sig d) =
      (case dedup_lookup hash entries d sig of None \<Rightarrow> True | Some (t, k) \<Rightarrow> \<not> now - t < dd_window d)"
    using g r by (auto simp: check_and_record_def Let_def dedup_lookup_def split: option.split)
qed

lemma map_of_take_le: "distinct (map fst es) \<Longrightarrow> map_of (take n es) \<subseteq>\<^sub>m map_of es"
  unfolding map_le_def dom_map_of_conv_image_fst
  by (metis (no_types, lifting) distinct_take image_iff in_set_takeD map_of_eq_Some_iff prod.collapse take_map)

lemma shard_after_lookup:
  assumes d: "distinct (map fst es)" and n: "0 < n"
  shows "map_of (shard_after w now sig n es) \<subseteq>\<^sub>m snd (window_check w now sig (map_of es))"
    and "map_of (shard_after w now sig n es) sig = snd (window_check w now sig (map_of es)) sig"
    and "length es < n \<or> map_of es sig \<noteq> None \<Longrightarrow>
      map_of (shard_after w now sig n es) = snd (window_check w now sig (map_of es))"
proof -
  have hit: "map_of (shard_after w now sig n es) = snd (window_check w now sig (map_of es))"
    if "map_of es sig \<noteq> None"
    using that by (auto simp: shard_after_def window_check_def map_of_overwrite fun_eq_iff split: option.split)
  have miss: "map_of (shard_after w now sig n es) = map_of (take n ((sig, now, 1) # es)) \<and>
      snd (window_check w now sig (map_of es)) = map_of ((sig, now, 1) # es)"
    if "map_of es sig = None"
    using that by (simp add: shard_after_def window_check_def)
  have dm: "distinct (map fst ((sig, now, 1) # es))" if "map_of es sig = None"
    using that d by (simp add: map_of_eq_None_iff)
  show "map_of (shard_after w now sig n es) \<subseteq>\<^sub>m snd (window_check w now sig (map_of es))"
    using hit miss map_of_take_le [OF dm] by (cases "map_of es sig") auto
  show "map_of (shard_after w now sig n es) sig = snd (window_check w now sig (map_of es)) sig"
    using hit miss n by (cases "map_of es sig"; cases n) auto
  show "length es < n \<or> map_of es sig \<noteq> None \<Longrightarrow>
      map_of (shard_after w now sig n es) = snd (window_check w now sig (map_of es))"
    using hit miss by (cases "map_of es sig") auto
qed

lemma shard_after_inv:
  assumes d: "distinct (map fst es)" and l: "length es \<le> n"
  shows "distinct (map fst (shard_after w now sig n es)) \<and> length (shard_after w now sig n es) \<le> n"
proof (cases "map_of es sig")
  case None
  then have "distinct (map fst ((sig, now, 1 :: u64) # es))" using d by (simp add: map_of_eq_None_iff)
  then have "distinct (map fst (take n ((sig, now, 1 :: u64) # es)))"
    using distinct_take by (simp only: take_map [symmetric])
  then show ?thesis using None by (simp add: shard_after_def)
next
  case (Some v)
  then have e: "map fst (shard_after w now sig n es) = map fst (promote sig es)"
    by (cases v) (simp add: shard_after_def)
  then have "length (shard_after w now sig n es) = length (promote sig es)" by (metis length_map)
  then show ?thesis using e keys_promote [OF d] l by metis
qed

lemma keys_shard_after:
  assumes d: "distinct (map fst es)"
  shows "fst ` set (shard_after w now sig n es) \<subseteq> insert sig (fst ` set es)"
proof (cases "map_of es sig")
  case None
  have "fst ` set (take n ((sig, now, 1 :: u64) # es)) \<subseteq> fst ` set ((sig, now, 1 :: u64) # es)"
    by (intro image_mono set_take_subset)
  then show ?thesis using None by (simp add: shard_after_def)
next
  case (Some v)
  then have "set (map fst (shard_after w now sig n es)) = set (map fst (promote sig es))"
    by (cases v) (simp only: shard_after_def option.case prod.case keys_overwrite)
  then show ?thesis using keys_promote [OF d, of sig] by (simp only: list.set_map) blast
qed

lemma dedup_inv_shard:
  assumes "dedup_inv entries cap n d"
  shows "length (dd_shards d) = SHARD_COUNT" "0 < n" "cap (dd_shards d ! shard_index hash sig) = n"
    "length (entries (dd_shards d ! shard_index hash sig)) \<le> n"
    "distinct (map fst (entries (dd_shards d ! shard_index hash sig)))"
  using assms nth_mem [of "shard_index hash sig" "dd_shards d"] by (auto simp: dedup_inv_def)

lemma check_and_record_inv:
  assumes laws: "lru_laws ops entries cap" and inv: "dedup_inv entries cap n d"
  shows "dedup_inv entries cap n (snd (check_and_record hash ops now sig d))"
    and "dd_window (snd (check_and_record hash ops now sig d)) = dd_window d"
proof -
  note s = dedup_inv_shard [OF inv]
  obtain c where c: "snd (check_and_record hash ops now sig d) = d\<lparr>dd_shards := (dd_shards d)[shard_index hash sig := c]\<rparr>"
    "entries c = shard_after (dd_window d) now sig n (entries (dd_shards d ! shard_index hash sig))" "cap c = n"
    using check_and_record_shard(1) [OF laws s(1), of hash now sig] s(3) by metis
  have "distinct (map fst (entries c)) \<and> length (entries c) \<le> n"
    unfolding c(2) by (rule shard_after_inv [OF s(5) s(4)])
  then show "dedup_inv entries cap n (snd (check_and_record hash ops now sig d))"
    using inv c(3) set_update_subset_insert [of "dd_shards d" "shard_index hash sig" c]
    unfolding c(1) by (auto simp: dedup_inv_def)
  show "dd_window (snd (check_and_record hash ops now sig d)) = dd_window d"
    unfolding c(1) by simp
qed

lemma check_and_record_lookup:
  assumes laws: "lru_laws ops entries cap" and inv: "dedup_inv entries cap n d"
  shows "fst (check_and_record hash ops now sig d) =
      fst (window_check (dd_window d) now sig (dedup_lookup hash entries d))"
    and "dedup_lookup hash entries (snd (check_and_record hash ops now sig d)) \<subseteq>\<^sub>m
      snd (window_check (dd_window d) now sig (dedup_lookup hash entries d))"
    and "dedup_lookup hash entries (snd (check_and_record hash ops now sig d)) sig =
      snd (window_check (dd_window d) now sig (dedup_lookup hash entries d)) sig"
    and "length (entries (dd_shards d ! shard_index hash sig)) < n \<or> dedup_lookup hash entries d sig \<noteq> None \<Longrightarrow>
      dedup_lookup hash entries (snd (check_and_record hash ops now sig d)) =
      snd (window_check (dd_window d) now sig (dedup_lookup hash entries d))"
proof -
  let ?i = "shard_index hash sig" and ?m = "dedup_lookup hash entries d"
  let ?es = "entries (dd_shards d ! ?i)" and ?d = "snd (check_and_record hash ops now sig d)"
  note s = dedup_inv_shard [OF inv]
  obtain c where c: "?d = d\<lparr>dd_shards := (dd_shards d)[?i := c]\<rparr>" "entries c = shard_after (dd_window d) now sig n ?es"
    using check_and_record_shard(1) [OF laws s(1), of hash now sig] s(3) by metis
  have same: "dedup_lookup hash entries ?d k = (if shard_index hash k = ?i
      then map_of (shard_after (dd_window d) now sig n ?es) k else ?m k)" for k
    using s(1) by (simp add: c dedup_lookup_def nth_list_update)
  have m: "?m sig = map_of ?es sig" by (simp add: dedup_lookup_def)
  have w: "snd (window_check (dd_window d) now sig ?m) k = (if shard_index hash k = ?i
      then snd (window_check (dd_window d) now sig (map_of ?es)) k else ?m k)" for k
    using m by (auto simp: window_check_def dedup_lookup_def split: option.split)
  note a = shard_after_lookup [OF dedup_inv_shard(5) [OF inv, of hash sig] s(2), where w = "dd_window d" and now = now and sig = sig]
  show "fst (check_and_record hash ops now sig d) = fst (window_check (dd_window d) now sig ?m)"
    using check_and_record_shard(2) [OF laws s(1), of hash now sig] by (auto simp: window_check_def split: option.split)
  show "dedup_lookup hash entries ?d \<subseteq>\<^sub>m snd (window_check (dd_window d) now sig ?m)"
    using a(1) by (auto simp: map_le_def dom_def same w)
  show "dedup_lookup hash entries ?d sig = snd (window_check (dd_window d) now sig ?m) sig"
    using a(2) by (simp add: same w)
  show "length ?es < n \<or> ?m sig \<noteq> None \<Longrightarrow> dedup_lookup hash entries ?d = snd (window_check (dd_window d) now sig ?m)"
    using a(3) m by (auto simp: fun_eq_iff same w)
qed

section \<open>Runs\<close>

lemma dedup_new_inv:
  assumes laws: "lru_laws ops entries cap" and d: "dedup_new ops capacity w = Inr d"
  shows "dedup_inv entries cap (capacity div SHARD_COUNT) d" "dd_window d = w" "dedup_lookup hash entries d = Map.empty"
    "\<forall>c \<in> set (dd_shards d). entries c = []"
proof -
  have n: "0 < capacity div SHARD_COUNT" and
    e: "d = \<lparr>dd_shards = map (\<lambda>_. lru_new ops (capacity div SHARD_COUNT)) [0..<SHARD_COUNT], dd_window = w\<rparr>"
    using d by (auto simp: dedup_new_def Let_def split: if_splits)
  show "dedup_inv entries cap (capacity div SHARD_COUNT) d" "dd_window d = w" "\<forall>c \<in> set (dd_shards d). entries c = []"
    using n lru_lawsD(1,2) [OF laws] by (auto simp: e dedup_inv_def)
  show "dedup_lookup hash entries d = Map.empty"
    using lru_lawsD(1) [OF laws] by (auto simp: e dedup_lookup_def fun_eq_iff)
qed

lemma dedup_run_length: "length (fst (dedup_run hash ops calls d)) = length calls"
  by (induction hash ops calls d rule: dedup_run.induct) (auto split: prod.splits)

text \<open>\<open>H\<close> holds what passed before the run.\<close>

lemma dedup_run_sound:
  assumes laws: "lru_laws ops entries cap"
  shows "dedup_inv entries cap n d \<Longrightarrow>
     \<forall>sig t k. dedup_lookup hash entries d sig = Some (t, k) \<longrightarrow> (t, sig) \<in> H \<Longrightarrow>
     i < length calls \<Longrightarrow> \<not> fst (dedup_run hash ops calls d) ! i \<Longrightarrow>
     (\<exists>t. (t, snd (calls ! i)) \<in> H \<and> fst (calls ! i) - t < dd_window d) \<or>
     (\<exists>j < i. fst (dedup_run hash ops calls d) ! j \<and> snd (calls ! j) = snd (calls ! i) \<and>
        fst (calls ! i) - fst (calls ! j) < dd_window d)"
proof (induction calls arbitrary: d H i)
  case Nil
  then show ?case by simp
next
  case (Cons call calls)
  obtain now sig where call: "call = (now, sig)" by fastforce
  obtain b d1 where b: "check_and_record hash ops now sig d = (b, d1)" by fastforce
  note look = check_and_record_lookup [OF laws Cons.prems(1), where hash = hash and now = now and sig = sig, unfolded b, simplified]
  have run: "fst (dedup_run hash ops (call # calls) d) = b # fst (dedup_run hash ops calls d1)"
    by (simp add: call b split: prod.split)
  show ?case
  proof (cases i)
    case 0
    then obtain t k where "dedup_lookup hash entries d sig = Some (t, k)" "now - t < dd_window d"
      using Cons.prems(4) look(1) by (auto simp: run window_check_def split: option.splits if_splits)
    then show ?thesis using Cons.prems(2) by (auto simp: 0 call)
  next
    case (Suc i')
    let ?H = "if b then insert (now, sig) H else H"
    have hist: "\<forall>s t k. dedup_lookup hash entries d1 s = Some (t, k) \<longrightarrow> (t, s) \<in> ?H"
    proof (intro allI impI)
      fix s t k
      assume that: "dedup_lookup hash entries d1 s = Some (t, k)"
      have "snd (window_check (dd_window d) now sig (dedup_lookup hash entries d)) s = Some (t, k)"
        using look(2) that by (force simp: map_le_def dom_def)
      then show "(t, s) \<in> ?H"
        using Cons.prems(2) look(1)
        by (auto simp: window_check_def split: option.splits if_splits)
    qed
    have "dedup_inv entries cap n d1" and w: "dd_window d1 = dd_window d"
      using check_and_record_inv [OF laws Cons.prems(1), of hash now sig] by (simp_all add: b)
    then consider t where "(t, snd (calls ! i')) \<in> ?H" "fst (calls ! i') - t < dd_window d"
      | j where "j < i'" "fst (dedup_run hash ops calls d1) ! j" "snd (calls ! j) = snd (calls ! i')"
          "fst (calls ! i') - fst (calls ! j) < dd_window d"
      using Cons.IH [of d1 ?H i', OF _ hist] Cons.prems(3,4) by (auto simp: run Suc)
    then show ?thesis
    proof cases
      case 1
      then show ?thesis
      proof (cases "(t, snd (calls ! i')) \<in> H")
        case False
        then have "b \<and> sig = snd (calls ! i') \<and> t = now" using 1(1) by (auto split: if_splits)
        then show ?thesis using 1(2) unfolding run by (intro disjI2 exI [of _ 0]) (simp add: call Suc)
      qed (auto simp: Suc)
    next
      case 2
      then show ?thesis unfolding run by (intro disjI2 exI [of _ "Suc j"]) (simp add: Suc)
    qed
  qed
qed

lemma window_check_passes:
  assumes hist: "\<forall>(t, s) \<in> H. \<exists>t' k. m s = Some (t', k) \<and> t \<le> t'" and b: "fst (window_check w now sig m)"
  shows "\<forall>t. (t, sig) \<in> H \<longrightarrow> w \<le> now - t"
proof (intro allI impI)
  fix t
  assume "(t, sig) \<in> H"
  with hist obtain t' k where "m sig = Some (t', k)" "t \<le> t'" by blast
  with b show "w \<le> now - t" by (simp add: window_check_def split: if_splits)
qed

lemma window_check_remembers:
  assumes hist: "\<forall>(t, s) \<in> H. \<exists>t' k. m s = Some (t', k) \<and> t \<le> t'" and w: "0 < w"
  shows "\<forall>(t, s) \<in> (if fst (window_check w now sig m) then insert (now, sig) H else H).
     \<exists>t' k. snd (window_check w now sig m) s = Some (t', k) \<and> t \<le> t'"
proof (clarify)
  fix t s
  assume p: "(t, s) \<in> (if fst (window_check w now sig m) then insert (now, sig) H else H)"
  show "\<exists>t' k. snd (window_check w now sig m) s = Some (t', k) \<and> t \<le> t'"
  proof (cases "fst (window_check w now sig m)")
    case True
    then have e: "snd (window_check w now sig m) = m(sig \<mapsto> (now, 1))"
      by (auto simp: window_check_def split: option.splits if_splits)
    have "t \<le> now" if "s = sig" "(t, s) \<in> H"
      using window_check_passes [OF hist True] that w by fastforce
    then show ?thesis using p True hist by (auto simp: e)
  next
    case False
    then obtain t' k where "m sig = Some (t', k)" and e: "snd (window_check w now sig m) = m(sig \<mapsto> (t', k + 1))"
      by (auto simp: window_check_def split: option.splits if_splits)
    then show ?thesis using p False hist by (auto simp: e)
  qed
qed

text \<open>With room for every signature, the last pass of each is remembered: \<open>H\<close> as before.\<close>

lemma dedup_step_remembers:
  assumes laws: "lru_laws ops entries cap" and inv: "dedup_inv entries cap n d" and w: "0 < dd_window d"
    and keys: "\<forall>c \<in> set (dd_shards d). fst ` set (entries c) \<subseteq> S" and S: "finite S" "card S \<le> n" "sig \<in> S"
    and hist: "\<forall>(t, s) \<in> H. \<exists>t' k. dedup_lookup hash entries d s = Some (t', k) \<and> t \<le> t'"
    and step: "check_and_record hash ops now sig d = (b, d1)"
  shows "\<forall>c \<in> set (dd_shards d1). fst ` set (entries c) \<subseteq> S"
    and "\<forall>(t, s) \<in> (if b then insert (now, sig) H else H). \<exists>t' k. dedup_lookup hash entries d1 s = Some (t', k) \<and> t \<le> t'"
    and "b \<Longrightarrow> \<forall>t. (t, sig) \<in> H \<longrightarrow> dd_window d \<le> now - t"
proof -
  let ?es = "entries (dd_shards d ! shard_index hash sig)"
  note s = dedup_inv_shard [OF inv]
  note s5 = s(5) [of hash sig]
  have sub: "fst ` set ?es \<subseteq> S" using keys s(1) by simp
  have room: "length ?es < n \<or> dedup_lookup hash entries d sig \<noteq> None"
  proof (rule disjCI)
    assume "\<not> dedup_lookup hash entries d sig \<noteq> None"
    then have "fst ` set ?es \<subset> S" using sub S(3) by (auto simp: dedup_lookup_def map_of_eq_None_iff)
    then have "card (fst ` set ?es) < card S" by (rule psubset_card_mono [OF S(1)])
    then show "length ?es < n" using S(2) distinct_card [OF s5] by simp
  qed
  note look = check_and_record_lookup [OF laws inv, where hash = hash and now = now and sig = sig, unfolded step, simplified]
  have l1: "dedup_lookup hash entries d1 = snd (window_check (dd_window d) now sig (dedup_lookup hash entries d))"
    using look(4) room by auto
  obtain c where c: "d1 = d\<lparr>dd_shards := (dd_shards d)[shard_index hash sig := c]\<rparr>" "entries c = shard_after (dd_window d) now sig n ?es"
    using check_and_record_shard(1) [OF laws s(1), of hash now sig] s(3) step by (metis snd_conv)
  have "fst ` set (entries c) \<subseteq> S"
    unfolding c(2) by (rule subset_trans [OF keys_shard_after [OF s5]]) (simp add: sub S(3))
  then show "\<forall>c \<in> set (dd_shards d1). fst ` set (entries c) \<subseteq> S"
    using keys set_update_subset_insert [of "dd_shards d" "shard_index hash sig" c] unfolding c(1) by simp blast
  show "b \<Longrightarrow> \<forall>t. (t, sig) \<in> H \<longrightarrow> dd_window d \<le> now - t"
    using window_check_passes [OF hist] look(1) by simp
  show "\<forall>(t, s) \<in> (if b then insert (now, sig) H else H). \<exists>t' k. dedup_lookup hash entries d1 s = Some (t', k) \<and> t \<le> t'"
    unfolding l1 using window_check_remembers [OF hist w] look(1) by simp
qed

lemma dedup_run_limited:
  assumes laws: "lru_laws ops entries cap" and S: "finite S" "card S \<le> n"
  shows "dedup_inv entries cap n d \<Longrightarrow> 0 < dd_window d \<Longrightarrow>
     \<forall>c \<in> set (dd_shards d). fst ` set (entries c) \<subseteq> S \<Longrightarrow> snd ` set calls \<subseteq> S \<Longrightarrow>
     \<forall>(t, s) \<in> H. \<exists>t' k. dedup_lookup hash entries d s = Some (t', k) \<and> t \<le> t' \<Longrightarrow>
     j < length calls \<Longrightarrow> fst (dedup_run hash ops calls d) ! j \<Longrightarrow>
     (\<forall>t. (t, snd (calls ! j)) \<in> H \<longrightarrow> dd_window d \<le> fst (calls ! j) - t) \<and>
     (\<forall>i < j. fst (dedup_run hash ops calls d) ! i \<longrightarrow> snd (calls ! i) = snd (calls ! j) \<longrightarrow>
        dd_window d \<le> fst (calls ! j) - fst (calls ! i))"
proof (induction calls arbitrary: d H j)
  case Nil
  then show ?case by simp
next
  case (Cons call calls)
  obtain now sig where call: "call = (now, sig)" by fastforce
  obtain b d1 where b: "check_and_record hash ops now sig d = (b, d1)" by fastforce
  have run: "fst (dedup_run hash ops (call # calls) d) = b # fst (dedup_run hash ops calls d1)"
    by (simp add: call b split: prod.split)
  have sig: "sig \<in> S" and rest: "snd ` set calls \<subseteq> S" using Cons.prems(4) by (auto simp: call)
  note st = dedup_step_remembers [OF laws Cons.prems(1,2,3) S sig Cons.prems(5) b]
  show ?case
  proof (cases j)
    case 0
    then show ?thesis using st(3) Cons.prems(7) unfolding run by (simp add: call)
  next
    case (Suc j')
    let ?H = "if b then insert (now, sig) H else H"
    have w: "dedup_inv entries cap n d1" "dd_window d1 = dd_window d"
      using check_and_record_inv [OF laws Cons.prems(1), of hash now sig] by (simp_all add: b)
    have ih: "(\<forall>t. (t, snd (calls ! j')) \<in> ?H \<longrightarrow> dd_window d \<le> fst (calls ! j') - t) \<and>
      (\<forall>i < j'. fst (dedup_run hash ops calls d1) ! i \<longrightarrow> snd (calls ! i) = snd (calls ! j') \<longrightarrow>
        dd_window d \<le> fst (calls ! j') - fst (calls ! i))"
      using Cons.IH [OF w(1) _ st(1) rest st(2), of j'] Cons.prems(2,6,7) unfolding run by (simp add: w(2) Suc)
    have "dd_window d \<le> fst (calls ! j') - fst ((call # calls) ! i)"
      if "i < j" "(b # fst (dedup_run hash ops calls d1)) ! i" "snd ((call # calls) ! i) = snd (calls ! j')" for i
      using that ih by (cases i) (auto simp: call Suc)
    moreover have "dd_window d \<le> fst (calls ! j') - t" if "(t, snd (calls ! j')) \<in> H" for t
      using that ih by simp
    ultimately show ?thesis unfolding run by (simp add: Suc)
  qed
qed

section \<open>Properties\<close>

text \<open>Nothing is suppressed without cause: over any run of calls on a fresh deduplicator, with any clock
  readings, any number of signatures and any evictions, an alert is suppressed only if the same
  signature passed earlier in the run less than the suppression window before.\<close>

lemma dedup_suppression_sound:
  assumes "lru_laws ops entries cap"
    and "dedup_new ops capacity w = Inr d"
    and "i < length calls"
    and "\<not> fst (dedup_run hash ops calls d) ! i"
  shows "\<exists>j < i. fst (dedup_run hash ops calls d) ! j \<and> snd (calls ! j) = snd (calls ! i) \<and>
     fst (calls ! i) - fst (calls ! j) < w"
  using dedup_run_sound [OF assms(1) dedup_new_inv(1) [OF assms(1,2)], of hash "{}" i calls]
    dedup_new_inv(2,3) [OF assms(1,2)] assms(3,4) by auto

text \<open>The cache as a list with a capacity.\<close>

definition list_lru :: "(nat \<times> (alert_signature \<times> instant \<times> u64) list) lru_ops" where
  "list_lru = \<lparr>lru_new = (\<lambda>n. (n, [])),
     lru_get_mut = (\<lambda>k c. (map_of (snd c) k, (fst c, promote k (snd c)))),
     lru_write = (\<lambda>k v c. (fst c, overwrite k v (snd c))),
     lru_put = (\<lambda>k v c. (fst c, take (fst c) ((k, v) # snd c)))\<rparr>"

lemma list_lru_laws: "lru_laws list_lru snd fst"
  by (simp add: lru_laws_def list_lru_def)

definition sig_a :: alert_signature where
  "sig_a = \<lparr>sg_node_id = 7, sg_rule_identifier = ''shell'', sg_mitre_technique = Some ''T1059''\<rparr>"

definition sig_b :: alert_signature where
  "sig_b = \<lparr>sg_node_id = 7, sg_rule_identifier = ''port'', sg_mitre_technique = None\<rparr>"

definition demo_dedup :: "(nat \<times> (alert_signature \<times> instant \<times> u64) list) deduplicator" where
  "demo_dedup = \<lparr>dd_shards = map (\<lambda>_. (2, [])) [0..<SHARD_COUNT], dd_window = 60\<rparr>"

definition demo_calls :: "(instant \<times> alert_signature) list" where
  "demo_calls = [(10, sig_a), (20, sig_b), (30, sig_a), (75, sig_a)]"

lemma demo_dedup_new: "dedup_new list_lru 33 60 = Inr demo_dedup"
  by (simp add: dedup_new_def demo_dedup_def list_lru_def SHARD_COUNT_def)

lemma demo_dedup_run: "fst (dedup_run ucast list_lru demo_calls demo_dedup) = [True, True, False, True]"
  by code_simp

lemma dedup_suppression_sound_witness:
  "\<exists>j < 2. fst (dedup_run ucast list_lru demo_calls demo_dedup) ! j \<and> snd (demo_calls ! j) = snd (demo_calls ! 2) \<and>
     fst (demo_calls ! 2) - fst (demo_calls ! j) < 60"
  using dedup_suppression_sound [OF list_lru_laws demo_dedup_new, of 2 demo_calls ucast]
  unfolding demo_dedup_run by (simp add: demo_calls_def)

text \<open>Alerts are rate limited: as long as a run has no more distinct signatures than a shard has
  room for, two alerts of one signature that both pass are at least the suppression window apart, for
  any clock readings and any hash.\<close>

lemma passes_apart:
  assumes "lru_laws ops entries cap"
    and "dedup_new ops capacity w = Inr d"
    and "card (snd ` set calls) \<le> capacity div SHARD_COUNT"
    and "i < j" and "j < length calls" and "snd (calls ! i) = snd (calls ! j)"
    and "fst (dedup_run hash ops calls d) ! i" and "fst (dedup_run hash ops calls d) ! j"
  shows "w \<le> fst (calls ! j) - fst (calls ! i)"
proof (cases "w = 0")
  case False
  then show ?thesis
    using dedup_run_limited [OF assms(1) _ assms(3) dedup_new_inv(1) [OF assms(1,2)], of calls "{}" hash j]
      dedup_new_inv(2,4) [OF assms(1,2)] assms(4-8) by auto
qed simp

lemma passes_apart_example:
  "fst (dedup_run ucast list_lru demo_calls demo_dedup) ! 0 \<and> fst (dedup_run ucast list_lru demo_calls demo_dedup) ! 3 \<and>
   60 \<le> fst (demo_calls ! 3) - fst (demo_calls ! 0)"
  using passes_apart [OF list_lru_laws demo_dedup_new, of demo_calls 0 3 ucast]
  unfolding demo_dedup_run by (simp add: demo_calls_def SHARD_COUNT_def card_insert_if)

end
