(* ===== verification/RuleEngine.thy ===== *)
theory RuleEngine
  imports RuleScan Dedup
begin

text \<open>
  The rule engine's service, \<open>rule-engine/src\<close>: its configuration (\<open>config.rs\<close>) and counters
  (\<open>metrics.rs\<close>), the telemetry consumer with its dead letter queue (\<open>kafka/consumer.rs\<close>, \<open>kafka/dlq.rs\<close>),
  the scanner loop, the batcher and the hot reload of \<open>main.rs\<close>, and the sink of alerts
  (\<open>sink/diesel_sink.rs\<close>, \<open>kafka/producer.rs\<close>).

  A task of \<open>main.rs\<close> is a function of the sequence of items that wake it, each with what its
  environment answers. The trait \<open>AlertSink\<close> is the locale \<open>alert_sink\<close>, in which the batcher's
  lemmas are proved; it is interpreted on \<open>DualAlertSink\<close>.
\<close>

section \<open>Configuration\<close>

record rule_engine_config =
  rc_kafka_brokers :: string
  rc_kafka_group_id :: string
  rc_kafka_topics :: "string list"
  rc_rules_directory :: string
  rc_mitre_taxonomy_path :: string
  rc_database_url :: string
  rc_db_pool_max_size :: nat
  rc_scanner_worker_count :: nat
  rc_channel_capacity :: nat
  rc_dedup_capacity :: nat
  rc_dedup_suppression_window_secs :: nat
  rc_batch_max_size :: nat
  rc_batch_flush_interval_ms :: nat
  rc_health_port :: nat
  rc_dlq_topic :: string
  rc_alerts_topic :: string

definition env_num :: "nat \<Rightarrow> (string \<Rightarrow> string option) \<Rightarrow> string \<Rightarrow> nat \<Rightarrow> nat" where
  "env_num bits env k d = unwrap_or d (Option.bind (env k) (parse_unsigned bits))"

text \<open>\<open>cpus\<close> is \<open>num_cpus::get()\<close>.\<close>

definition from_env :: "(string \<Rightarrow> string option) \<Rightarrow> nat \<Rightarrow> (app_error, rule_engine_config) result" where
  "from_env env cpus =
     result_bind (ok_or (Config ''DATABASE_URL must be set'') (env ''DATABASE_URL'')) (\<lambda>database_url.
       Ok \<lparr>rc_kafka_brokers = unwrap_or ''localhost:9092'' (env ''KAFKA_BROKERS''),
           rc_kafka_group_id = unwrap_or ''aigis-rule-engine'' (env ''KAFKA_GROUP_ID''),
           rc_kafka_topics = filter (\<lambda>s. s \<noteq> []) (map trim (split_on (CHR '','')
             (unwrap_or ''aigis.events.process,aigis.events.network,aigis.events.file,aigis.events.auth'' (env ''KAFKA_TOPICS'')))),
           rc_rules_directory = unwrap_or ''./rules'' (env ''RULES_DIR''),
           rc_mitre_taxonomy_path = unwrap_or ''./rules/mitre/enterprise-attack-linux.json'' (env ''MITRE_TAXONOMY_PATH''),
           rc_database_url = database_url,
           rc_db_pool_max_size = env_num 64 env ''DB_POOL_MAX_SIZE'' 20,
           rc_scanner_worker_count = env_num 64 env ''SCANNER_WORKERS'' cpus,
           rc_channel_capacity = env_num 64 env ''CHANNEL_CAPACITY'' 10000,
           rc_dedup_capacity = env_num 64 env ''DEDUP_CAPACITY'' 100000,
           rc_dedup_suppression_window_secs = env_num 64 env ''DEDUP_WINDOW_SECS'' 60,
           rc_batch_max_size = env_num 64 env ''BATCH_MAX_SIZE'' 500,
           rc_batch_flush_interval_ms = env_num 64 env ''BATCH_FLUSH_MS'' 100,
           rc_health_port = env_num 16 env ''HEALTH_PORT'' 8081,
           rc_dlq_topic = unwrap_or ''aigis.events.dlq'' (env ''DLQ_TOPIC''),
           rc_alerts_topic = unwrap_or ''aigis.alerts'' (env ''ALERTS_TOPIC'')\<rparr>)"

section \<open>Counters\<close>

record engine_metrics =
  em_events_consumed :: u64
  em_events_scanned :: u64
  em_alerts_generated :: u64
  em_alerts_suppressed :: u64
  em_alerts_persisted :: u64
  em_rule_reloads_total :: u64
  em_rule_reload_failures_total :: u64

definition engine_metrics_new :: engine_metrics where
  "engine_metrics_new = \<lparr>em_events_consumed = 0, em_events_scanned = 0, em_alerts_generated = 0, em_alerts_suppressed = 0,
     em_alerts_persisted = 0, em_rule_reloads_total = 0, em_rule_reload_failures_total = 0\<rparr>"

definition inc_scanned :: "engine_metrics \<Rightarrow> engine_metrics" where
  "inc_scanned m = m\<lparr>em_events_scanned := em_events_scanned m + 1\<rparr>"

definition inc_alerts_generated :: "engine_metrics \<Rightarrow> engine_metrics" where
  "inc_alerts_generated m = m\<lparr>em_alerts_generated := em_alerts_generated m + 1\<rparr>"

definition inc_alerts_suppressed :: "engine_metrics \<Rightarrow> engine_metrics" where
  "inc_alerts_suppressed m = m\<lparr>em_alerts_suppressed := em_alerts_suppressed m + 1\<rparr>"

definition inc_alerts_persisted :: "u64 \<Rightarrow> engine_metrics \<Rightarrow> engine_metrics" where
  "inc_alerts_persisted n m = m\<lparr>em_alerts_persisted := em_alerts_persisted m + n\<rparr>"

definition inc_rule_reloads :: "engine_metrics \<Rightarrow> engine_metrics" where
  "inc_rule_reloads m = m\<lparr>em_rule_reloads_total := em_rule_reloads_total m + 1\<rparr>"

definition inc_rule_reload_failures :: "engine_metrics \<Rightarrow> engine_metrics" where
  "inc_rule_reload_failures m = m\<lparr>em_rule_reload_failures_total := em_rule_reload_failures_total m + 1\<rparr>"

definition engine_prometheus :: "engine_metrics \<Rightarrow> string" where
  "engine_prometheus m = concat (map (\<lambda>(name, help, v).
       ''# HELP '' @ name @ '' '' @ help @ [newline] @ ''# TYPE '' @ name @ '' counter'' @ [newline] @
       name @ '' '' @ show_nat (unat v) @ [newline])
     [(''aigis_events_consumed_total'', ''Total number of events consumed from Kafka'', em_events_consumed m),
      (''aigis_events_scanned_total'', ''Total number of events evaluated by YARA-X'', em_events_scanned m),
      (''aigis_alerts_generated_total'', ''Total number of alerts generated'', em_alerts_generated m),
      (''aigis_alerts_suppressed_total'', ''Total number of duplicate alerts suppressed'', em_alerts_suppressed m),
      (''aigis_alerts_persisted_total'', ''Total number of alerts persisted to sinks'', em_alerts_persisted m),
      (''aigis_rule_reloads_total'', ''Total number of successful rule hot-reloads'', em_rule_reloads_total m),
      (''aigis_rule_reload_failures_total'', ''Total number of failed rule hot-reloads'', em_rule_reload_failures_total m)])"

text \<open>The readiness probe; \<open>pool\<close> is what acquiring a connection gives.\<close>

definition readiness_handler :: "(string, unit) result \<Rightarrow> nat \<times> string" where
  "readiness_handler pool = (case pool of Inr _ \<Rightarrow> (200, ''READY'') | Inl e \<Rightarrow> (503, ''DATABASE_UNAVAILABLE''))"

section \<open>The telemetry consumer\<close>

record telemetry_msg =
  tm_topic :: string
  tm_partition :: int
  tm_offset :: int
  tm_payload :: "bytes option"

record dlq_record =
  dr_topic :: string
  dr_key :: string
  dr_payload :: bytes
  dr_headers :: "(string \<times> string) list"

record telemetry_consumer =
  tc_dlq_topic :: string
  tc_channel :: "telemetry_event list"  \<comment> \<open>sent to the scanner\<close>
  tc_dlq :: "dlq_record list"  \<comment> \<open>taken by the broker\<close>
  tc_commits :: "(string \<times> int \<times> int) list"

text \<open>\<open>answer\<close> is the broker's.\<close>

definition send_poison_pill :: "(string, unit) result \<Rightarrow> string \<Rightarrow> int \<Rightarrow> int \<Rightarrow> bytes \<Rightarrow> string \<Rightarrow> telemetry_consumer
    \<Rightarrow> (app_error, unit) result \<times> telemetry_consumer" where
  "send_poison_pill answer topic part offset payload err s =
     (let rec = \<lparr>dr_topic = tc_dlq_topic s, dr_key = topic, dr_payload = payload,
        dr_headers = [(''x-original-topic'', topic), (''x-original-partition'', show_int part),
          (''x-original-offset'', show_int offset), (''x-error-message'', err)]\<rparr>
      in case answer of
           Inr _ \<Rightarrow> (Ok (), s\<lparr>tc_dlq := tc_dlq s @ [rec]\<rparr>)
         | Inl e \<Rightarrow> (Err (KafkaProduce (''DLQ delivery error: '' @ e)), s))"

text \<open>What wakes the consumer; with a message, whether the channel is open, the broker's answer to a
  dead letter and to the commit.\<close>

datatype consumer_item =
    ConsumerShutdown
  | ConsumerMessage telemetry_msg bool "(string, unit) result" bool
  | ConsumerError string
  | ConsumerEnd

fun consumer_run :: "(bytes \<Rightarrow> (string, telemetry_event) result) \<Rightarrow> consumer_item list \<Rightarrow> telemetry_consumer
    \<Rightarrow> telemetry_consumer" where
  "consumer_run parse [] s = s"
| "consumer_run parse (ConsumerShutdown # items) s = s"
| "consumer_run parse (ConsumerEnd # items) s = s"
| "consumer_run parse (ConsumerError e # items) s = consumer_run parse items s"
| "consumer_run parse (ConsumerMessage m channel_open dlq_answer commit_ok # items) s =
     (let payload = unwrap_or [] (tm_payload m);
          commit = (\<lambda>s. if commit_ok then s\<lparr>tc_commits := tc_commits s @ [(tm_topic m, tm_partition m, tm_offset m)]\<rparr> else s)
      in if payload = [] then consumer_run parse items s
         else case parse payload of
           Inr event \<Rightarrow>
             if channel_open then consumer_run parse items (commit (s\<lparr>tc_channel := tc_channel s @ [event]\<rparr>)) else s
         | Inl err \<Rightarrow>
             consumer_run parse items
               (commit (snd (send_poison_pill dlq_answer (tm_topic m) (tm_partition m) (tm_offset m) payload err s))))"

section \<open>The sink of alerts\<close>

record alert_sink_state =
  as_topic :: string
  as_published :: "(string \<times> string \<times> bytes) list"  \<comment> \<open>topic, key and payload taken by the broker\<close>
  as_alerts :: "new_alert_entity list"  \<comment> \<open>the table \<open>alerts\<close>\<close>

text \<open>What the sink meets: the printing of an alert, the broker's answer for the \<open>i\<close>-th alert of a call,
  the connection and the statement.\<close>

record sink_env =
  se_to_vec :: "alert \<Rightarrow> (string, bytes) result"
  se_uuid_str :: "uuid \<Rightarrow> string"
  se_answer :: "nat \<Rightarrow> (string, unit) result"
  se_pool :: "(string, unit) result"
  se_insert :: "(string, unit) result"

definition publish :: "sink_env \<Rightarrow> nat \<Rightarrow> alert \<Rightarrow> alert_sink_state \<Rightarrow> (app_error, unit) result \<times> alert_sink_state" where
  "publish env i alert s =
     (case se_to_vec env alert of
        Inl e \<Rightarrow> (Err (Serialization e), s)
      | Inr payload \<Rightarrow>
          (case se_answer env i of
             Inr _ \<Rightarrow> (Ok (), s\<lparr>as_published := as_published s @ [(as_topic s, se_uuid_str env (al_node_id alert), payload)]\<rparr>)
           | Inl e \<Rightarrow> (Err (KafkaProduce (''Alert publish error: '' @ e)), s)))"

text \<open>\<open>INSERT ... ON CONFLICT (alert_id) DO NOTHING\<close>, row by row.\<close>

definition insert_row :: "new_alert_entity \<Rightarrow> new_alert_entity list \<Rightarrow> new_alert_entity list" where
  "insert_row e rows = (if na_alert_id e \<in> na_alert_id ` set rows then rows else rows @ [e])"

definition insert_alerts :: "sink_env \<Rightarrow> string \<Rightarrow> new_alert_entity list \<Rightarrow> alert_sink_state
    \<Rightarrow> (app_error, unit) result \<times> alert_sink_state" where
  "insert_alerts env what entities s =
     (case se_pool env of
        Inl e \<Rightarrow> (Err (DatabasePool (''Failed to acquire connection: '' @ e)), s)
      | Inr _ \<Rightarrow>
          (case se_insert env of
             Inl e \<Rightarrow> (Err (DatabaseQuery (what @ e)), s)
           | Inr _ \<Rightarrow> (Ok (), s\<lparr>as_alerts := fold insert_row entities (as_alerts s)\<rparr>)))"

definition send_alert :: "sink_env \<Rightarrow> alert \<Rightarrow> alert_sink_state \<Rightarrow> (app_error, unit) result \<times> alert_sink_state" where
  "send_alert env alert s =
     (case publish env 0 alert s of
        (Inl e, s1) \<Rightarrow> (Err e, s1)
      | (Inr _, s1) \<Rightarrow> insert_alerts env ''Failed to insert alert: '' [entity_of_alert alert] s1)"

definition send_batch :: "sink_env \<Rightarrow> alert list \<Rightarrow> alert_sink_state \<Rightarrow> (app_error, unit) result \<times> alert_sink_state" where
  "send_batch env alerts s =
     (if alerts = [] then (Ok (), s)
      else let s1 = fold (\<lambda>(i, a) s. snd (publish env i a s)) (enumerate 0 alerts) s
           in insert_alerts env ''Failed to batch insert alerts: '' (map entity_of_alert alerts) s1)"

section \<open>The scanner loop\<close>

record 'c scanner_state =
  sn_metrics :: engine_metrics
  sn_dedup :: "'c deduplicator"
  sn_sent :: "alert list"  \<comment> \<open>sent to the batcher\<close>

definition signature_of :: "alert \<Rightarrow> alert_signature" where
  "signature_of a = \<lparr>sg_node_id = al_node_id a, sg_rule_identifier = al_description a,
     sg_mitre_technique = al_mitre_technique_id a\<rparr>"

text \<open>With each event: the registry that is current, the fresh ids, the clock of each check of the
  deduplicator and whether the channel of alerts is open.\<close>

record 'r scan_env =
  sv_registry :: "'r engine_registry"
  sv_fresh :: "nat \<Rightarrow> uuid \<times> timestamp"
  sv_clock :: "nat \<Rightarrow> instant"
  sv_open :: bool

definition handle_alert :: "(uuid \<Rightarrow> u64) \<Rightarrow> 'c lru_ops \<Rightarrow> bool \<Rightarrow> instant \<Rightarrow> alert \<Rightarrow> 'c scanner_state \<Rightarrow> 'c scanner_state" where
  "handle_alert hash ops channel_open now alert s =
     (case check_and_record hash ops now (signature_of alert) (sn_dedup s) of
        (pass, d1) \<Rightarrow>
          (let m1 = inc_alerts_generated (sn_metrics s) in
           if pass
           then s\<lparr>sn_metrics := m1, sn_dedup := d1, sn_sent := sn_sent s @ (if channel_open then [alert] else [])\<rparr>
           else s\<lparr>sn_metrics := inc_alerts_suppressed m1, sn_dedup := d1\<rparr>))"

definition scan_event :: "(uuid \<Rightarrow> u64) \<Rightarrow> 'c lru_ops \<Rightarrow> ('r \<Rightarrow> bytes \<Rightarrow> (string, matched_rule list) result)
    \<Rightarrow> (json \<Rightarrow> bytes option) \<Rightarrow> telemetry_event \<times> 'r scan_env \<Rightarrow> 'c scanner_state \<Rightarrow> 'c scanner_state" where
  "scan_event hash ops scan to_vec ee s =
     (case ee of (event, env) \<Rightarrow>
        let s1 = s\<lparr>sn_metrics := inc_scanned (sn_metrics s)\<rparr> in
        case evaluate scan to_vec (sv_fresh env) (sv_registry env) event of
          Inl err \<Rightarrow> s1
        | Inr alerts \<Rightarrow>
            fold (\<lambda>(i, a) s. handle_alert hash ops (sv_open env) (sv_clock env i) a s) (enumerate 0 alerts) s1)"

text \<open>What wakes the loop: an event, the shutdown with what is left in the channel, or its closing.\<close>

datatype 'r scanner_item =
    ScanEvent "telemetry_event \<times> 'r scan_env"
  | ScanShutdown "(telemetry_event \<times> 'r scan_env) list"
  | ScanClosed

fun scanner_run :: "(uuid \<Rightarrow> u64) \<Rightarrow> 'c lru_ops \<Rightarrow> ('r \<Rightarrow> bytes \<Rightarrow> (string, matched_rule list) result)
    \<Rightarrow> (json \<Rightarrow> bytes option) \<Rightarrow> 'r scanner_item list \<Rightarrow> 'c scanner_state \<Rightarrow> 'c scanner_state" where
  "scanner_run hash ops scan to_vec [] s = s"
| "scanner_run hash ops scan to_vec (ScanClosed # items) s = s"
| "scanner_run hash ops scan to_vec (ScanShutdown rest # items) s = fold (scan_event hash ops scan to_vec) rest s"
| "scanner_run hash ops scan to_vec (ScanEvent e # items) s =
     scanner_run hash ops scan to_vec items (scan_event hash ops scan to_vec e s)"

section \<open>The batcher\<close>

record 's batcher =
  bt_buffer :: "alert list"
  bt_last_flush :: instant
  bt_metrics :: engine_metrics
  bt_sink :: 's

text \<open>What wakes the batcher, with the clock it reads, the clock after a flush and what the sink meets.\<close>

datatype 'e batch_item =
    BatchAlert alert instant instant 'e
  | BatchSleep instant instant 'e
  | BatchShutdown "alert list" 'e  \<comment> \<open>the alerts still in the channel\<close>
  | BatchClosed 'e

text \<open>The flush of the loop: the sink's answer decides only about the counter.\<close>

definition flush_batch :: "('e \<Rightarrow> alert list \<Rightarrow> 's \<Rightarrow> (app_error, unit) result \<times> 's) \<Rightarrow> 'e \<Rightarrow> alert list \<Rightarrow> 's batcher
    \<Rightarrow> (alert list \<times> bool) \<times> 's batcher" where
  "flush_batch send env batch s =
     (case send env batch (bt_sink s) of
        (r, k) \<Rightarrow>
          ((batch, is_ok r),
           s\<lparr>bt_sink := k, bt_buffer := [],
             bt_metrics := (if is_ok r then inc_alerts_persisted (of_nat (length batch)) (bt_metrics s) else bt_metrics s)\<rparr>))"

text \<open>The loop, with the batches it hands to the sink and whether they were taken. The buffer is dropped
  with the task. On the closing of the channel the counter is not updated.\<close>

fun batcher_run :: "('e \<Rightarrow> alert list \<Rightarrow> 's \<Rightarrow> (app_error, unit) result \<times> 's) \<Rightarrow> nat \<Rightarrow> nat
    \<Rightarrow> 'e batch_item list \<Rightarrow> 's batcher \<Rightarrow> (alert list \<times> bool) list \<times> 's batcher" where
  "batcher_run send max_size interval [] s = ([], s)"
| "batcher_run send max_size interval (BatchAlert alert now later env # items) s =
     (let s1 = s\<lparr>bt_buffer := bt_buffer s @ [alert]\<rparr> in
      if max_size \<le> length (bt_buffer s1) \<or> interval \<le> now - bt_last_flush s
      then (case flush_batch send env (bt_buffer s1) s1 of
              (b, s2) \<Rightarrow> (case batcher_run send max_size interval items (s2\<lparr>bt_last_flush := later\<rparr>) of
                 (bs, s3) \<Rightarrow> (b # bs, s3)))
      else batcher_run send max_size interval items s1)"
| "batcher_run send max_size interval (BatchSleep now later env # items) s =
     (if bt_buffer s \<noteq> [] \<and> interval \<le> now - bt_last_flush s
      then (case flush_batch send env (bt_buffer s) s of
              (b, s2) \<Rightarrow> (case batcher_run send max_size interval items (s2\<lparr>bt_last_flush := later\<rparr>) of
                 (bs, s3) \<Rightarrow> (b # bs, s3)))
      else batcher_run send max_size interval items s)"
| "batcher_run send max_size interval (BatchShutdown pending env # items) s =
     (let batch = bt_buffer s @ pending in
      if batch \<noteq> [] then (case flush_batch send env batch s of (b, s2) \<Rightarrow> ([b], s2)) else ([], s))"
| "batcher_run send max_size interval (BatchClosed env # items) s =
     (if bt_buffer s \<noteq> []
      then (case send env (bt_buffer s) (bt_sink s) of
              (r, k) \<Rightarrow> ([(bt_buffer s, is_ok r)], s\<lparr>bt_sink := k, bt_buffer := []\<rparr>))
      else ([], s))"

section \<open>The hot reload\<close>

text \<open>One SIGHUP: what compiling gives, and what reading the taxonomy gives where its file exists.\<close>

definition reload_rules :: "(app_error, (string \<times> 'r) list) result \<Rightarrow> (app_error, mitre_taxonomy) result option
    \<Rightarrow> 'r engine_registry \<times> engine_metrics \<Rightarrow> 'r engine_registry \<times> engine_metrics" where
  "reload_rules compiled taxonomy rm =
     (case rm of (registry, m) \<Rightarrow>
        case compiled of
          Inl e \<Rightarrow> (registry, inc_rule_reload_failures m)
        | Inr new_rules \<Rightarrow>
            (let new_mitre = (case taxonomy of
                   None \<Rightarrow> empty_taxonomy
                 | Some (Inl e) \<Rightarrow> empty_taxonomy
                 | Some (Inr t) \<Rightarrow> t)
             in (registry_new new_rules new_mitre, inc_rule_reloads m)))"

text \<open>At the start a taxonomy that does not load is an error.\<close>

definition initial_registry :: "(app_error, (string \<times> 'r) list) result \<Rightarrow> (app_error, mitre_taxonomy) result option
    \<Rightarrow> (app_error, 'r engine_registry) result" where
  "initial_registry compiled taxonomy =
     result_bind (case taxonomy of None \<Rightarrow> Ok empty_taxonomy | Some t \<Rightarrow> t) (\<lambda>mitre.
       result_bind compiled (\<lambda>rule_sets. Ok (registry_new rule_sets mitre)))"

text \<open>The batcher's runs, with its branches as cases.\<close>

lemma batcher_run_induct:
  assumes init: "\<And>s. P [] s [] s"
    and hold: "\<And>a now later env items s bs s'. length (bt_buffer s @ [a]) < n \<Longrightarrow>
      P items (s\<lparr>bt_buffer := bt_buffer s @ [a]\<rparr>) bs s' \<Longrightarrow> P (BatchAlert a now later env # items) s bs s'"
    and full: "\<And>a now later env items s p s2 bs s'.
      flush_batch send env (bt_buffer s @ [a]) (s\<lparr>bt_buffer := bt_buffer s @ [a]\<rparr>) = (p, s2) \<Longrightarrow>
      P items (s2\<lparr>bt_last_flush := later\<rparr>) bs s' \<Longrightarrow> P (BatchAlert a now later env # items) s (p # bs) s'"
    and idle: "\<And>now later env items s bs s'. P items s bs s' \<Longrightarrow> P (BatchSleep now later env # items) s bs s'"
    and timer: "\<And>now later env items s p s2 bs s'. bt_buffer s \<noteq> [] \<Longrightarrow> flush_batch send env (bt_buffer s) s = (p, s2) \<Longrightarrow>
      P items (s2\<lparr>bt_last_flush := later\<rparr>) bs s' \<Longrightarrow> P (BatchSleep now later env # items) s (p # bs) s'"
    and shut: "\<And>pending env items s p s2. bt_buffer s @ pending \<noteq> [] \<Longrightarrow>
      flush_batch send env (bt_buffer s @ pending) s = (p, s2) \<Longrightarrow> P (BatchShutdown pending env # items) s [p] s2"
    and shut0: "\<And>env items s. bt_buffer s = [] \<Longrightarrow> P (BatchShutdown [] env # items) s [] s"
    and closed: "\<And>env items s r k. bt_buffer s \<noteq> [] \<Longrightarrow> send env (bt_buffer s) (bt_sink s) = (r, k) \<Longrightarrow>
      P (BatchClosed env # items) s [(bt_buffer s, is_ok r)] (s\<lparr>bt_sink := k, bt_buffer := []\<rparr>)"
    and closed0: "\<And>env items s. bt_buffer s = [] \<Longrightarrow> P (BatchClosed env # items) s [] s"
  shows "P items s (fst (batcher_run send n i items s)) (snd (batcher_run send n i items s))"
proof (induction items arbitrary: s)
  case Nil
  then show ?case by (simp add: init)
next
  case (Cons item items)
  show ?case
  proof (cases item)
    case (BatchAlert a now later env)
    obtain p s2 where f: "flush_batch send env (bt_buffer s @ [a]) (s\<lparr>bt_buffer := bt_buffer s @ [a]\<rparr>) = (p, s2)" by fastforce
    show ?thesis
      using hold [of s a items _ _ now later env, OF _ Cons] full [OF f Cons, of now later]
      by (auto simp: BatchAlert Let_def f split: prod.split)
  next
    case (BatchSleep now later env)
    obtain p s2 where f: "flush_batch send env (bt_buffer s) s = (p, s2)" by fastforce
    show ?thesis
      using idle [OF Cons, of now later env s] timer [OF _ f Cons, of now later]
      by (auto simp: BatchSleep f split: prod.split)
  next
    case (BatchShutdown pending env)
    obtain p s2 where f: "flush_batch send env (bt_buffer s @ pending) s = (p, s2)" by fastforce
    show ?thesis
      using shut [OF _ f] shut0 [of s] by (auto simp: BatchShutdown Let_def f)
  next
    case (BatchClosed env)
    obtain r k where f: "send env (bt_buffer s) (bt_sink s) = (r, k)" by fastforce
    show ?thesis using closed [OF _ f] closed0 [of s] by (auto simp: BatchClosed f)
  qed
qed

section \<open>The interface of sinks\<close>

definition accepted :: "(alert list \<times> bool) list \<Rightarrow> alert list" where
  "accepted bs = concat (map fst (filter snd bs))"

lemma accepted_simps [simp]:
  "accepted [] = []" "accepted ((b, True) # bs) = b @ accepted bs" "accepted ((b, False) # bs) = accepted bs"
  by (simp_all add: accepted_def)

lemma accepted_Cons: "accepted (p # bs) = accepted [p] @ accepted bs"
  by (simp add: accepted_def)

text \<open>A sink that takes a batch stores all of it, one that refuses stores nothing of it, and nothing is
  ever lost from it.\<close>

locale alert_sink =
  fixes send :: "'e \<Rightarrow> alert list \<Rightarrow> 's \<Rightarrow> (app_error, unit) result \<times> 's"
    and stored :: "'s \<Rightarrow> uuid set"
  assumes send_ok: "is_ok (fst (send e as k)) \<Longrightarrow> stored (snd (send e as k)) = stored k \<union> al_alert_id ` set as"
    and send_err: "\<not> is_ok (fst (send e as k)) \<Longrightarrow> stored (snd (send e as k)) = stored k"
begin

lemma send_stored:
  "send e as k = (r, k') \<Longrightarrow> stored k' = stored k \<union> (if is_ok r then al_alert_id ` set as else {})"
  using send_ok [of e as k] send_err [of e as k] by (cases "is_ok r") simp_all

lemma flush_batch_stored:
  "flush_batch send e b s = (p, s') \<Longrightarrow> stored (bt_sink s') = stored (bt_sink s) \<union> al_alert_id ` set (accepted [p])"
  by (auto simp: flush_batch_def accepted_def split: prod.splits dest!: send_stored)

lemma batcher_run_stored:
  "stored (bt_sink (snd (batcher_run send n i items s))) =
     stored (bt_sink s) \<union> al_alert_id ` set (accepted (fst (batcher_run send n i items s)))"
proof (rule batcher_run_induct [where P = "\<lambda>items s bs s'. stored (bt_sink s') = stored (bt_sink s) \<union> al_alert_id ` set (accepted bs)"])
  show "stored (bt_sink s') = stored (bt_sink s) \<union> al_alert_id ` set (accepted (p # bs))"
    if "flush_batch send env (bt_buffer s @ [a]) (s\<lparr>bt_buffer := bt_buffer s @ [a]\<rparr>) = (p, s2)"
      "stored (bt_sink s') = stored (bt_sink (s2\<lparr>bt_last_flush := later\<rparr>)) \<union> al_alert_id ` set (accepted bs)" for a env later s p s2 bs s'
    using flush_batch_stored [OF that(1)] that(2) accepted_Cons [of p bs] by (simp add: image_Un Un_assoc)
  show "stored (bt_sink s') = stored (bt_sink s) \<union> al_alert_id ` set (accepted (p # bs))"
    if "flush_batch send env (bt_buffer s) s = (p, s2)"
      "stored (bt_sink s') = stored (bt_sink (s2\<lparr>bt_last_flush := later\<rparr>)) \<union> al_alert_id ` set (accepted bs)" for env later s p s2 bs s'
    using flush_batch_stored [OF that(1)] that(2) accepted_Cons [of p bs] by (simp add: image_Un Un_assoc)
  show "stored (bt_sink s2) = stored (bt_sink s) \<union> al_alert_id ` set (accepted [p])"
    if "flush_batch send env (bt_buffer s @ pending) s = (p, s2)" for env pending s p s2
    using flush_batch_stored [OF that] .
  show "stored (bt_sink (s\<lparr>bt_sink := k, bt_buffer := []\<rparr>)) = stored (bt_sink s) \<union> al_alert_id ` set (accepted [(bt_buffer s, is_ok r)])"
    if "send env (bt_buffer s) (bt_sink s) = (r, k)" for env s r k
    using send_stored [OF that] by (simp add: accepted_def)
qed simp_all

end

section \<open>The sink of the engine\<close>

definition stored_ids :: "alert_sink_state \<Rightarrow> uuid set" where
  "stored_ids s = na_alert_id ` set (as_alerts s)"

lemma publish_alerts [simp]: "as_alerts (snd (publish env i a s)) = as_alerts s"
  by (simp add: publish_def split: sum.split)

lemma fold_publish_alerts: "as_alerts (fold (\<lambda>(i, a) s. snd (publish env i a s)) ps s) = as_alerts s"
  by (induction ps arbitrary: s) auto

lemma fold_insert_row_ids: "na_alert_id ` set (fold insert_row es rows) = na_alert_id ` set rows \<union> na_alert_id ` set es"
  by (induction es arbitrary: rows) (auto simp: insert_row_def)

lemma fold_insert_row_distinct:
  "distinct (map na_alert_id rows) \<Longrightarrow> distinct (map na_alert_id (fold insert_row es rows))"
  by (induction es arbitrary: rows) (auto simp: insert_row_def)

lemma fold_insert_row_keeps: "\<exists>rest. fold insert_row es rows = rows @ rest"
proof (induction es arbitrary: rows)
  case (Cons e es)
  obtain rest where "fold insert_row es (insert_row e rows) = insert_row e rows @ rest" using Cons by blast
  moreover have "\<exists>r. insert_row e rows = rows @ r" by (simp add: insert_row_def)
  ultimately show ?case by auto
qed simp

lemma entity_id [simp]: "na_alert_id (entity_of_alert a) = al_alert_id a"
  by (simp add: entity_of_alert_def)

interpretation dual: alert_sink send_batch stored_ids
proof
  fix e :: sink_env and as k
  show "is_ok (fst (send_batch e as k)) \<Longrightarrow> stored_ids (snd (send_batch e as k)) = stored_ids k \<union> al_alert_id ` set as"
    by (auto simp: send_batch_def insert_alerts_def Let_def stored_ids_def fold_insert_row_ids fold_publish_alerts
        image_image split: if_splits sum.splits)
  show "\<not> is_ok (fst (send_batch e as k)) \<Longrightarrow> stored_ids (snd (send_batch e as k)) = stored_ids k"
    by (auto simp: send_batch_def insert_alerts_def Let_def stored_ids_def fold_publish_alerts split: if_splits sum.splits)
qed

section \<open>Properties of the batcher\<close>

fun batch_received :: "'e batch_item list \<Rightarrow> alert list" where
  "batch_received [] = []"
| "batch_received (BatchAlert a _ _ _ # items) = a # batch_received items"
| "batch_received (BatchSleep _ _ _ # items) = batch_received items"
| "batch_received (BatchShutdown pending _ # items) = pending"
| "batch_received (BatchClosed _ # items) = []"

lemma flush_batch_shape:
  "flush_batch send e b s = (p, s') \<Longrightarrow> fst p = b \<and> bt_buffer s' = []"
  by (auto simp: flush_batch_def split: prod.splits)

lemma batcher_run_conserves:
  "concat (map fst (fst (batcher_run send n i items s))) @ bt_buffer (snd (batcher_run send n i items s)) =
     bt_buffer s @ batch_received items \<and>
   list_all (\<lambda>p. fst p \<noteq> []) (fst (batcher_run send n i items s))"
  by (rule batcher_run_induct [where P = "\<lambda>items s bs s'. concat (map fst bs) @ bt_buffer s' =
     bt_buffer s @ batch_received items \<and> list_all (\<lambda>p. fst p \<noteq> []) bs"]) (auto dest!: flush_batch_shape)

lemma batcher_run_bound:
  "length (bt_buffer s) < max 1 n \<longrightarrow>
   list_all (\<lambda>p. length (fst p) \<le> max 1 n) (butlast (fst (batcher_run send n i items s))) \<and>
   length (bt_buffer (snd (batcher_run send n i items s))) < max 1 n"
  by (rule batcher_run_induct [where P = "\<lambda>items s bs s'. length (bt_buffer s) < max 1 n \<longrightarrow>
     list_all (\<lambda>p. length (fst p) \<le> max 1 n) (butlast bs) \<and> length (bt_buffer s') < max 1 n"]) (auto dest!: flush_batch_shape)

definition batcher_start :: "instant \<Rightarrow> engine_metrics \<Rightarrow> 's \<Rightarrow> 's batcher" where
  "batcher_start now m k = \<lparr>bt_buffer = [], bt_last_flush = now, bt_metrics = m, bt_sink = k\<rparr>"

text \<open>The batcher loses and reorders nothing on its way to the sink: whatever wakes it and whatever the
  sink answers, the batches it hands over, followed by what it still holds, are the alerts it received
  in order; no batch is empty, none but a final one is longer than the configured size, and the table
  afterwards holds what it held and every alert of the batches that were taken.\<close>

lemma batcher_conserves_alerts:
  "concat (map fst (fst (batcher_run send_batch n i items (batcher_start now m k)))) @
     bt_buffer (snd (batcher_run send_batch n i items (batcher_start now m k))) = batch_received items \<and>
   list_all (\<lambda>p. fst p \<noteq> []) (fst (batcher_run send_batch n i items (batcher_start now m k))) \<and>
   list_all (\<lambda>p. length (fst p) \<le> max 1 n) (butlast (fst (batcher_run send_batch n i items (batcher_start now m k)))) \<and>
   stored_ids (bt_sink (snd (batcher_run send_batch n i items (batcher_start now m k)))) =
     stored_ids k \<union> al_alert_id ` set (accepted (fst (batcher_run send_batch n i items (batcher_start now m k))))"
  using batcher_run_conserves [of send_batch n i items "batcher_start now m k"]
    batcher_run_bound [of "batcher_start now m k" n send_batch i items]
    dual.batcher_run_stored [of n i items "batcher_start now m k"]
  by (simp add: batcher_start_def)

section \<open>Properties of the scanner loop\<close>

fun scan_reached :: "'r scanner_item list \<Rightarrow> (telemetry_event \<times> 'r scan_env) list" where
  "scan_reached [] = []"
| "scan_reached (ScanClosed # items) = []"
| "scan_reached (ScanShutdown rest # items) = rest"
| "scan_reached (ScanEvent e # items) = e # scan_reached items"

text \<open>The alerts of an event, each with the clock of its check and whether the channel is open.\<close>

definition event_alerts :: "('r \<Rightarrow> bytes \<Rightarrow> (string, matched_rule list) result) \<Rightarrow> (json \<Rightarrow> bytes option)
    \<Rightarrow> telemetry_event \<times> 'r scan_env \<Rightarrow> (instant \<times> bool \<times> alert) list" where
  "event_alerts scan to_vec ee = (case ee of (event, env) \<Rightarrow>
     case evaluate scan to_vec (sv_fresh env) (sv_registry env) event of
       Inl e \<Rightarrow> []
     | Inr alerts \<Rightarrow> map (\<lambda>(i, a). (sv_clock env i, sv_open env, a)) (enumerate 0 alerts))"

definition scan_alerts :: "('r \<Rightarrow> bytes \<Rightarrow> (string, matched_rule list) result) \<Rightarrow> (json \<Rightarrow> bytes option)
    \<Rightarrow> 'r scanner_item list \<Rightarrow> (instant \<times> bool \<times> alert) list" where
  "scan_alerts scan to_vec items = concat (map (event_alerts scan to_vec) (scan_reached items))"

definition alert_calls :: "(instant \<times> bool \<times> alert) list \<Rightarrow> (instant \<times> alert_signature) list" where
  "alert_calls outs = map (\<lambda>(t, op, a). (t, signature_of a)) outs"

definition passed_alerts :: "bool list \<Rightarrow> (instant \<times> bool \<times> alert) list \<Rightarrow> alert list" where
  "passed_alerts bs outs = concat (map (\<lambda>(b, t, op, a). if b \<and> op then [a] else []) (zip bs outs))"

lemma scanner_run_reached:
  "scanner_run hash ops scan to_vec items s = fold (scan_event hash ops scan to_vec) (scan_reached items) s"
  by (induction hash ops scan to_vec items s rule: scanner_run.induct) simp_all

text \<open>A list of alerts put through the deduplicator.\<close>

definition put_alerts :: "(uuid \<Rightarrow> u64) \<Rightarrow> 'c lru_ops \<Rightarrow> (instant \<times> bool \<times> alert) list \<Rightarrow> 'c scanner_state \<Rightarrow> 'c scanner_state" where
  "put_alerts hash ops outs s = fold (\<lambda>(t, op, a) s. handle_alert hash ops op t a s) outs s"

lemma put_alerts_effect:
  "\<exists>bs d. dedup_run hash ops (alert_calls outs) (sn_dedup s) = (bs, d) \<and> length bs = length outs \<and>
     put_alerts hash ops outs s =
       s\<lparr>sn_dedup := d, sn_sent := sn_sent s @ passed_alerts bs outs,
         sn_metrics := (sn_metrics s)\<lparr>em_alerts_generated := em_alerts_generated (sn_metrics s) + of_nat (length outs),
           em_alerts_suppressed := em_alerts_suppressed (sn_metrics s) + of_nat (length (filter Not bs))\<rparr>\<rparr>"
proof (induction outs arbitrary: s)
  case Nil
  then show ?case by (simp add: put_alerts_def alert_calls_def passed_alerts_def)
next
  case (Cons out outs)
  obtain t op a where out: "out = (t, op, a)" by (metis prod_cases3)
  obtain b d1 where b: "check_and_record hash ops t (signature_of a) (sn_dedup s) = (b, d1)" by fastforce
  let ?s1 = "handle_alert hash ops op t a s"
  have d1: "sn_dedup ?s1 = d1" by (simp add: handle_alert_def b Let_def)
  obtain bs d where ih: "dedup_run hash ops (alert_calls outs) d1 = (bs, d)" "length bs = length outs"
    "put_alerts hash ops outs ?s1 =
       ?s1\<lparr>sn_dedup := d, sn_sent := sn_sent ?s1 @ passed_alerts bs outs,
         sn_metrics := (sn_metrics ?s1)\<lparr>em_alerts_generated := em_alerts_generated (sn_metrics ?s1) + of_nat (length outs),
           em_alerts_suppressed := em_alerts_suppressed (sn_metrics ?s1) + of_nat (length (filter Not bs))\<rparr>\<rparr>"
    using Cons [of ?s1] unfolding d1 by blast
  have "put_alerts hash ops (out # outs) s = put_alerts hash ops outs ?s1" by (simp add: put_alerts_def out)
  moreover have "dedup_run hash ops (alert_calls (out # outs)) (sn_dedup s) = (b # bs, d)"
    using ih(1) by (simp add: alert_calls_def out b)
  ultimately show ?case
    using ih(2,3) b by (simp add: handle_alert_def Let_def out inc_alerts_generated_def inc_alerts_suppressed_def passed_alerts_def)
qed

lemma scan_event_put:
  "scan_event hash ops scan to_vec ee s =
     put_alerts hash ops (event_alerts scan to_vec ee) (s\<lparr>sn_metrics := inc_scanned (sn_metrics s)\<rparr>)"
  by (cases ee)
    (simp add: scan_event_def event_alerts_def put_alerts_def fold_map comp_def case_prod_unfold Let_def split: sum.split)

lemma dedup_run_append:
  "dedup_run hash ops (c1 @ c2) d =
     (case dedup_run hash ops c1 d of (b1, d1) \<Rightarrow> case dedup_run hash ops c2 d1 of (b2, d2) \<Rightarrow> (b1 @ b2, d2))"
  by (induction hash ops c1 d rule: dedup_run.induct) (auto split: prod.splits)

lemma scan_events_effect:
  "\<exists>bs d. dedup_run hash ops (alert_calls (concat (map (event_alerts scan to_vec) es))) (sn_dedup s) = (bs, d) \<and>
     length bs = length (concat (map (event_alerts scan to_vec) es)) \<and>
     fold (scan_event hash ops scan to_vec) es s =
       s\<lparr>sn_dedup := d, sn_sent := sn_sent s @ passed_alerts bs (concat (map (event_alerts scan to_vec) es)),
         sn_metrics := (sn_metrics s)\<lparr>em_events_scanned := em_events_scanned (sn_metrics s) + of_nat (length es),
           em_alerts_generated := em_alerts_generated (sn_metrics s) + of_nat (length (concat (map (event_alerts scan to_vec) es))),
           em_alerts_suppressed := em_alerts_suppressed (sn_metrics s) + of_nat (length (filter Not bs))\<rparr>\<rparr>"
proof (induction es arbitrary: s)
  case Nil
  then show ?case by (simp add: alert_calls_def passed_alerts_def)
next
  case (Cons e es)
  let ?o = "event_alerts scan to_vec e" and ?os = "concat (map (event_alerts scan to_vec) es)"
  let ?s1 = "scan_event hash ops scan to_vec e s"
  obtain b1 d1 where h: "dedup_run hash ops (alert_calls ?o) (sn_dedup s) = (b1, d1)" "length b1 = length ?o"
    "?s1 = s\<lparr>sn_dedup := d1, sn_sent := sn_sent s @ passed_alerts b1 ?o,
         sn_metrics := (inc_scanned (sn_metrics s))\<lparr>em_alerts_generated := em_alerts_generated (sn_metrics s) + of_nat (length ?o),
           em_alerts_suppressed := em_alerts_suppressed (sn_metrics s) + of_nat (length (filter Not b1))\<rparr>\<rparr>"
    using put_alerts_effect [of hash ops ?o "s\<lparr>sn_metrics := inc_scanned (sn_metrics s)\<rparr>"]
    by (auto simp: scan_event_put inc_scanned_def)
  obtain b2 d2 where t: "dedup_run hash ops (alert_calls ?os) (sn_dedup ?s1) = (b2, d2)" "length b2 = length ?os"
    "fold (scan_event hash ops scan to_vec) es ?s1 =
       ?s1\<lparr>sn_dedup := d2, sn_sent := sn_sent ?s1 @ passed_alerts b2 ?os,
         sn_metrics := (sn_metrics ?s1)\<lparr>em_events_scanned := em_events_scanned (sn_metrics ?s1) + of_nat (length es),
           em_alerts_generated := em_alerts_generated (sn_metrics ?s1) + of_nat (length ?os),
           em_alerts_suppressed := em_alerts_suppressed (sn_metrics ?s1) + of_nat (length (filter Not b2))\<rparr>\<rparr>"
    using Cons [of ?s1] by blast
  have "sn_dedup ?s1 = d1" by (simp add: h(3))
  then have "dedup_run hash ops (alert_calls (?o @ ?os)) (sn_dedup s) = (b1 @ b2, d2)"
    using h(1) t(1) by (simp add: alert_calls_def dedup_run_append)
  moreover have "passed_alerts (b1 @ b2) (?o @ ?os) = passed_alerts b1 ?o @ passed_alerts b2 ?os"
    using h(2) by (simp add: passed_alerts_def)
  ultimately show ?case
    using h(2) t(2,3) by (simp add: h(3) inc_scanned_def)
qed

text \<open>The scanner loop is evaluation followed by deduplication: over any sequence of events, the shutdown
  with its drain included, it forwards exactly the alerts of the events that the deduplicator lets
  through, in order, as long as the channel is open; every alert generated is counted once and so is
  every one suppressed, and every event reached is counted as scanned.\<close>

lemma scanner_forwards_passed:
  "\<exists>bs d. dedup_run hash ops (alert_calls (scan_alerts scan to_vec items)) (sn_dedup s) = (bs, d) \<and>
     length bs = length (scan_alerts scan to_vec items) \<and>
     scanner_run hash ops scan to_vec items s =
       s\<lparr>sn_dedup := d, sn_sent := sn_sent s @ passed_alerts bs (scan_alerts scan to_vec items),
         sn_metrics := (sn_metrics s)\<lparr>em_events_scanned := em_events_scanned (sn_metrics s) + of_nat (length (scan_reached items)),
           em_alerts_generated := em_alerts_generated (sn_metrics s) + of_nat (length (scan_alerts scan to_vec items)),
           em_alerts_suppressed := em_alerts_suppressed (sn_metrics s) + of_nat (length (filter Not bs))\<rparr>\<rparr>"
  unfolding scanner_run_reached scan_alerts_def by (rule scan_events_effect)

definition scanner_start :: "'c deduplicator \<Rightarrow> 'c scanner_state" where
  "scanner_start d = \<lparr>sn_metrics = engine_metrics_new, sn_dedup = d, sn_sent = []\<rparr>"

lemma passed_alerts_nth:
  assumes "i < length outs" "length bs = length outs" "bs ! i" "fst (snd (outs ! i))"
  shows "snd (snd (outs ! i)) \<in> set (passed_alerts bs outs)"
proof -
  have "(bs ! i, outs ! i) \<in> set (zip bs outs)" using assms by (force simp: set_zip)
  moreover obtain t op a where "outs ! i = (t, op, a)" by (metis prod_cases3)
  ultimately show ?thesis using assms(3,4) by (force simp: passed_alerts_def)
qed

text \<open>No finding is silenced: from a fresh deduplicator, with the channel of alerts open, for every
  alert generated the loop forwards either that alert or an earlier one of the same node, description
  and technique, generated less than the suppression window before; for any cache capacity, any
  evictions and any clock.\<close>

lemma every_alert_represented:
  assumes "lru_laws ops entries cap"
    and "dedup_new ops capacity w = Inr d"
    and "list_all (\<lambda>out. fst (snd out)) (scan_alerts scan to_vec items)"
    and "i < length (scan_alerts scan to_vec items)"
  shows "\<exists>j \<le> i. case (scan_alerts scan to_vec items ! i, scan_alerts scan to_vec items ! j) of
     ((t, _, a), (t', _, a')) \<Rightarrow>
       a' \<in> set (sn_sent (scanner_run hash ops scan to_vec items (scanner_start d))) \<and>
       al_node_id a' = al_node_id a \<and> al_description a' = al_description a \<and>
       al_mitre_technique_id a' = al_mitre_technique_id a \<and> (j = i \<or> t - t' < w)"
proof -
  let ?o = "scan_alerts scan to_vec items"
  obtain bs d' where r: "dedup_run hash ops (alert_calls ?o) d = (bs, d')" "length bs = length ?o"
    "sn_sent (scanner_run hash ops scan to_vec items (scanner_start d)) = passed_alerts bs ?o"
    using scan_events_effect [of hash ops scan to_vec "scan_reached items" "scanner_start d"]
    unfolding scanner_run_reached scan_alerts_def by (auto simp: scanner_start_def)
  have op: "fst (snd (?o ! j))" if "j < length ?o" for j
    using assms(3) that by (simp add: list_all_length)
  obtain j where j: "j \<le> i" "bs ! j" "snd (alert_calls ?o ! j) = snd (alert_calls ?o ! i)"
    "j = i \<or> fst (alert_calls ?o ! i) - fst (alert_calls ?o ! j) < w"
  proof (cases "bs ! i")
    case False
    have len: "length (alert_calls ?o) = length ?o" by (simp add: alert_calls_def)
    have "\<exists>j < i. fst (dedup_run hash ops (alert_calls ?o) d) ! j \<and> snd (alert_calls ?o ! j) = snd (alert_calls ?o ! i) \<and>
        fst (alert_calls ?o ! i) - fst (alert_calls ?o ! j) < w"
      using dedup_run_sound [OF assms(1) dedup_new_inv(1) [OF assms(1,2)], of hash "{}" i "alert_calls ?o"]
        dedup_new_inv(2,3) [OF assms(1,2)] assms(4) False r(1) len by simp
    then obtain j where "j < i" "bs ! j" "snd (alert_calls ?o ! j) = snd (alert_calls ?o ! i)"
      "fst (alert_calls ?o ! i) - fst (alert_calls ?o ! j) < w"
      using r(1) by auto
    then show ?thesis using that [of j] by simp
  qed (use that in blast)
  have "snd (snd (?o ! j)) \<in> set (passed_alerts bs ?o)"
    using passed_alerts_nth [OF _ r(2) j(2)] op j(1) assms(4) by auto
  then show ?thesis
    using j assms(4) r(3) by (intro exI [of _ j]) (auto simp: alert_calls_def signature_of_def split: prod.splits)
qed

definition demo_event :: telemetry_event where
  "demo_event = \<lparr>te_id = ''e1'', te_node_id = 7, te_hostname = ''web-1'', te_event_type = ''process'', te_timestamp_ns = 0,
     te_payload = JObject [(''cmdline'', JString ''nc -e'')], te_raw_sequence_id = None\<rparr>"

definition demo_env :: "instant \<Rightarrow> unit scan_env" where
  "demo_env now = \<lparr>sv_registry = \<lparr>er_rule_sets = [(''process'', ())], er_mitre = empty_taxonomy\<rparr>,
     sv_fresh = (\<lambda>i. (of_nat i, 0)), sv_clock = (\<lambda>i. now), sv_open = True\<rparr>"

definition demo_scan :: "unit \<Rightarrow> bytes \<Rightarrow> (string, matched_rule list) result" where
  "demo_scan rules buffer = Ok (if contains_str buffer ''nc -e'' then [\<lparr>mr_identifier = ''shell'', mr_metadata = []\<rparr>] else [])"

definition demo_items :: "unit scanner_item list" where
  "demo_items = [ScanEvent (demo_event, demo_env 5), ScanEvent (demo_event, demo_env 9)]"

lemma every_alert_represented_example:
  "\<exists>j \<le> 1. case (scan_alerts demo_scan (\<lambda>_. None) demo_items ! 1, scan_alerts demo_scan (\<lambda>_. None) demo_items ! j) of
     ((t, _, a), (t', _, a')) \<Rightarrow>
       a' \<in> set (sn_sent (scanner_run ucast list_lru demo_scan (\<lambda>_. None) demo_items (scanner_start demo_dedup))) \<and>
       al_node_id a' = al_node_id a \<and> al_description a' = al_description a \<and>
       al_mitre_technique_id a' = al_mitre_technique_id a \<and> (j = 1 \<or> t - t' < 60)"
proof (rule every_alert_represented [OF list_lru_laws demo_dedup_new])
  show "list_all (\<lambda>out. fst (snd out)) (scan_alerts demo_scan (\<lambda>_. None) demo_items)" by code_simp
  show "1 < length (scan_alerts demo_scan (\<lambda>_. None) demo_items)" by code_simp
qed

section \<open>Properties of the consumer and of the reload\<close>

text \<open>The messages with a payload that the consumer reaches: up to the shutdown, the end of the stream or
  the closing of the channel.\<close>

fun consumer_reached :: "(bytes \<Rightarrow> (string, telemetry_event) result) \<Rightarrow> consumer_item list
    \<Rightarrow> (telemetry_msg \<times> bytes \<times> (string, unit) result \<times> bool) list" where
  "consumer_reached parse [] = []"
| "consumer_reached parse (ConsumerShutdown # items) = []"
| "consumer_reached parse (ConsumerEnd # items) = []"
| "consumer_reached parse (ConsumerError e # items) = consumer_reached parse items"
| "consumer_reached parse (ConsumerMessage m channel_open answer commit_ok # items) =
     (let payload = unwrap_or [] (tm_payload m) in
      if payload = [] then consumer_reached parse items
      else if is_ok (parse payload) \<and> \<not> channel_open then []
      else (m, payload, answer, commit_ok) # consumer_reached parse items)"

definition forwarded :: "(bytes \<Rightarrow> (string, telemetry_event) result) \<Rightarrow> telemetry_msg \<times> bytes \<times> (string, unit) result \<times> bool
    \<Rightarrow> telemetry_event list" where
  "forwarded parse r = (case r of (m, payload, answer, ok) \<Rightarrow> case parse payload of Inl e \<Rightarrow> [] | Inr event \<Rightarrow> [event])"

definition dead_lettered :: "(bytes \<Rightarrow> (string, telemetry_event) result) \<Rightarrow> string
    \<Rightarrow> telemetry_msg \<times> bytes \<times> (string, unit) result \<times> bool \<Rightarrow> dlq_record list" where
  "dead_lettered parse topic r = (case r of (m, payload, answer, ok) \<Rightarrow>
     case parse payload of
       Inr event \<Rightarrow> []
     | Inl e \<Rightarrow> if is_ok answer
         then [\<lparr>dr_topic = topic, dr_key = tm_topic m, dr_payload = payload,
                dr_headers = [(''x-original-topic'', tm_topic m), (''x-original-partition'', show_int (tm_partition m)),
                  (''x-original-offset'', show_int (tm_offset m)), (''x-error-message'', e)]\<rparr>]
         else [])"

definition committed :: "telemetry_msg \<times> bytes \<times> (string, unit) result \<times> bool \<Rightarrow> (string \<times> int \<times> int) list" where
  "committed r = (case r of (m, payload, answer, ok) \<Rightarrow> if ok then [(tm_topic m, tm_partition m, tm_offset m)] else [])"

lemma consumer_run_effect:
  "consumer_run parse items s =
     s\<lparr>tc_channel := tc_channel s @ concat (map (forwarded parse) (consumer_reached parse items)),
       tc_dlq := tc_dlq s @ concat (map (dead_lettered parse (tc_dlq_topic s)) (consumer_reached parse items)),
       tc_commits := tc_commits s @ concat (map committed (consumer_reached parse items))\<rparr>"
proof (induction parse items s rule: consumer_run.induct)
  case (5 parse m channel_open dlq_answer commit_ok items s)
  show ?case
  proof (cases "unwrap_or [] (tm_payload m) = []")
    case True
    then show ?thesis using 5(1) by (simp add: Let_def)
  next
    case False
    then show ?thesis
      using 5(2,3)
      by (cases "parse (unwrap_or [] (tm_payload m))"; cases dlq_answer; cases commit_ok; cases channel_open)
        (simp_all add: Let_def forwarded_def dead_lettered_def committed_def send_poison_pill_def)
  qed
qed simp_all

text \<open>The consumer disposes of every message once: of the messages it reaches, those that parse are
  forwarded to the scanner and the others are dead-lettered byte for byte with their origin, each in
  the order of the stream; every one of them, and nothing else, is committed, where the broker accepts
  it; a message with no payload is neither forwarded nor committed, and an event that finds the channel
  closed stops the loop uncommitted.\<close>

lemma consumer_disposes_once:
  "consumer_run parse items s =
     s\<lparr>tc_channel := tc_channel s @ concat (map (forwarded parse) (consumer_reached parse items)),
       tc_dlq := tc_dlq s @ concat (map (dead_lettered parse (tc_dlq_topic s)) (consumer_reached parse items)),
       tc_commits := tc_commits s @ concat (map committed (consumer_reached parse items))\<rparr>"
  by (rule consumer_run_effect)

definition reload_run :: "((app_error, (string \<times> 'r) list) result \<times> (app_error, mitre_taxonomy) result option) list
    \<Rightarrow> 'r engine_registry \<times> engine_metrics \<Rightarrow> 'r engine_registry \<times> engine_metrics" where
  "reload_run attempts rm = fold (\<lambda>(c, t) rm. reload_rules c t rm) attempts rm"

text \<open>A reload never leaves the engine without rules: after any sequence of reloads the active registry
  has the rules of the last one that compiled, or those it started with, and the two counters have
  counted the reloads that compiled and those that failed.\<close>

lemma reload_keeps_last_good:
  "er_rule_sets (fst (reload_run attempts (registry, m))) =
     (case filter is_ok (map fst attempts) of [] \<Rightarrow> er_rule_sets registry | cs \<Rightarrow> unwrap_or [] (ok_opt (last cs))) \<and>
   em_rule_reloads_total (snd (reload_run attempts (registry, m))) =
     em_rule_reloads_total m + of_nat (length (filter is_ok (map fst attempts))) \<and>
   em_rule_reload_failures_total (snd (reload_run attempts (registry, m))) =
     em_rule_reload_failures_total m + of_nat (length (filter (Not \<circ> is_ok) (map fst attempts)))"
proof (induction attempts rule: rev_induct)
  case Nil
  then show ?case by (simp add: reload_run_def)
next
  case (snoc x attempts)
  obtain c t where x: "x = (c, t)" by fastforce
  obtain r m' where rm: "reload_run attempts (registry, m) = (r, m')" by fastforce
  have "reload_run (attempts @ [x]) (registry, m) = reload_rules c t (r, m')"
    using rm by (simp add: reload_run_def x)
  then show ?case
    using snoc rm by (cases c)
      (auto simp: x reload_rules_def registry_new_def inc_rule_reloads_def inc_rule_reload_failures_def Let_def split: list.splits)
qed

end
