(* ===== verification/RuleService.thy ===== *)
theory RuleService
  imports RuleEngine Runs
begin

text \<open>
  The rule engine as one process, \<open>rule-engine/src/main.rs\<close>: its start, with the order in which it can
  fail, its probes (\<open>health.rs\<close>), and the consumer, scanner, batcher and reload tasks running
  concurrently over the two bounded channels and the cancellation token until \<open>tokio::join!\<close> returns.

  The tasks' own operations are those of the theory \<open>RuleEngine\<close>; here they are the rules of the step
  relation \<open>engine_step\<close>, whose observations are what crosses each stage. A task that waits (for a
  message, for an item, for room in a channel) is one whose rule is not enabled. An operation between
  two waits is one step. The consumer that waits in \<open>send().await\<close> holds its message (\<open>es_sending\<close>) and does not see the
  cancellation; the scanner that waits there holds the alerts of its event (\<open>es_pending\<close>).
\<close>

section \<open>Start\<close>

datatype start_failure = StartApp app_error | StartIo string | StartPanic

text \<open>What the world answers while the engine starts: the environment, the rules' directory with the
  compiler, the taxonomy's file with its parser, the connection pool, the producers, whether
  \<open>mpsc::channel\<close> takes a capacity, the probe's socket, the consumer with its subscription, the clock and
  the table of alerts.\<close>

record ('k, 'r) start_world =
  sw_env :: "string \<Rightarrow> string option"
  sw_cpus :: nat
  sw_exists :: "string \<Rightarrow> bool"
  sw_read :: "string \<Rightarrow> (string, string) result"
  sw_parse_taxonomy :: "string \<Rightarrow> (string, (string \<times> mitre_technique) list) result"
  sw_yara :: "('k, 'r) yara_compiler"
  sw_listing :: "string \<Rightarrow> (string, (string, dir_entry) result list) result option"
  sw_pool :: "string \<Rightarrow> nat \<Rightarrow> (string, unit) result"
  sw_producer :: "(string \<times> string) list \<Rightarrow> (string, unit) result"
  sw_channel :: "nat \<Rightarrow> bool"
  sw_bind :: "string \<Rightarrow> (string, unit) result"
  sw_consumer :: "(string \<times> string) list \<Rightarrow> (string, unit) result"
  sw_subscribe :: "string list \<Rightarrow> (string, unit) result"
  sw_now :: instant
  sw_rows :: "new_alert_entity list"

definition create_pool :: "(string \<Rightarrow> nat \<Rightarrow> (string, unit) result) \<Rightarrow> string \<Rightarrow> nat \<Rightarrow> (app_error, unit) result" where
  "create_pool build database_url max_connections =
     map_err (\<lambda>e. DatabasePool (''Failed to build connection pool: '' @ e)) (build database_url max_connections)"

text \<open>How an \<open>AppError\<close> prints, \<open>error.rs\<close>.\<close>

fun app_error_str :: "app_error \<Rightarrow> string" where
  "app_error_str (RuleCompilation source_file line message) =
     ''rule compilation failed: '' @ source_file @ '':'' @ show_nat line @ '': '' @ message"
| "app_error_str (ScanFailure event_id message) = ''scan failed for event '' @ event_id @ '': '' @ message"
| "app_error_str (MitreTaxonomyLoad e) = ''MITRE taxonomy load failed: '' @ e"
| "app_error_str (EventDeserialization e) = ''event deserialization failed: '' @ e"
| "app_error_str (DatabasePool e) = ''database pool error: '' @ e"
| "app_error_str (DatabaseQuery e) = ''database query error: '' @ e"
| "app_error_str (KafkaProduce e) = ''kafka produce error: '' @ e"
| "app_error_str (KafkaConsume e) = ''kafka consume error: '' @ e"
| "app_error_str (Config e) = ''configuration error: '' @ e"
| "app_error_str (Serialization e) = ''serialization error: '' @ e"
| "app_error_str (Io e) = ''io error: '' @ e"

definition dlq_producer_new :: "((string \<times> string) list \<Rightarrow> (string, unit) result) \<Rightarrow> string \<Rightarrow> string
    \<Rightarrow> (app_error, string) result" where
  "dlq_producer_new create brokers topic =
     (case create [(''bootstrap.servers'', brokers), (''message.timeout.ms'', ''5000''),
        (''queue.buffering.max.messages'', ''50000'')] of
        Inl e \<Rightarrow> Err (KafkaProduce (''Failed to create DLQ producer: '' @ e))
      | Inr _ \<Rightarrow> Ok topic)"

definition alert_producer_new :: "((string \<times> string) list \<Rightarrow> (string, unit) result) \<Rightarrow> string \<Rightarrow> string
    \<Rightarrow> (app_error, string) result" where
  "alert_producer_new create brokers topic =
     (case create [(''bootstrap.servers'', brokers), (''message.timeout.ms'', ''5000''),
        (''queue.buffering.max.messages'', ''100000''), (''compression.type'', ''lz4''), (''linger.ms'', ''5''),
        (''batch.num.messages'', ''10000''), (''acks'', ''1'')] of
        Inl e \<Rightarrow> Err (KafkaProduce (''Failed to create alerts producer: '' @ e))
      | Inr _ \<Rightarrow> Ok topic)"

definition telemetry_consumer_new :: "((string \<times> string) list \<Rightarrow> (string, unit) result)
    \<Rightarrow> (string list \<Rightarrow> (string, unit) result) \<Rightarrow> string \<Rightarrow> string \<Rightarrow> string list \<Rightarrow> string
    \<Rightarrow> (app_error, telemetry_consumer) result" where
  "telemetry_consumer_new create subscribe brokers group_id topics dlq_topic =
     (case create [(''bootstrap.servers'', brokers), (''group.id'', group_id),
        (''partition.assignment.strategy'', ''cooperative-sticky''), (''auto.offset.reset'', ''earliest''),
        (''enable.auto.commit'', ''false''), (''enable.auto.offset.store'', ''false''), (''fetch.min.bytes'', ''1''),
        (''fetch.wait.max.ms'', ''100''), (''session.timeout.ms'', ''45000''), (''max.poll.interval.ms'', ''300000'')] of
        Inl e \<Rightarrow> Err (KafkaConsume (''Failed to create Kafka consumer: '' @ e))
      | Inr _ \<Rightarrow>
          (case subscribe topics of
             Inl e \<Rightarrow> Err (KafkaConsume (''Failed to subscribe to topics: '' @ e))
           | Inr _ \<Rightarrow> Ok \<lparr>tc_dlq_topic = dlq_topic, tc_channel = [], tc_dlq = [], tc_commits = []\<rparr>))"

text \<open>The process. The content of the channel of events is \<open>tc_channel\<close> of the consumer, which fills it,
  that of the channel of alerts is \<open>sn_sent\<close> of the scanner. A task of the scanner's and the batcher's
  kind goes from its loop to having left it, and then drops its end of the channel. The counters are
  shared; each is written by one task, whose record holds it.\<close>

datatype scanner_pc = ScanWaiting | ScanDraining | ScanStopped | ScanEnded

datatype batcher_pc = BatchOn | BatchStopped | BatchEnded

record ('r, 'c) engine_service =
  es_cancelled :: bool
  es_registry :: "'r engine_registry"
  es_reload_metrics :: engine_metrics
  es_consumer :: telemetry_consumer
  es_consumer_on :: bool
  es_sending :: "telemetry_msg option"  \<comment> \<open>received, its event waiting in \<open>send\<close> for room\<close>
  es_scanner :: "'c scanner_state"
  es_scan_pc :: scanner_pc
  es_pending :: "alert list"  \<comment> \<open>of the event at hand, not yet checked\<close>
  es_batcher :: "alert_sink_state batcher"
  es_batch_pc :: batcher_pc

text \<open>What reading the taxonomy gives, where its file exists.\<close>

definition taxonomy_file :: "('k, 'r) start_world \<Rightarrow> string \<Rightarrow> (app_error, mitre_taxonomy) result option" where
  "taxonomy_file w path =
     (if sw_exists w path then Some (load_from_file (sw_parse_taxonomy w) path (sw_read w path)) else None)"

definition bind_health :: "('k, 'r) start_world \<Rightarrow> rule_engine_config \<Rightarrow> (start_failure, unit) result" where
  "bind_health w config = map_err StartIo (sw_bind w (''0.0.0.0:'' @ show_nat (rc_health_port config)))"

definition start_consumer :: "('k, 'r) start_world \<Rightarrow> rule_engine_config \<Rightarrow> string \<Rightarrow> (start_failure, telemetry_consumer) result" where
  "start_consumer w config dlq_topic =
     map_err StartApp (telemetry_consumer_new (sw_consumer w) (sw_subscribe w) (rc_kafka_brokers config)
       (rc_kafka_group_id config) (rc_kafka_topics config) dlq_topic)"

text \<open>The start, in the order of \<open>main\<close>; windows are nanoseconds.\<close>

definition engine_start :: "('k, 'r) start_world \<Rightarrow> 'c lru_ops
    \<Rightarrow> (start_failure, rule_engine_config \<times> ('r, 'c) engine_service) result" where
  "engine_start w ops =
     result_bind (map_err StartApp (from_env (sw_env w) (sw_cpus w))) (\<lambda>config.
     result_bind (map_err StartApp (initial_registry
       (compile_all (sw_yara w) (rc_rules_directory config) (sw_listing w (rc_rules_directory config)))
       (taxonomy_file w (rc_mitre_taxonomy_path config)))) (\<lambda>registry.
     result_bind (map_err StartApp (dedup_new ops (rc_dedup_capacity config)
       (rc_dedup_suppression_window_secs config * 10 ^ 9))) (\<lambda>dedup.
     result_bind (map_err (\<lambda>e. StartApp (DatabasePool (''Failed to build connection pool: '' @ app_error_str e)))
       (create_pool (sw_pool w) (rc_database_url config) (rc_db_pool_max_size config))) (\<lambda>_.
     result_bind (map_err StartApp (dlq_producer_new (sw_producer w) (rc_kafka_brokers config) (rc_dlq_topic config))) (\<lambda>dlq_topic.
     result_bind (map_err StartApp (alert_producer_new (sw_producer w) (rc_kafka_brokers config) (rc_alerts_topic config))) (\<lambda>alerts_topic.
     if \<not> sw_channel w (rc_channel_capacity config) then Err StartPanic
     else
     result_bind (bind_health w config) (\<lambda>_.
     result_bind (start_consumer w config dlq_topic) (\<lambda>consumer.
     Ok (config,
       \<lparr>es_cancelled = False, es_registry = registry, es_reload_metrics = engine_metrics_new, es_consumer = consumer,
         es_consumer_on = True, es_sending = None, es_scanner = scanner_start dedup, es_scan_pc = ScanWaiting, es_pending = [],
         es_batcher = batcher_start (sw_now w) engine_metrics_new
           \<lparr>as_topic = alerts_topic, as_published = [], as_alerts = sw_rows w\<rparr>,
         es_batch_pc = BatchOn\<rparr>)))))))))"

section \<open>Probes\<close>

text \<open>The routes of the probe's server, all of them \<open>GET\<close>; \<open>pool\<close> is what acquiring a connection gives.
  The counters are those of the task that writes each.\<close>

definition service_metrics :: "('r, 'c) engine_service \<Rightarrow> engine_metrics" where
  "service_metrics e = (sn_metrics (es_scanner e))
     \<lparr>em_alerts_persisted := em_alerts_persisted (bt_metrics (es_batcher e)),
      em_rule_reloads_total := em_rule_reloads_total (es_reload_metrics e),
      em_rule_reload_failures_total := em_rule_reload_failures_total (es_reload_metrics e)\<rparr>"

definition health_router :: "(string, unit) result \<Rightarrow> ('r, 'c) engine_service \<Rightarrow> string \<Rightarrow> nat \<times> string" where
  "health_router pool e path =
     (if path = ''/health/live'' \<or> path = ''/healthz'' then (200, ''OK'')
      else if path = ''/health/ready'' \<or> path = ''/readyz'' then readiness_handler pool
      else if path = ''/metrics'' then (200, engine_prometheus (service_metrics e))
      else (404, []))"

section \<open>The tasks together\<close>

text \<open>What crosses a stage: an event put into its channel, taken from it with the alerts it gives, or
  dropped with it; an alert checked by the deduplicator, with the clock and the answer; an alert dropped
  because its channel is closed or closes; a batch handed to the sink and whether it was taken.\<close>

datatype engine_obs =
    ObsForwarded telemetry_event
  | ObsTaken telemetry_event "alert list"
  | ObsEventLost telemetry_event
  | ObsChecked instant alert bool
  | ObsAlertLost alert
  | ObsBatch "alert list" bool

record ('r, 'c) engine_params =
  ep_parse :: "bytes \<Rightarrow> (string, telemetry_event) result"
  ep_hash :: "uuid \<Rightarrow> u64"
  ep_ops :: "'c lru_ops"
  ep_scan :: "'r \<Rightarrow> bytes \<Rightarrow> (string, matched_rule list) result"
  ep_to_vec :: "json \<Rightarrow> bytes option"
  ep_capacity :: nat
  ep_max_size :: nat
  ep_interval :: nat

text \<open>A message that parses: its event goes to the scanner.\<close>

definition carries_event :: "('r, 'c) engine_params \<Rightarrow> telemetry_msg \<Rightarrow> bool" where
  "carries_event p m \<longleftrightarrow> unwrap_or [] (tm_payload m) \<noteq> [] \<and> is_ok (ep_parse p (unwrap_or [] (tm_payload m)))"

text \<open>One message, with the broker's answers; an event that finds the channel closed ends the task.\<close>

definition consume :: "('r, 'c) engine_params \<Rightarrow> telemetry_msg \<Rightarrow> (string, unit) result \<Rightarrow> bool
    \<Rightarrow> ('r, 'c) engine_service \<Rightarrow> engine_obs list \<times> ('r, 'c) engine_service" where
  "consume p m answer commit_ok e =
     (let channel_open = (es_scan_pc e \<noteq> ScanEnded);
          item = ConsumerMessage m channel_open answer commit_ok;
          payload = unwrap_or [] (tm_payload m)
      in (map ObsForwarded (concat (map (forwarded (ep_parse p)) (consumer_reached (ep_parse p) [item]))),
          e\<lparr>es_consumer := consumer_run (ep_parse p) [item] (es_consumer e),
            es_consumer_on := (payload = [] \<or> \<not> is_ok (ep_parse p payload) \<or> channel_open)\<rparr>))"

text \<open>The scanner takes an event: \<open>inc_scanned\<close> and \<open>evaluate\<close> under the current registry. A failed
  evaluation gives no alert.\<close>

definition scan_take :: "('r, 'c) engine_params \<Rightarrow> (nat \<Rightarrow> uuid \<times> timestamp) \<Rightarrow> telemetry_event \<Rightarrow> telemetry_event list
    \<Rightarrow> ('r, 'c) engine_service \<Rightarrow> engine_obs list \<times> ('r, 'c) engine_service" where
  "scan_take p fresh event rest e =
     (let alerts = (case evaluate (ep_scan p) (ep_to_vec p) fresh (es_registry e) event of Inl _ \<Rightarrow> [] | Inr as \<Rightarrow> as)
      in ([ObsTaken event alerts],
          e\<lparr>es_consumer := (es_consumer e)\<lparr>tc_channel := rest\<rparr>, es_pending := alerts,
            es_scanner := (es_scanner e)\<lparr>sn_metrics := inc_scanned (sn_metrics (es_scanner e))\<rparr>\<rparr>))"

text \<open>It puts the next alert of the event through the deduplicator and into the channel.\<close>

definition alert_passes :: "('r, 'c) engine_params \<Rightarrow> instant \<Rightarrow> alert \<Rightarrow> ('r, 'c) engine_service \<Rightarrow> bool" where
  "alert_passes p now a e = fst (check_and_record (ep_hash p) (ep_ops p) now (signature_of a) (sn_dedup (es_scanner e)))"

definition scan_alert :: "('r, 'c) engine_params \<Rightarrow> instant \<Rightarrow> alert \<Rightarrow> alert list
    \<Rightarrow> ('r, 'c) engine_service \<Rightarrow> engine_obs list \<times> ('r, 'c) engine_service" where
  "scan_alert p now a rest e =
     (let channel_open = (es_batch_pc e \<noteq> BatchEnded); pass = alert_passes p now a e
      in (ObsChecked now a pass # (if pass \<and> \<not> channel_open then [ObsAlertLost a] else []),
          e\<lparr>es_pending := rest, es_scanner := handle_alert (ep_hash p) (ep_ops p) channel_open now a (es_scanner e)\<rparr>))"

text \<open>The batcher wakes up; \<open>queue\<close> is what remains in the channel of alerts.\<close>

definition batch_wake :: "('r, 'c) engine_params \<Rightarrow> sink_env batch_item \<Rightarrow> alert list
    \<Rightarrow> ('r, 'c) engine_service \<Rightarrow> engine_obs list \<times> ('r, 'c) engine_service" where
  "batch_wake p item queue e =
     (case batcher_run send_batch (ep_max_size p) (ep_interval p) [item] (es_batcher e) of
        (bs, b1) \<Rightarrow> (map (\<lambda>(b, taken). ObsBatch b taken) bs,
           e\<lparr>es_batcher := b1, es_scanner := (es_scanner e)\<lparr>sn_sent := queue\<rparr>\<rparr>))"

definition hang_up :: "(app_error, (string \<times> 'r) list) result \<Rightarrow> (app_error, mitre_taxonomy) result option
    \<Rightarrow> ('r, 'c) engine_service \<Rightarrow> ('r, 'c) engine_service" where
  "hang_up compiled taxonomy e =
     (case reload_rules compiled taxonomy (es_registry e, es_reload_metrics e) of
        (r, m) \<Rightarrow> e\<lparr>es_registry := r, es_reload_metrics := m\<rparr>)"

text \<open>Room to send: a channel that is not full, or a closed one, where sending fails at once.\<close>

definition event_room :: "('r, 'c) engine_params \<Rightarrow> ('r, 'c) engine_service \<Rightarrow> bool" where
  "event_room p e \<longleftrightarrow> es_scan_pc e = ScanEnded \<or> length (tc_channel (es_consumer e)) < ep_capacity p"

definition alert_room :: "('r, 'c) engine_params \<Rightarrow> ('r, 'c) engine_service \<Rightarrow> bool" where
  "alert_room p e \<longleftrightarrow> es_batch_pc e = BatchEnded \<or> length (sn_sent (es_scanner e)) < ep_capacity p"

text \<open>The steps. The consumer looks at the cancellation only between two messages: while its event waits for room in the channel
  (\<open>es_sending\<close>) it neither stops nor ends. \<open>main\<close> keeps its own sender of alerts until it returns, so that the batcher's branch
  for a closed channel is never taken; the consumer holds the only sender of events.\<close>

inductive engine_step :: "('r, 'c) engine_params \<Rightarrow> ('r, 'c) engine_service \<Rightarrow> engine_obs list \<Rightarrow> ('r, 'c) engine_service \<Rightarrow> bool"
  for p where
  es_signal: "engine_step p e [] (e\<lparr>es_cancelled := True\<rparr>)"
| es_hang_up: "engine_step p e [] (hang_up compiled taxonomy e)"
| es_receive: "es_consumer_on e \<Longrightarrow> es_sending e = None \<Longrightarrow> carries_event p m \<Longrightarrow> engine_step p e [] (e\<lparr>es_sending := Some m\<rparr>)"
| es_send: "es_consumer_on e \<Longrightarrow> es_sending e = Some m \<Longrightarrow> event_room p e \<Longrightarrow>
    consume p m answer commit_ok e = (obs, e') \<Longrightarrow> engine_step p e obs (e'\<lparr>es_sending := None\<rparr>)"
| es_consume: "es_consumer_on e \<Longrightarrow> es_sending e = None \<Longrightarrow> \<not> carries_event p m \<Longrightarrow>
    consume p m answer commit_ok e = (obs, e') \<Longrightarrow> engine_step p e obs e'"
| es_consumer_stop: "es_consumer_on e \<Longrightarrow> es_sending e = None \<Longrightarrow> es_cancelled e \<Longrightarrow>
    engine_step p e [] (e\<lparr>es_consumer_on := False\<rparr>)"
| es_consumer_end: "es_consumer_on e \<Longrightarrow> es_sending e = None \<Longrightarrow> engine_step p e [] (e\<lparr>es_consumer_on := False\<rparr>)"
| es_scan_take: "es_scan_pc e \<in> {ScanWaiting, ScanDraining} \<Longrightarrow> es_pending e = [] \<Longrightarrow>
    tc_channel (es_consumer e) = event # rest \<Longrightarrow> scan_take p fresh event rest e = (obs, e') \<Longrightarrow> engine_step p e obs e'"
| es_scan_alert: "es_pending e = a # rest \<Longrightarrow> alert_passes p now a e \<longrightarrow> alert_room p e \<Longrightarrow>
    scan_alert p now a rest e = (obs, e') \<Longrightarrow> engine_step p e obs e'"
| es_scan_shutdown: "es_scan_pc e = ScanWaiting \<Longrightarrow> es_pending e = [] \<Longrightarrow> es_cancelled e \<Longrightarrow>
    engine_step p e [] (e\<lparr>es_scan_pc := ScanDraining\<rparr>)"
| es_scan_drained: "es_scan_pc e = ScanDraining \<Longrightarrow> es_pending e = [] \<Longrightarrow> tc_channel (es_consumer e) = [] \<Longrightarrow>
    engine_step p e [] (e\<lparr>es_scan_pc := ScanStopped\<rparr>)"
| es_scan_closed: "es_scan_pc e = ScanWaiting \<Longrightarrow> es_pending e = [] \<Longrightarrow> tc_channel (es_consumer e) = [] \<Longrightarrow>
    \<not> es_consumer_on e \<Longrightarrow> engine_step p e [] (e\<lparr>es_scan_pc := ScanStopped\<rparr>)"
| es_scan_end: "es_scan_pc e = ScanStopped \<Longrightarrow>
    engine_step p e (map ObsEventLost (tc_channel (es_consumer e)))
      (e\<lparr>es_scan_pc := ScanEnded, es_consumer := (es_consumer e)\<lparr>tc_channel := []\<rparr>\<rparr>)"
| es_batch_alert: "es_batch_pc e = BatchOn \<Longrightarrow> sn_sent (es_scanner e) = a # rest \<Longrightarrow>
    batch_wake p (BatchAlert a now later env) rest e = (obs, e') \<Longrightarrow> engine_step p e obs e'"
| es_batch_sleep: "es_batch_pc e = BatchOn \<Longrightarrow>
    batch_wake p (BatchSleep now later env) (sn_sent (es_scanner e)) e = (obs, e') \<Longrightarrow> engine_step p e obs e'"
| es_batch_shutdown: "es_batch_pc e = BatchOn \<Longrightarrow> es_cancelled e \<Longrightarrow>
    batch_wake p (BatchShutdown (sn_sent (es_scanner e)) env) [] e = (obs, e') \<Longrightarrow>
    engine_step p e obs (e'\<lparr>es_batch_pc := BatchStopped\<rparr>)"
| es_batch_end: "es_batch_pc e = BatchStopped \<Longrightarrow>
    engine_step p e (map ObsAlertLost (sn_sent (es_scanner e)))
      (e\<lparr>es_batch_pc := BatchEnded, es_scanner := (es_scanner e)\<lparr>sn_sent := []\<rparr>\<rparr>)"

definition joined :: "('r, 'c) engine_service \<Rightarrow> bool" where
  "joined e \<longleftrightarrow> \<not> es_consumer_on e \<and> es_scan_pc e = ScanEnded \<and> es_batch_pc e = BatchEnded"

section \<open>What a run shows\<close>

fun obs_forwarded :: "engine_obs \<Rightarrow> telemetry_event list" where
  "obs_forwarded (ObsForwarded ev) = [ev]"
| "obs_forwarded _ = []"

fun obs_scanned :: "engine_obs \<Rightarrow> telemetry_event list" where
  "obs_scanned (ObsTaken ev as) = [ev]"
| "obs_scanned _ = []"

fun obs_event_lost :: "engine_obs \<Rightarrow> telemetry_event list" where
  "obs_event_lost (ObsEventLost ev) = [ev]"
| "obs_event_lost _ = []"

definition obs_event_left :: "engine_obs \<Rightarrow> telemetry_event list" where
  "obs_event_left ob = obs_scanned ob @ obs_event_lost ob"

fun obs_raised :: "engine_obs \<Rightarrow> alert list" where
  "obs_raised (ObsTaken ev as) = as"
| "obs_raised _ = []"

fun obs_checked :: "engine_obs \<Rightarrow> (instant \<times> alert \<times> bool) list" where
  "obs_checked (ObsChecked t a pass) = [(t, a, pass)]"
| "obs_checked _ = []"

definition obs_checked_alert :: "engine_obs \<Rightarrow> alert list" where
  "obs_checked_alert ob = map (\<lambda>(t, a, pass). a) (obs_checked ob)"

definition obs_passed :: "engine_obs \<Rightarrow> alert list" where
  "obs_passed ob = concat (map (\<lambda>(t, a, pass). if pass then [a] else []) (obs_checked ob))"

fun obs_batch :: "engine_obs \<Rightarrow> (alert list \<times> bool) list" where
  "obs_batch (ObsBatch b taken) = [(b, taken)]"
| "obs_batch _ = []"

fun obs_alert_lost :: "engine_obs \<Rightarrow> alert list" where
  "obs_alert_lost (ObsAlertLost a) = [a]"
| "obs_alert_lost _ = []"

definition obs_alert_left :: "engine_obs \<Rightarrow> alert list" where
  "obs_alert_left ob = concat (map fst (obs_batch ob)) @ obs_alert_lost ob"

lemmas obs_defs = obs_event_left_def obs_checked_alert_def obs_passed_def obs_alert_left_def

section \<open>Invariant\<close>

definition engine_inv :: "('r, 'c) engine_params \<Rightarrow> ('r, 'c) engine_service \<Rightarrow> bool" where
  "engine_inv p e \<longleftrightarrow>
     length (tc_channel (es_consumer e)) \<le> ep_capacity p \<and> length (sn_sent (es_scanner e)) \<le> ep_capacity p \<and>
     (es_batch_pc e \<noteq> BatchOn \<longrightarrow> bt_buffer (es_batcher e) = [] \<and> es_cancelled e) \<and>
     (es_batch_pc e = BatchEnded \<longrightarrow> sn_sent (es_scanner e) = []) \<and>
     (es_scan_pc e = ScanEnded \<longrightarrow> tc_channel (es_consumer e) = []) \<and>
     (es_scan_pc e \<in> {ScanStopped, ScanEnded} \<longrightarrow> es_pending e = []) \<and>
     (es_scan_pc e \<noteq> ScanWaiting \<longrightarrow> es_cancelled e \<or> \<not> es_consumer_on e \<and> tc_channel (es_consumer e) = []) \<and>
     length (bt_buffer (es_batcher e)) < max 1 (ep_max_size p)"

lemma batch_wake_effect:
  assumes "batch_wake p item queue e = (obs, e')"
  shows "shown obs_alert_left obs @ bt_buffer (es_batcher e') = bt_buffer (es_batcher e) @ batch_received [item]"
    "shown obs_forwarded obs = []" "shown obs_event_left obs = []" "shown obs_raised obs = []" "shown obs_checked obs = []"
    "shown obs_alert_lost obs = []" "shown obs_event_lost obs = []"
    "stored_ids (bt_sink (es_batcher e')) = stored_ids (bt_sink (es_batcher e)) \<union> al_alert_id ` set (accepted (shown obs_batch obs))"
    "length (bt_buffer (es_batcher e)) < max 1 (ep_max_size p) \<Longrightarrow> length (bt_buffer (es_batcher e')) < max 1 (ep_max_size p)"
proof -
  obtain bs b1 where r: "batcher_run send_batch (ep_max_size p) (ep_interval p) [item] (es_batcher e) = (bs, b1)" by fastforce
  have o: "obs = map (\<lambda>(b, taken). ObsBatch b taken) bs"
    and e': "e' = e\<lparr>es_batcher := b1, es_scanner := (es_scanner e)\<lparr>sn_sent := queue\<rparr>\<rparr>"
    using assms by (simp_all add: batch_wake_def r)
  note sh = o shown_map
  show "shown obs_alert_left obs @ bt_buffer (es_batcher e') = bt_buffer (es_batcher e) @ batch_received [item]"
    using batcher_run_conserves [of send_batch "ep_max_size p" "ep_interval p" "[item]" "es_batcher e"]
    by (simp add: r sh e' obs_alert_left_def case_prod_unfold)
  show "length (bt_buffer (es_batcher e)) < max 1 (ep_max_size p) \<Longrightarrow> length (bt_buffer (es_batcher e')) < max 1 (ep_max_size p)"
    using batcher_run_bound [of "es_batcher e" "ep_max_size p" send_batch "ep_interval p" "[item]"] by (simp add: r e')
  show "stored_ids (bt_sink (es_batcher e')) = stored_ids (bt_sink (es_batcher e)) \<union> al_alert_id ` set (accepted (shown obs_batch obs))"
    using dual.batcher_run_stored [of "ep_max_size p" "ep_interval p" "[item]" "es_batcher e"]
    by (simp add: r sh e' case_prod_unfold)
qed (use assms in \<open>auto simp: batch_wake_def shown_map obs_defs case_prod_unfold\<close>)

lemma consume_effect:
  assumes "consume p m answer commit_ok e = (obs, e')"
  shows "tc_channel (es_consumer e') = tc_channel (es_consumer e) @ shown obs_forwarded obs"
    "shown obs_event_left obs = []" "shown obs_raised obs = []" "shown obs_checked obs = []"
    "shown obs_alert_left obs = []" "shown obs_alert_lost obs = []" "shown obs_event_lost obs = []" "shown obs_batch obs = []"
    "length (shown obs_forwarded obs) \<le> (if es_scan_pc e \<noteq> ScanEnded \<and> carries_event p m then 1 else 0)"
proof -
  let ?item = "ConsumerMessage m (es_scan_pc e \<noteq> ScanEnded) answer commit_ok"
  have o: "obs = map ObsForwarded (concat (map (forwarded (ep_parse p)) (consumer_reached (ep_parse p) [?item])))"
    and c: "es_consumer e' = consumer_run (ep_parse p) [?item] (es_consumer e)"
    using assms by (auto simp: consume_def Let_def simp del: consumer_run.simps consumer_reached.simps)
  show "tc_channel (es_consumer e') = tc_channel (es_consumer e) @ shown obs_forwarded obs"
    unfolding c consumer_run_effect by (simp add: o shown_map del: consumer_run.simps consumer_reached.simps)
  show "length (shown obs_forwarded obs) \<le> (if es_scan_pc e \<noteq> ScanEnded \<and> carries_event p m then 1 else 0)"
    by (auto simp: o shown_map forwarded_def carries_event_def Let_def split: sum.splits)
qed (use assms in \<open>auto simp: consume_def Let_def shown_map obs_defs\<close>)

lemma scan_alert_effect:
  assumes "scan_alert p now a rest e = (obs, e')"
  shows "shown obs_checked obs = [(now, a, alert_passes p now a e)]" "shown obs_forwarded obs = []" "shown obs_event_left obs = []"
    "shown obs_raised obs = []" "shown obs_event_lost obs = []" "shown obs_batch obs = []"
    "shown obs_alert_left obs = shown obs_alert_lost obs"
    "shown obs_alert_lost obs = (if alert_passes p now a e \<and> es_batch_pc e = BatchEnded then [a] else [])"
    "sn_sent (es_scanner e') = sn_sent (es_scanner e) @ (if alert_passes p now a e \<and> es_batch_pc e \<noteq> BatchEnded then [a] else [])"
    "check_and_record (ep_hash p) (ep_ops p) now (signature_of a) (sn_dedup (es_scanner e)) =
       (alert_passes p now a e, sn_dedup (es_scanner e'))"
  using assms
  by (auto simp: scan_alert_def Let_def obs_defs alert_passes_def handle_alert_def split: prod.splits)

lemma scan_take_effect:
  assumes "scan_take p fresh event rest e = (obs, e')"
  shows "shown obs_forwarded obs = []" "shown obs_event_left obs = [event]" "shown obs_raised obs = es_pending e'"
    "shown obs_checked obs = []" "shown obs_alert_left obs = []" "shown obs_alert_lost obs = []" "shown obs_event_lost obs = []"
    "shown obs_batch obs = []" "sn_sent (es_scanner e') = sn_sent (es_scanner e)"
    "sn_dedup (es_scanner e') = sn_dedup (es_scanner e)" "tc_channel (es_consumer e') = rest"
    "es_pending e' = (case evaluate (ep_scan p) (ep_to_vec p) fresh (es_registry e) event of Inl _ \<Rightarrow> [] | Inr as \<Rightarrow> as)"
  using assms by (auto simp: scan_take_def Let_def obs_defs)

text \<open>What each operation leaves as it is.\<close>

lemma consume_same:
  "consume p m answer commit_ok e = (obs, e') \<Longrightarrow> es_cancelled e' = es_cancelled e \<and> es_registry e' = es_registry e \<and>
     es_scanner e' = es_scanner e \<and> es_scan_pc e' = es_scan_pc e \<and> es_pending e' = es_pending e \<and>
     es_batcher e' = es_batcher e \<and> es_batch_pc e' = es_batch_pc e \<and> es_sending e' = es_sending e"
  by (auto simp: consume_def Let_def)

lemma scan_take_same:
  "scan_take p fresh event rest e = (obs, e') \<Longrightarrow> es_cancelled e' = es_cancelled e \<and> es_registry e' = es_registry e \<and>
     es_consumer_on e' = es_consumer_on e \<and> es_scan_pc e' = es_scan_pc e \<and> es_batcher e' = es_batcher e \<and> es_batch_pc e' = es_batch_pc e \<and>
     es_sending e' = es_sending e"
  by (auto simp: scan_take_def Let_def)

lemma scan_alert_same:
  "scan_alert p now a rest e = (obs, e') \<Longrightarrow> es_cancelled e' = es_cancelled e \<and> es_registry e' = es_registry e \<and>
     es_consumer e' = es_consumer e \<and> es_consumer_on e' = es_consumer_on e \<and> es_scan_pc e' = es_scan_pc e \<and>
     es_pending e' = rest \<and> es_batcher e' = es_batcher e \<and> es_batch_pc e' = es_batch_pc e \<and> es_sending e' = es_sending e"
  by (auto simp: scan_alert_def Let_def)

lemma batch_wake_same:
  "batch_wake p item queue e = (obs, e') \<Longrightarrow> es_cancelled e' = es_cancelled e \<and> es_registry e' = es_registry e \<and>
     es_consumer e' = es_consumer e \<and> es_consumer_on e' = es_consumer_on e \<and> es_scan_pc e' = es_scan_pc e \<and>
     es_pending e' = es_pending e \<and> es_batch_pc e' = es_batch_pc e \<and> es_scanner e' = (es_scanner e)\<lparr>sn_sent := queue\<rparr> \<and>
     es_sending e' = es_sending e"
  by (auto simp: batch_wake_def split: prod.splits)

lemma hang_up_same:
  "es_cancelled (hang_up c t e) = es_cancelled e" "es_consumer (hang_up c t e) = es_consumer e"
  "es_consumer_on (hang_up c t e) = es_consumer_on e" "es_scanner (hang_up c t e) = es_scanner e"
  "es_scan_pc (hang_up c t e) = es_scan_pc e" "es_pending (hang_up c t e) = es_pending e"
  "es_batcher (hang_up c t e) = es_batcher e" "es_batch_pc (hang_up c t e) = es_batch_pc e"
  "es_sending (hang_up c t e) = es_sending e"
  by (simp_all add: hang_up_def split: prod.split)

lemmas step_same = consume_same scan_take_same scan_alert_same batch_wake_same

lemma batch_shutdown_empties:
  "batch_wake p (BatchShutdown pending env) queue e = (obs, e') \<Longrightarrow> bt_buffer (es_batcher e') = []"
  by (auto simp: batch_wake_def Let_def split: prod.splits if_splits dest!: flush_batch_shape)

lemma engine_step_inv:
  assumes "engine_inv p e" "engine_step p e obs e'"
  shows "engine_inv p e'"
  using assms(2)
proof cases
  case (es_hang_up compiled taxonomy)
  then show ?thesis using assms(1) by (simp add: engine_inv_def hang_up_same)
next
  case (es_send m answer commit_ok e1)
  note c = consume_same [OF es_send(5)] consume_effect(1,9) [OF es_send(5)]
  have "length (tc_channel (es_consumer e1)) \<le> ep_capacity p"
    using c es_send(4) assms(1) by (auto simp: engine_inv_def event_room_def split: if_splits)
  moreover have "es_scan_pc e = ScanEnded \<longrightarrow> tc_channel (es_consumer e1) = []"
    using c assms(1) by (auto simp: engine_inv_def)
  ultimately show ?thesis using c assms(1) es_send(1,2) by (auto simp: engine_inv_def)
next
  case (es_consume m answer commit_ok)
  then show ?thesis
    using assms(1) consume_same [OF es_consume(4)] consume_effect(1,9) [OF es_consume(4)] by (auto simp: engine_inv_def)
next
  case (es_scan_take event rest fresh)
  then show ?thesis using assms(1) scan_take_same [OF es_scan_take(4)] scan_take_effect [OF es_scan_take(4)]
    by (auto simp: engine_inv_def)
next
  case (es_scan_alert a rest now)
  then show ?thesis using assms(1) scan_alert_same [OF es_scan_alert(3)] scan_alert_effect [OF es_scan_alert(3)]
    by (auto simp: engine_inv_def alert_room_def)
next
  case (es_batch_alert a rest now later env)
  then show ?thesis using assms(1) batch_wake_same [OF es_batch_alert(3)] batch_wake_effect(9) [OF es_batch_alert(3)]
    by (auto simp: engine_inv_def)
next
  case (es_batch_sleep now later env)
  then show ?thesis using assms(1) batch_wake_same [OF es_batch_sleep(2)] batch_wake_effect(9) [OF es_batch_sleep(2)]
    by (auto simp: engine_inv_def)
next
  case (es_batch_shutdown env e1)
  then show ?thesis using assms(1) batch_wake_same [OF es_batch_shutdown(4)] batch_shutdown_empties [OF es_batch_shutdown(4)]
    by (auto simp: engine_inv_def)
qed (use assms(1) in \<open>auto simp: engine_inv_def\<close>)

interpretation engine: step_invariant "engine_step p" "engine_inv p" for p
  by unfold_locales (rule engine_step_inv)

section \<open>Conservation at each stage\<close>

lemma shown_passed: "shown obs_passed tr = concat (map (\<lambda>(t, a, pass). if pass then [a] else []) (shown obs_checked tr))"
  by (induction tr) (simp_all add: obs_passed_def)

lemma shown_checked_alert: "shown obs_checked_alert tr = map (\<lambda>(t, a, pass). a) (shown obs_checked tr)"
  by (induction tr) (simp_all add: obs_checked_alert_def)

lemmas shown_derived = shown_passed shown_checked_alert shown_map

text \<open>The channel of events: what the consumer forwards is scanned or dropped with the channel.\<close>

interpretation events: conserving "engine_step p" "engine_inv p" obs_forwarded obs_event_left "\<lambda>e. tc_channel (es_consumer e)" for p
proof
  fix e obs e' assume "engine_step p e obs e'"
  then show "tc_channel (es_consumer e) @ shown obs_forwarded obs = shown obs_event_left obs @ tc_channel (es_consumer e')"
    by cases (auto simp: hang_up_same shown_derived obs_event_left_def step_same consume_effect scan_take_effect
        scan_alert_effect batch_wake_effect)
qed

text \<open>The alerts of the event at hand: what evaluation raises is checked.\<close>

interpretation raised: conserving "engine_step p" "engine_inv p" obs_raised obs_checked_alert es_pending for p
proof
  fix e obs e' assume "engine_step p e obs e'"
  then show "es_pending e @ shown obs_raised obs = shown obs_checked_alert obs @ es_pending e'"
    by cases (auto simp: hang_up_same shown_derived obs_defs step_same consume_effect scan_take_effect
        scan_alert_effect batch_wake_effect)
qed

text \<open>The channel of alerts and the batcher: what passes the deduplicator is handed to the sink or dropped.\<close>

interpretation alerts: conserving "engine_step p" "engine_inv p" obs_passed obs_alert_left
  "\<lambda>e. bt_buffer (es_batcher e) @ sn_sent (es_scanner e)" for p
proof
  fix e obs e' assume inv: "engine_inv p e" and step: "engine_step p e obs e'"
  show "(bt_buffer (es_batcher e) @ sn_sent (es_scanner e)) @ shown obs_passed obs =
      shown obs_alert_left obs @ bt_buffer (es_batcher e') @ sn_sent (es_scanner e')"
    using step
  proof cases
    case (es_scan_alert a rest now)
    then show ?thesis using inv scan_alert_same [OF es_scan_alert(3)] scan_alert_effect [OF es_scan_alert(3)]
      by (auto simp: engine_inv_def shown_passed)
  next
    case (es_batch_alert a rest now later env)
    then show ?thesis using batch_wake_same [OF es_batch_alert(3)] batch_wake_effect [OF es_batch_alert(3)]
      by (auto simp: shown_passed simp flip: append_assoc)
  next
    case (es_batch_sleep now later env)
    then show ?thesis using batch_wake_same [OF es_batch_sleep(2)] batch_wake_effect [OF es_batch_sleep(2)]
      by (auto simp: shown_passed simp flip: append_assoc)
  next
    case (es_batch_shutdown env e1)
    then show ?thesis using batch_wake_same [OF es_batch_shutdown(4)] batch_wake_effect [OF es_batch_shutdown(4)]
      by (auto simp: shown_passed simp flip: append_assoc)
  next
    case es_batch_end
    then show ?thesis using inv by (auto simp: engine_inv_def obs_defs shown_derived)
  qed (auto simp: hang_up_same shown_derived obs_defs step_same consume_effect scan_take_effect)
qed

section \<open>The deduplicator and the table over a run\<close>

lemma engine_step_dedup:
  assumes "engine_step p e obs e'"
  shows "dedup_run (ep_hash p) (ep_ops p) (map (\<lambda>(t, a, pass). (t, signature_of a)) (shown obs_checked obs)) (sn_dedup (es_scanner e)) =
    (map (\<lambda>(t, a, pass). pass) (shown obs_checked obs), sn_dedup (es_scanner e'))"
  using assms
proof cases
  case (es_scan_alert a rest now)
  then show ?thesis by (simp add: scan_alert_effect [OF es_scan_alert(3)])
qed (auto simp: hang_up_same shown_map step_same consume_effect scan_take_effect batch_wake_effect)

lemma engine_runs_dedup:
  assumes "runs (engine_step p) e tr e'"
  shows "dedup_run (ep_hash p) (ep_ops p) (map (\<lambda>(t, a, pass). (t, signature_of a)) (shown obs_checked tr)) (sn_dedup (es_scanner e)) =
    (map (\<lambda>(t, a, pass). pass) (shown obs_checked tr), sn_dedup (es_scanner e'))"
  using assms
proof (induction rule: runs.induct)
  case (runs_snoc e tr e1 obs e2)
  then show ?case using engine_step_dedup [OF runs_snoc(2)] by (simp add: dedup_run_append)
qed simp

lemma engine_step_stored:
  assumes "engine_step p e obs e'"
  shows "stored_ids (bt_sink (es_batcher e')) =
     stored_ids (bt_sink (es_batcher e)) \<union> al_alert_id ` set (accepted (shown obs_batch obs))"
  using assms
proof cases
  case (es_batch_alert a rest now later env)
  then show ?thesis using batch_wake_effect [OF es_batch_alert(3)] by simp
next
  case (es_batch_sleep now later env)
  then show ?thesis using batch_wake_effect [OF es_batch_sleep(2)] by simp
next
  case (es_batch_shutdown env e1)
  then show ?thesis using batch_wake_effect [OF es_batch_shutdown(4)] by simp
qed (auto simp: hang_up_same shown_map step_same consume_effect scan_take_effect scan_alert_effect)

lemma accepted_append: "accepted (bs @ cs) = accepted bs @ accepted cs"
  by (simp add: accepted_def)

lemma engine_runs_stored:
  assumes "runs (engine_step p) e tr e'"
  shows "stored_ids (bt_sink (es_batcher e')) =
     stored_ids (bt_sink (es_batcher e)) \<union> al_alert_id ` set (accepted (shown obs_batch tr))"
  using assms by (induction rule: runs.induct) (auto simp: engine_step_stored accepted_append)

section \<open>Nothing is dropped before the signal\<close>

lemma engine_step_cancelled: "engine_step p e obs e' \<Longrightarrow> es_cancelled e \<Longrightarrow> es_cancelled e'"
  by (erule engine_step.cases) (auto simp: hang_up_same step_same)

lemma engine_step_lost:
  assumes "engine_inv p e" "engine_step p e obs e'" "\<not> es_cancelled e"
  shows "shown obs_event_lost obs = [] \<and> shown obs_alert_lost obs = []"
  using assms(2)
proof cases
  case (es_scan_alert a rest now)
  then show ?thesis using assms(1,3) by (auto simp: scan_alert_effect engine_inv_def)
next
  case es_scan_end
  then show ?thesis using assms(1,3) by (auto simp: engine_inv_def)
next
  case es_batch_end
  then show ?thesis using assms(1,3) by (auto simp: engine_inv_def)
qed (auto simp: shown_map consume_effect scan_take_effect batch_wake_effect)

lemma engine_runs_lost:
  assumes "runs (engine_step p) e tr e'" "engine_inv p e" "\<not> es_cancelled e'"
  shows "shown obs_event_lost tr = [] \<and> shown obs_alert_lost tr = []"
  using assms
proof (induction rule: runs.induct)
  case (runs_snoc e tr e1 obs e2)
  then have "\<not> es_cancelled e1" using engine_step_cancelled by blast
  then show ?case
    using runs_snoc engine_step_lost [OF engine.runs_inv [OF runs_snoc(1,4)] runs_snoc(2)] by simp
qed simp

section \<open>The started engine\<close>

lemma engine_start_fresh:
  assumes "engine_start w ops = Inr (config, e)"
  shows "dedup_new ops (rc_dedup_capacity config) (rc_dedup_suppression_window_secs config * 10 ^ 9) = Inr (sn_dedup (es_scanner e))"
    "tc_channel (es_consumer e) = []" "es_pending e = []" "sn_sent (es_scanner e) = []" "bt_buffer (es_batcher e) = []"
    "\<not> es_cancelled e" "engine_inv p e" "as_alerts (bt_sink (es_batcher e)) = sw_rows w" "tc_commits (es_consumer e) = []"
  using assms
  by (auto simp: engine_start_def bind_health_def start_consumer_def result_bind_Inr_iff telemetry_consumer_new_def scanner_start_def batcher_start_def
      engine_inv_def split: if_splits sum.splits)

section \<open>Properties of the running engine\<close>

text \<open>C5: the stages account for everything: whatever the messages, the broker, the database, the clocks, the
  reloads and the interleaving of the tasks, every event the consumer forwarded has been scanned, is in
  the channel or was dropped with it, in order; every alert raised has been checked or waits for its
  check; every alert that passed has been handed to the sink, is in the batcher or its channel, or was
  dropped with the channel, in order; the channels and the buffer keep their bounds, the table holds what
  it held and every batch the sink took, and before the termination signal nothing has been dropped.\<close>

theorem engine_accounts_for_all:
  assumes "engine_start w ops = Inr (config, e0)"
    and "runs (engine_step p) e0 tr e"
  shows "shown obs_forwarded tr = shown obs_event_left tr @ tc_channel (es_consumer e) \<and>
    shown obs_raised tr = shown obs_checked_alert tr @ es_pending e \<and>
    shown obs_passed tr = shown obs_alert_left tr @ bt_buffer (es_batcher e) @ sn_sent (es_scanner e) \<and>
    length (tc_channel (es_consumer e)) \<le> ep_capacity p \<and> length (sn_sent (es_scanner e)) \<le> ep_capacity p \<and>
    length (bt_buffer (es_batcher e)) < max 1 (ep_max_size p) \<and>
    stored_ids (bt_sink (es_batcher e)) = na_alert_id ` set (sw_rows w) \<union> al_alert_id ` set (accepted (shown obs_batch tr)) \<and>
    (\<not> es_cancelled e \<longrightarrow> shown obs_event_lost tr = [] \<and> shown obs_alert_lost tr = [])"
proof -
  note fresh = engine_start_fresh [OF assms(1)]
  note inv = fresh(7) [of p]
  have "shown obs_passed tr = shown obs_alert_left tr @ bt_buffer (es_batcher e) @ sn_sent (es_scanner e)"
    using alerts.runs_from_empty [OF assms(2) inv] fresh(4,5) by simp
  moreover have "shown obs_forwarded tr = shown obs_event_left tr @ tc_channel (es_consumer e)"
    using events.runs_from_empty [OF assms(2) inv] fresh(2) by simp
  moreover have "shown obs_raised tr = shown obs_checked_alert tr @ es_pending e"
    using raised.runs_from_empty [OF assms(2) inv] fresh(3) by simp
  moreover have "engine_inv p e" using engine.runs_inv [OF assms(2) inv] .
  moreover have "stored_ids (bt_sink (es_batcher e)) = na_alert_id ` set (sw_rows w) \<union> al_alert_id ` set (accepted (shown obs_batch tr))"
    using engine_runs_stored [OF assms(2)] by (simp add: stored_ids_def fresh(8))
  ultimately show ?thesis
    using engine_runs_lost [OF assms(2) inv] unfolding engine_inv_def by blast
qed

lemma passed_member:
  "(t, a, True) \<in> set cs \<Longrightarrow> a \<in> set (concat (map (\<lambda>(t, a, pass). if pass then [a] else []) cs))"
  by force

text \<open>C12: until the termination signal, no finding is silenced on its way to the analyst: for every alert
  raised by a rule and checked, a batch handed to the sink, the batcher's buffer or its channel has that
  alert or an earlier one of the same node, description and technique raised less than the suppression
  window before; whatever the interleaving of the tasks, the evictions and the clock.\<close>

theorem engine_represents_findings:
  assumes "engine_start w ops = Inr (config, e0)"
    and "runs (engine_step p) e0 tr e"
    and "ep_ops p = ops"
    and "lru_laws ops entries cap"
    and "\<not> es_cancelled e"
    and "shown obs_checked tr ! i = (t, a, pass)" "i < length (shown obs_checked tr)"
  shows "\<exists>j \<le> i. case shown obs_checked tr ! j of (t', a', pass') \<Rightarrow>
     a' \<in> set (concat (map fst (shown obs_batch tr)) @ bt_buffer (es_batcher e) @ sn_sent (es_scanner e)) \<and>
     al_node_id a' = al_node_id a \<and> al_description a' = al_description a \<and>
     al_mitre_technique_id a' = al_mitre_technique_id a \<and>
     (j = i \<or> t - t' < rc_dedup_suppression_window_secs config * 10 ^ 9)"
proof -
  let ?cs = "shown obs_checked tr"
  let ?calls = "map (\<lambda>(t, a, pass). (t, signature_of a)) ?cs"
  note fresh = engine_start_fresh [OF assms(1)]
  let ?d = "sn_dedup (es_scanner e0)"
  have run: "fst (dedup_run (ep_hash p) ops ?calls ?d) = map (\<lambda>(t, a, pass). pass) ?cs"
    using engine_runs_dedup [OF assms(2)] by (simp add: assms(3))
  obtain j where j: "j \<le> i" "snd (snd (?cs ! j))" "signature_of (fst (snd (?cs ! j))) = signature_of a"
    "j = i \<or> t - fst (?cs ! j) < rc_dedup_suppression_window_secs config * 10 ^ 9"
  proof (cases pass)
    case False
    have "\<exists>j < i. fst (dedup_run (ep_hash p) ops ?calls ?d) ! j \<and> snd (?calls ! j) = snd (?calls ! i) \<and>
        fst (?calls ! i) - fst (?calls ! j) < rc_dedup_suppression_window_secs config * 10 ^ 9"
      using dedup_run_sound [OF assms(4) dedup_new_inv(1) [OF assms(4) fresh(1)], of "ep_hash p" "{}" i ?calls]
        dedup_new_inv(2,3) [OF assms(4) fresh(1)] assms(6,7) False run by (simp add: case_prod_unfold)
    then obtain j where "j < i" "snd (snd (?cs ! j))" "snd (?calls ! j) = snd (?calls ! i)"
      "fst (?calls ! i) - fst (?calls ! j) < rc_dedup_suppression_window_secs config * 10 ^ 9"
      using run assms(7) by (auto simp: case_prod_unfold)
    then show ?thesis using that [of j] assms(6,7) by (simp add: case_prod_unfold)
  qed (use that [of i] assms(6) in simp)
  obtain t' a' where tj: "?cs ! j = (t', a', True)" using j(2) by (cases "?cs ! j") auto
  have "a' \<in> set (shown obs_passed tr)"
    unfolding shown_passed using nth_mem [of j ?cs] tj j(1) assms(7) by (intro passed_member) simp
  moreover have "shown obs_passed tr = shown obs_alert_left tr @ bt_buffer (es_batcher e) @ sn_sent (es_scanner e)"
    using alerts.runs_from_empty [OF assms(2) fresh(7)] fresh(4,5) by simp
  moreover have "shown obs_alert_left tr = concat (map fst (shown obs_batch tr))"
    using engine_runs_lost [OF assms(2) fresh(7) assms(5)]
    by (induction tr) (auto simp: obs_alert_left_def)
  ultimately show ?thesis
    using j tj by (intro exI [of _ j]) (auto simp: signature_of_def)
qed

section \<open>An example run\<close>

definition demo_world :: "(string list, string list) start_world" where
  "demo_world = \<lparr>sw_env = [''DATABASE_URL'' \<mapsto> ''postgres://db''], sw_cpus = 4, sw_exists = (\<lambda>_. False), sw_read = (\<lambda>_. Err ''''),
     sw_parse_taxonomy = (\<lambda>_. Err ''''), sw_yara = demo_yara, sw_listing = (\<lambda>_. Some (Inr demo_rules_dir)), sw_pool = (\<lambda>_ _. Ok ()),
     sw_producer = (\<lambda>_. Ok ()), sw_channel = (\<lambda>n. 0 < n), sw_bind = (\<lambda>_. Ok ()), sw_consumer = (\<lambda>_. Ok ()),
     sw_subscribe = (\<lambda>_. Ok ()), sw_now = 0, sw_rows = []\<rparr>"

definition demo_config :: rule_engine_config where
  "demo_config = \<lparr>rc_kafka_brokers = ''localhost:9092'', rc_kafka_group_id = ''aigis-rule-engine'',
     rc_kafka_topics = [''aigis.events.process'', ''aigis.events.network'', ''aigis.events.file'', ''aigis.events.auth''],
     rc_rules_directory = ''./rules'', rc_mitre_taxonomy_path = ''./rules/mitre/enterprise-attack-linux.json'',
     rc_database_url = ''postgres://db'', rc_db_pool_max_size = 20, rc_scanner_worker_count = 4, rc_channel_capacity = 10000,
     rc_dedup_capacity = 100000, rc_dedup_suppression_window_secs = 60, rc_batch_max_size = 500,
     rc_batch_flush_interval_ms = 100, rc_health_port = 8081, rc_dlq_topic = ''aigis.events.dlq'', rc_alerts_topic = ''aigis.alerts''\<rparr>"

definition demo_registry :: "string list engine_registry" where
  "demo_registry = registry_new [(''process'', [''rule a'', ''rule b''])] empty_taxonomy"

definition demo_engine :: "(string list, nat \<times> (alert_signature \<times> instant \<times> u64) list) engine_service" where
  "demo_engine = \<lparr>es_cancelled = False, es_registry = demo_registry, es_reload_metrics = engine_metrics_new,
     es_consumer = \<lparr>tc_dlq_topic = ''aigis.events.dlq'', tc_channel = [], tc_dlq = [], tc_commits = []\<rparr>, es_consumer_on = True, es_sending = None,
     es_scanner = scanner_start \<lparr>dd_shards = replicate 16 (6250, []), dd_window = 60 * 10 ^ 9\<rparr>, es_scan_pc = ScanWaiting,
     es_pending = [],
     es_batcher = batcher_start 0 engine_metrics_new \<lparr>as_topic = ''aigis.alerts'', as_published = [], as_alerts = []\<rparr>,
     es_batch_pc = BatchOn\<rparr>"

lemma demo_trim:
  "trim ''aigis.events.process'' = ''aigis.events.process''" "trim ''aigis.events.network'' = ''aigis.events.network''"
  "trim ''aigis.events.file'' = ''aigis.events.file''" "trim ''aigis.events.auth'' = ''aigis.events.auth''"
  by code_simp+

lemma demo_from_env: "from_env (sw_env demo_world) (sw_cpus demo_world) = Inr demo_config"
  by (simp add: from_env_def demo_world_def demo_config_def env_num_def demo_trim)

lemma demo_compile_world: "compile_all demo_yara d (Some (Inr demo_rules_dir)) = Inr [(''process'', [''rule a'', ''rule b''])]"
proof -
  have "compile_all demo_yara d (Some (Inr demo_rules_dir)) = compile_all demo_yara ''rules'' (Some (Inr demo_rules_dir))"
    by (simp add: compile_all_def demo_rules_dir_def compile_directory_def demo_yara_def path_extension_def)
  then show ?thesis by (simp add: demo_compile)
qed

lemma demo_started: "engine_start demo_world list_lru = Inr (demo_config, demo_engine)"
  unfolding engine_start_def demo_from_env
  by (simp add: bind_health_def start_consumer_def demo_world_def demo_config_def demo_engine_def demo_registry_def taxonomy_file_def initial_registry_def demo_compile_world
      dedup_new_def SHARD_COUNT_def list_lru_def create_pool_def dlq_producer_new_def alert_producer_new_def
      telemetry_consumer_new_def map_replicate_const)

definition demo_params :: "(string list, nat \<times> (alert_signature \<times> instant \<times> u64) list) engine_params" where
  "demo_params = \<lparr>ep_parse = (\<lambda>_. Ok demo_event), ep_hash = ucast, ep_ops = list_lru, ep_scan = (\<lambda>_. demo_scan ()),
     ep_to_vec = (\<lambda>_. None), ep_capacity = 1, ep_max_size = 2, ep_interval = 100\<rparr>"

definition demo_msg :: telemetry_msg where
  "demo_msg = \<lparr>tm_topic = ''aigis.events.process'', tm_partition = 0, tm_offset = 41, tm_payload = Some ''{}''\<rparr>"

definition demo_fresh :: "nat \<Rightarrow> uuid \<times> timestamp" where
  "demo_fresh i = (of_nat i, 0)"

definition demo_alert :: alert where
  "demo_alert = build_alert 0 0 demo_event \<lparr>mr_identifier = ''shell'', mr_metadata = []\<rparr> empty_taxonomy"

lemma demo_evaluate: "evaluate (\<lambda>_. demo_scan ()) (\<lambda>_. None) demo_fresh demo_registry demo_event = Inr [demo_alert]"
  by code_simp

text \<open>A message is consumed and committed, and the scanner takes its event, which gives one alert.\<close>

definition demo_taken :: "(string list, nat \<times> (alert_signature \<times> instant \<times> u64) list) engine_service" where
  "demo_taken = demo_engine\<lparr>es_consumer := \<lparr>tc_dlq_topic = ''aigis.events.dlq'', tc_channel = [], tc_dlq = [],
       tc_commits = [(''aigis.events.process'', 0, 41)]\<rparr>, es_pending := [demo_alert],
     es_scanner := (es_scanner demo_engine)\<lparr>sn_metrics := inc_scanned engine_metrics_new\<rparr>\<rparr>"

lemma demo_taken_run:
  "runs (engine_step demo_params) demo_engine [ObsForwarded demo_event, ObsTaken demo_event [demo_alert]] demo_taken"
proof -
  let ?e = "demo_engine\<lparr>es_consumer := \<lparr>tc_dlq_topic = ''aigis.events.dlq'', tc_channel = [demo_event], tc_dlq = [],
       tc_commits = [(''aigis.events.process'', 0, 41)]\<rparr>\<rparr>"
  have r: "engine_step demo_params demo_engine [] (demo_engine\<lparr>es_sending := Some demo_msg\<rparr>)"
    by (rule es_receive) (simp_all add: demo_engine_def carries_event_def demo_params_def demo_msg_def)
  obtain obs e1 where s: "consume demo_params demo_msg (Ok ()) True (demo_engine\<lparr>es_sending := Some demo_msg\<rparr>) = (obs, e1)" by fastforce
  then have e1: "obs = [ObsForwarded demo_event]" "e1\<lparr>es_sending := None\<rparr> = ?e"
    by (auto simp: demo_engine_def demo_params_def consume_def demo_msg_def forwarded_def Let_def)
  have "engine_step demo_params (demo_engine\<lparr>es_sending := Some demo_msg\<rparr>) obs (e1\<lparr>es_sending := None\<rparr>)"
    by (rule es_send [OF _ _ _ s]) (simp_all add: demo_engine_def event_room_def demo_params_def)
  then have c: "runs (engine_step demo_params) demo_engine [ObsForwarded demo_event] ?e"
    using runs_step_then [where step = "engine_step demo_params", OF r runs_step] by (fastforce simp: e1)
  have t: "engine_step demo_params ?e [ObsTaken demo_event [demo_alert]] demo_taken"
    by (rule es_scan_take [where event = demo_event and rest = "[]" and fresh = demo_fresh])
      (simp_all add: demo_engine_def demo_params_def scan_take_def demo_taken_def demo_evaluate scanner_start_def Let_def)
  show ?thesis
    using runs_snoc [where step = "engine_step demo_params", OF c t] by simp
qed

lemma demo_passes: "check_and_record ucast list_lru 5 (signature_of demo_alert) (sn_dedup (es_scanner demo_engine)) =
  (True, \<lparr>dd_shards = (replicate 16 (6250, []))[7 := (6250, [(signature_of demo_alert, 5, 1)])], dd_window = 60 * 10 ^ 9\<rparr>)"
proof -
  have "sg_node_id (signature_of demo_alert) = 7" by code_simp
  then show ?thesis
    by (simp add: check_and_record_def demo_engine_def scanner_start_def shard_index_def SHARD_COUNT_def list_lru_def Let_def promote_def)
qed

definition demo_sent :: "(string list, nat \<times> (alert_signature \<times> instant \<times> u64) list) engine_service" where
  "demo_sent = snd (scan_alert demo_params 5 demo_alert [] demo_taken)"

definition demo_sent_trace :: "engine_obs list" where
  "demo_sent_trace = [ObsForwarded demo_event, ObsTaken demo_event [demo_alert], ObsChecked 5 demo_alert True]"

lemma demo_sent_run: "runs (engine_step demo_params) demo_engine demo_sent_trace demo_sent"
proof -
  have "engine_step demo_params demo_taken [ObsChecked 5 demo_alert True] demo_sent"
    using demo_passes
    by (intro es_scan_alert [where a = demo_alert and rest = "[]" and now = 5])
      (simp_all add: demo_sent_def demo_taken_def alert_room_def demo_engine_def scanner_start_def demo_params_def scan_alert_def
        alert_passes_def Let_def)
  then show ?thesis using runs_snoc [where step = "engine_step demo_params", OF demo_taken_run] by (simp add: demo_sent_trace_def)
qed

lemma demo_sent_state: "sn_sent (es_scanner demo_sent) = [demo_alert]" "\<not> es_cancelled demo_sent" "bt_buffer (es_batcher demo_sent) = []"
  using demo_passes
  by (simp_all add: demo_sent_def scan_alert_def handle_alert_def demo_taken_def demo_params_def demo_engine_def scanner_start_def
      batcher_start_def Let_def)

theorem engine_accounts_for_all_witness:
  "shown obs_passed demo_sent_trace = shown obs_alert_left demo_sent_trace @ bt_buffer (es_batcher demo_sent) @ sn_sent (es_scanner demo_sent) \<and>
   sn_sent (es_scanner demo_sent) = [demo_alert] \<and>
   stored_ids (bt_sink (es_batcher demo_sent)) =
     na_alert_id ` set (sw_rows demo_world) \<union> al_alert_id ` set (accepted (shown obs_batch demo_sent_trace))"
  using engine_accounts_for_all [OF demo_started demo_sent_run] demo_sent_state(1) by blast

theorem engine_represents_findings_witness:
  "\<exists>j \<le> 0. case shown obs_checked demo_sent_trace ! j of (t', a', pass') \<Rightarrow>
     a' \<in> set (concat (map fst (shown obs_batch demo_sent_trace)) @ bt_buffer (es_batcher demo_sent) @ sn_sent (es_scanner demo_sent)) \<and>
     al_node_id a' = al_node_id demo_alert \<and> al_description a' = al_description demo_alert \<and>
     al_mitre_technique_id a' = al_mitre_technique_id demo_alert \<and>
     (j = 0 \<or> 5 - t' < rc_dedup_suppression_window_secs demo_config * 10 ^ 9)"
  by (rule engine_represents_findings [OF demo_started demo_sent_run _ list_lru_laws demo_sent_state(2)])
    (simp_all add: demo_params_def demo_sent_trace_def)

section \<open>Shutdown\<close>

lemma scan_alert_enabled:
  assumes "es_batch_pc e = BatchEnded" "es_pending e = a # rest"
  shows "\<exists>obs e'. engine_step p e obs e' \<and> es_pending e' = rest \<and> es_batch_pc e' = BatchEnded \<and> es_scan_pc e' = es_scan_pc e \<and>
    es_consumer e' = es_consumer e \<and> es_consumer_on e' = es_consumer_on e \<and> es_cancelled e' = es_cancelled e"
proof -
  obtain obs e' where s: "scan_alert p 0 a rest e = (obs, e')" by fastforce
  have "engine_step p e obs e'" using s assms by (intro es_scan_alert) (simp_all add: alert_room_def)
  then show ?thesis using scan_alert_same [OF s] assms(1) by metis
qed

lemma pending_can_finish:
  "es_batch_pc e = BatchEnded \<Longrightarrow> \<exists>tr e'. runs (engine_step p) e tr e' \<and> es_pending e' = [] \<and> es_batch_pc e' = BatchEnded \<and>
     es_scan_pc e' = es_scan_pc e \<and> es_consumer e' = es_consumer e \<and> es_consumer_on e' = es_consumer_on e \<and> es_cancelled e' = es_cancelled e"
proof (induction "es_pending e" arbitrary: e)
  case Nil
  then show ?case using runs_nil by metis
next
  case (Cons a rest)
  obtain obs e1 where e1: "engine_step p e obs e1" "es_pending e1 = rest" "es_batch_pc e1 = BatchEnded" "es_scan_pc e1 = es_scan_pc e"
    "es_consumer e1 = es_consumer e" "es_consumer_on e1 = es_consumer_on e" "es_cancelled e1 = es_cancelled e"
    using scan_alert_enabled [OF Cons(3) Cons(2) [symmetric]] by metis
  then show ?case using Cons(1) [of e1] runs_step_then [where step = "engine_step p", OF e1(1)] by metis
qed

lemma channel_can_drain:
  "es_batch_pc e = BatchEnded \<Longrightarrow> es_scan_pc e = ScanDraining \<Longrightarrow> es_pending e = [] \<Longrightarrow>
   \<exists>tr e'. runs (engine_step p) e tr e' \<and> es_pending e' = [] \<and> tc_channel (es_consumer e') = [] \<and> es_batch_pc e' = BatchEnded \<and>
     es_scan_pc e' = ScanDraining \<and> es_consumer_on e' = es_consumer_on e"
proof (induction "tc_channel (es_consumer e)" arbitrary: e)
  case Nil
  then show ?case using runs_nil by metis
next
  case (Cons event rest)
  obtain obs e1 where s: "scan_take p fresh event rest e = (obs, e1)" by fastforce
  have step: "engine_step p e obs e1" using s Cons by (intro es_scan_take) simp_all
  obtain tr e2 where e2: "runs (engine_step p) e1 tr e2" "es_pending e2 = []" "es_batch_pc e2 = BatchEnded"
    "es_scan_pc e2 = ScanDraining" "tc_channel (es_consumer e2) = rest" "es_consumer_on e2 = es_consumer_on e"
    using pending_can_finish [of e1 p] scan_take_same [OF s] scan_take_effect [OF s] Cons(3,4) by metis
  obtain tr' e3 where "runs (engine_step p) e2 tr' e3" "es_pending e3 = []" "tc_channel (es_consumer e3) = []" "es_batch_pc e3 = BatchEnded"
     "es_scan_pc e3 = ScanDraining" "es_consumer_on e3 = es_consumer_on e"
    using Cons(1) [OF e2(5) [symmetric]] e2 by metis
  then show ?case using runs_trans [OF _ runs_step_then [where step = "engine_step p", OF step e2(1)]] by metis
qed

lemma batch_can_end:
  assumes "es_cancelled e"
  shows "\<exists>tr e'. runs (engine_step p) e tr e' \<and> es_batch_pc e' = BatchEnded \<and> es_consumer_on e' = es_consumer_on e \<and> es_cancelled e'"
proof -
  have stop: "\<exists>tr e'. runs (engine_step p) e tr e' \<and> es_batch_pc e' = BatchEnded \<and> es_consumer_on e' = es_consumer_on e \<and> es_cancelled e'"
    if "es_batch_pc e = BatchStopped" "es_cancelled e" for e :: "('a, 'b) engine_service"
    using runs_step [where step = "engine_step p", OF es_batch_end [OF that(1)]] that(2) by - (intro exI conjI, assumption, simp_all)
  show ?thesis
  proof (cases "es_batch_pc e")
    case BatchOn
    obtain obs e1 where s: "batch_wake p (BatchShutdown (sn_sent (es_scanner e)) undefined) [] e = (obs, e1)" by fastforce
    note step = es_batch_shutdown [OF BatchOn assms s]
    obtain tr e2 where "runs (engine_step p) (e1\<lparr>es_batch_pc := BatchStopped\<rparr>) tr e2" "es_batch_pc e2 = BatchEnded"
      "es_consumer_on e2 = es_consumer_on e" "es_cancelled e2"
      using stop [of "e1\<lparr>es_batch_pc := BatchStopped\<rparr>"] batch_wake_same [OF s] assms by auto
    then show ?thesis using runs_step_then [where step = "engine_step p", OF step] by metis
  next
    case BatchStopped
    then show ?thesis using stop assms by blast
  next
    case BatchEnded
    then show ?thesis using runs_nil assms by metis
  qed
qed

lemma scan_can_end:
  assumes "es_cancelled e" "es_batch_pc e = BatchEnded" "es_scan_pc e = ScanEnded \<longrightarrow> es_pending e = []"
  shows "\<exists>tr e'. runs (engine_step p) e tr e' \<and> es_batch_pc e' = BatchEnded \<and> es_scan_pc e' = ScanEnded \<and> es_consumer_on e' = es_consumer_on e"
proof -
  let ?goal = "\<lambda>e. \<exists>tr e'. runs (engine_step p) e tr e' \<and> es_batch_pc e' = BatchEnded \<and> es_scan_pc e' = ScanEnded \<and>
      es_consumer_on e' = es_consumer_on e"
  have stopped: "?goal e" if "es_scan_pc e = ScanStopped" "es_batch_pc e = BatchEnded" for e :: "('a, 'b) engine_service"
    using runs_step [where step = "engine_step p", OF es_scan_end [OF that(1)]] that(2) by - (intro exI conjI, assumption, simp_all)
  have draining: "?goal e" if d: "es_scan_pc e = ScanDraining" "es_batch_pc e = BatchEnded" "es_pending e = []"
    for e :: "('a, 'b) engine_service"
  proof -
    obtain tr e1 where e1: "runs (engine_step p) e tr e1" "es_pending e1 = []" "tc_channel (es_consumer e1) = []"
      "es_batch_pc e1 = BatchEnded" "es_scan_pc e1 = ScanDraining" "es_consumer_on e1 = es_consumer_on e"
      using channel_can_drain [OF d(2,1,3)] by metis
    obtain tr' e2 where e2: "runs (engine_step p) (e1\<lparr>es_scan_pc := ScanStopped\<rparr>) tr' e2" "es_batch_pc e2 = BatchEnded"
      "es_scan_pc e2 = ScanEnded" "es_consumer_on e2 = es_consumer_on e"
      using stopped [of "e1\<lparr>es_scan_pc := ScanStopped\<rparr>"] e1(4,6) by auto
    show ?thesis
      using runs_trans [OF runs_step_then [where step = "engine_step p", OF es_scan_drained [OF e1(5,2,3)] e2(1)] e1(1)] e2(2-4) by metis
  qed
  obtain tr e1 where e1: "runs (engine_step p) e tr e1" "es_pending e1 = []" "es_batch_pc e1 = BatchEnded"
     "es_scan_pc e1 = es_scan_pc e" "es_consumer_on e1 = es_consumer_on e" "es_cancelled e1"
    using pending_can_finish [OF assms(2), of p] assms(1) by metis
  have "?goal e1"
  proof (cases "es_scan_pc e1")
    case ScanWaiting
    have "?goal (e1\<lparr>es_scan_pc := ScanDraining\<rparr>)" using e1 by (intro draining) simp_all
    then show ?thesis
      using runs_step_then [where step = "engine_step p", OF es_scan_shutdown [OF ScanWaiting e1(2,6)]] by fastforce
  qed (use draining stopped e1 runs_nil in metis)+
  then show ?thesis using runs_trans [OF _ e1(1)] e1(5) by metis
qed

lemma engine_runs_cancelled: "runs (engine_step p) e tr e' \<Longrightarrow> es_cancelled e \<Longrightarrow> es_cancelled e'"
  by (induction rule: runs.induct) (auto intro: engine_step_cancelled)

text \<open>A consumer that waits in \<open>send\<close> gets an error from the closed channel and ends; one that waits for a message sees the cancellation.\<close>

lemma consumer_can_stop:
  assumes "es_batch_pc e = BatchEnded" "es_scan_pc e = ScanEnded" "es_cancelled e" "es_sending e = None"
  shows "\<exists>tr e'. runs (engine_step p) e tr e' \<and> joined e'"
proof (cases "es_consumer_on e")
  case True
  then have "engine_step p e [] (e\<lparr>es_consumer_on := False\<rparr>)" using assms by (intro es_consumer_stop)
  moreover have "joined (e\<lparr>es_consumer_on := False\<rparr>)" using assms by (simp add: joined_def)
  ultimately show ?thesis using runs_step [where step = "engine_step p"] by blast
next
  case False
  then have "joined e" using assms by (simp add: joined_def)
  then show ?thesis using runs_nil by metis
qed

lemma consumer_can_end:
  assumes "es_batch_pc e = BatchEnded" "es_scan_pc e = ScanEnded" "es_cancelled e"
  shows "\<exists>tr e'. runs (engine_step p) e tr e' \<and> joined e'"
proof (cases "es_consumer_on e \<and> es_sending e \<noteq> None")
  case True
  then obtain m where m: "es_consumer_on e" "es_sending e = Some m" by auto
  obtain obs e1 where c: "consume p m (Ok ()) True e = (obs, e1)" by fastforce
  have "event_room p e" by (simp add: event_room_def assms(2))
  then have step: "engine_step p e obs (e1\<lparr>es_sending := None\<rparr>)" using m c by (intro es_send)
  obtain tr e2 where "runs (engine_step p) (e1\<lparr>es_sending := None\<rparr>) tr e2" "joined e2"
    using consumer_can_stop [of "e1\<lparr>es_sending := None\<rparr>" p] consume_same [OF c] assms by auto
  then show ?thesis using runs_step_then [where step = "engine_step p", OF step] by metis
next
  case False
  show ?thesis
  proof (cases "es_consumer_on e")
    case True
    then show ?thesis using False consumer_can_stop [OF assms] by blast
  next
    case False
    then have "joined e" using assms by (simp add: joined_def)
    then show ?thesis using runs_nil by metis
  qed
qed

text \<open>C11: the shutdown never deadlocks: from any state the engine can reach once the termination signal has come,
  with whatever in the channels and however full they are, also with the consumer or the scanner waiting for room
  in one, the three tasks can all end, so that \<open>tokio::join!\<close> returns.\<close>

theorem shutdown_can_complete:
  assumes "engine_start w ops = Inr (config, e0)"
    and "runs (engine_step p) e0 tr e"
    and "es_cancelled e"
  shows "\<exists>tr' e'. runs (engine_step p) e tr' e' \<and> joined e'"
proof -
  obtain tr2 e2 where e2: "runs (engine_step p) e tr2 e2" "es_batch_pc e2 = BatchEnded" "es_cancelled e2"
    using batch_can_end [OF assms(3), of p] by metis
  have "engine_inv p e2"
    using engine.runs_inv [OF e2(1)] engine.runs_inv [OF assms(2)] engine_start_fresh(7) [OF assms(1)] by blast
  then obtain tr3 e3 where e3: "runs (engine_step p) e2 tr3 e3" "es_batch_pc e3 = BatchEnded" "es_scan_pc e3 = ScanEnded"
    using scan_can_end [OF e2(3,2), of p] unfolding engine_inv_def by (metis insertCI)
  obtain tr4 e4 where "runs (engine_step p) e3 tr4 e4" "joined e4"
    using consumer_can_end [OF e3(2,3) engine_runs_cancelled [OF e3(1) e2(3)], of p] by metis
  then show ?thesis using runs_trans [OF _ runs_trans [OF e3(1) e2(1)]] by metis
qed

lemma demo_cancelled_run: "runs (engine_step demo_params) demo_engine demo_sent_trace (demo_sent\<lparr>es_cancelled := True\<rparr>)"
  using runs_snoc [where step = "engine_step demo_params", OF demo_sent_run es_signal] by simp

theorem shutdown_can_complete_witness:
  "\<exists>tr' e'. runs (engine_step demo_params) (demo_sent\<lparr>es_cancelled := True\<rparr>) tr' e' \<and> joined e'"
  by (rule shutdown_can_complete [OF demo_started demo_cancelled_run]) simp

text \<open>While the batcher is in its loop no alert has been dropped.\<close>

lemma engine_step_alert_lost:
  assumes "engine_step p e obs e'" "es_batch_pc e' = BatchOn"
  shows "es_batch_pc e = BatchOn \<and> shown obs_alert_lost obs = []"
  using assms(1)
proof cases
  case (es_scan_alert a rest now)
  then show ?thesis using assms(2) by (auto simp: scan_alert_effect step_same)
qed (use assms(2) in \<open>auto simp: hang_up_same shown_map step_same consume_effect scan_take_effect batch_wake_effect\<close>)

lemma engine_runs_alert_lost:
  "runs (engine_step p) e tr e' \<Longrightarrow> es_batch_pc e' = BatchOn \<Longrightarrow> shown obs_alert_lost tr = []"
  by (induction rule: runs.induct) (use engine_step_alert_lost in fastforce)+

text \<open>Once the scanner has ended, nothing more is sent to the batcher.\<close>

definition scanner_quiet :: "('r, 'c) engine_service \<Rightarrow> bool" where
  "scanner_quiet e \<longleftrightarrow> es_scan_pc e = ScanEnded \<and> es_pending e = [] \<and>
     (es_batch_pc e \<noteq> BatchOn \<longrightarrow> sn_sent (es_scanner e) = [] \<and> bt_buffer (es_batcher e) = [])"

lemma quiet_step:
  assumes "engine_step p e obs e'" "scanner_quiet e"
  shows "scanner_quiet e' \<and> shown obs_alert_lost obs = []"
  using assms(1)
proof cases
  case (es_batch_shutdown env e1)
  then show ?thesis using assms(2) batch_wake_same [OF es_batch_shutdown(4)] batch_shutdown_empties [OF es_batch_shutdown(4)]
    by (auto simp: scanner_quiet_def batch_wake_effect)
qed (use assms(2) in \<open>auto simp: scanner_quiet_def hang_up_same shown_map step_same consume_effect batch_wake_effect\<close>)

lemma quiet_runs: "runs (engine_step p) e tr e' \<Longrightarrow> scanner_quiet e \<Longrightarrow> scanner_quiet e' \<and> shown obs_alert_lost tr = []"
  by (induction rule: runs.induct) (use quiet_step in fastforce)+

lemma alert_left_no_loss: "shown obs_alert_lost tr = [] \<Longrightarrow> shown obs_alert_left tr = concat (map fst (shown obs_batch tr))"
  by (induction tr) (auto simp: obs_alert_left_def)

text \<open>C13: an orderly shutdown loses no alert: if the scanner has ended while the batcher is still in its loop,
  then from there on, when the batcher leaves its loop, every alert that passed the deduplicator since
  the start has been handed to the sink, once and in order.\<close>

theorem orderly_shutdown_delivers:
  assumes "engine_start w ops = Inr (config, e0)"
    and "runs (engine_step p) e0 tr e"
    and "es_scan_pc e = ScanEnded" "es_batch_pc e = BatchOn"
    and "runs (engine_step p) e tr' e'" "es_batch_pc e' \<noteq> BatchOn"
  shows "concat (map fst (shown obs_batch (tr @ tr'))) = shown obs_passed (tr @ tr')"
proof -
  note fresh = engine_start_fresh [OF assms(1)]
  have "scanner_quiet e" using engine.runs_inv [OF assms(2) fresh(7)] assms(3,4) by (simp add: scanner_quiet_def engine_inv_def)
  then have q: "scanner_quiet e'" "shown obs_alert_lost tr' = []" using quiet_runs [OF assms(5)] by blast+
  have "shown obs_alert_lost (tr @ tr') = []" using engine_runs_alert_lost [OF assms(2,4)] q(2) by simp
  moreover have "shown obs_passed (tr @ tr') = shown obs_alert_left (tr @ tr')"
    using alerts.runs_from_empty [OF runs_trans [OF assms(5,2)] fresh(7)] fresh(4,5) q(1) assms(6)
    by (simp add: scanner_quiet_def)
  ultimately show ?thesis using alert_left_no_loss by metis
qed

lemmas demo_then = runs_snoc [where step = "engine_step demo_params"]

text \<open>The consumer's stream ends, the scanner ends after it, and the signal finds the batcher in its loop.\<close>

definition demo_quiet :: "(string list, nat \<times> (alert_signature \<times> instant \<times> u64) list) engine_service" where
  "demo_quiet = demo_sent\<lparr>es_consumer_on := False, es_scan_pc := ScanEnded\<rparr>"

lemma demo_sent_fields: "es_consumer_on demo_sent" "es_scan_pc demo_sent = ScanWaiting" "es_pending demo_sent = []"
  "tc_channel (es_consumer demo_sent) = []" "es_batch_pc demo_sent = BatchOn" "es_sending demo_sent = None"
  by (simp_all add: demo_sent_def scan_alert_def demo_taken_def demo_engine_def Let_def)

lemma demo_quiet_run: "runs (engine_step demo_params) demo_engine demo_sent_trace demo_quiet"
proof -
  let ?e1 = "demo_sent\<lparr>es_consumer_on := False\<rparr>"
  let ?e2 = "?e1\<lparr>es_scan_pc := ScanStopped\<rparr>"
  have "runs (engine_step demo_params) demo_engine demo_sent_trace ?e1"
    using demo_then [OF demo_sent_run es_consumer_end [OF demo_sent_fields(1,6)]] by simp
  then have r: "runs (engine_step demo_params) demo_engine demo_sent_trace ?e2"
    using demo_then [OF _ es_scan_closed [of ?e1]] by (simp add: demo_sent_fields)
  have "tc_channel (es_consumer ?e2) = []" by (simp add: demo_sent_fields)
  moreover have "?e2\<lparr>es_scan_pc := ScanEnded, es_consumer := (es_consumer ?e2)\<lparr>tc_channel := []\<rparr>\<rparr> = demo_quiet"
    using demo_sent_fields(4) by (simp add: demo_quiet_def)
  ultimately show ?thesis using demo_then [OF r es_scan_end] by simp
qed

definition demo_flush_env :: sink_env where
  "demo_flush_env = \<lparr>se_to_vec = (\<lambda>_. Ok ''{}''), se_uuid_str = (\<lambda>_. ''u''), se_answer = (\<lambda>_. Ok ()), se_pool = Ok (), se_insert = Ok ()\<rparr>"

definition demo_flushed :: "engine_obs list \<times> (string list, nat \<times> (alert_signature \<times> instant \<times> u64) list) engine_service" where
  "demo_flushed = batch_wake demo_params (BatchShutdown [demo_alert] demo_flush_env) [] (demo_quiet\<lparr>es_cancelled := True\<rparr>)"

lemma demo_flush_run:
  "runs (engine_step demo_params) demo_quiet (fst demo_flushed) ((snd demo_flushed)\<lparr>es_batch_pc := BatchStopped\<rparr>)"
proof -
  let ?e = "demo_quiet\<lparr>es_cancelled := True\<rparr>"
  have "sn_sent (es_scanner ?e) = [demo_alert]" "es_batch_pc ?e = BatchOn"
    by (simp_all add: demo_quiet_def demo_sent_state demo_sent_fields)
  then have "engine_step demo_params ?e (fst demo_flushed) ((snd demo_flushed)\<lparr>es_batch_pc := BatchStopped\<rparr>)"
    by (intro es_batch_shutdown [where env = demo_flush_env]) (simp_all add: demo_flushed_def)
  then show ?thesis using runs_step_then [where step = "engine_step demo_params", OF es_signal runs_step] by fastforce
qed

theorem orderly_shutdown_delivers_witness:
  "concat (map fst (shown obs_batch (demo_sent_trace @ fst demo_flushed))) = shown obs_passed (demo_sent_trace @ fst demo_flushed) \<and>
   shown obs_passed demo_sent_trace = [demo_alert]"
  using orderly_shutdown_delivers [OF demo_started demo_quiet_run _ _ demo_flush_run]
  by (simp add: demo_quiet_def demo_sent_fields demo_sent_trace_def obs_passed_def)

text \<open>The order of the other tasks matters: the batcher may drain its channel and end while the scanner is
  at work. Then an alert whose event is committed, and that the deduplicator let through, is dropped.\<close>

lemma demo_late_passes:
  assumes "scan_alert demo_params 5 demo_alert [] (demo_taken\<lparr>es_cancelled := True, es_batch_pc := BatchEnded\<rparr>) = (obs, e)"
  shows "shown obs_passed obs = [demo_alert]" "shown obs_alert_lost obs = [demo_alert]" "shown obs_batch obs = []"
    "es_consumer e = es_consumer demo_taken" "es_consumer_on e" "es_scan_pc e = ScanWaiting" "es_pending e = []" "es_cancelled e"
    "es_batch_pc e = BatchEnded" "es_sending e = None"
  using assms demo_passes
  by (auto simp: scan_alert_def alert_passes_def demo_params_def demo_taken_def demo_engine_def scanner_start_def obs_passed_def Let_def)

lemma shutdown_race_loses_alert:
  "\<exists>tr e. runs (engine_step demo_params) demo_engine tr e \<and> joined e \<and>
     tc_commits (es_consumer e) = [(''aigis.events.process'', 0, 41)] \<and>
     shown obs_passed tr = [demo_alert] \<and> shown obs_alert_lost tr = [demo_alert] \<and> shown obs_batch tr = []"
proof -
  let ?tr = "[ObsForwarded demo_event, ObsTaken demo_event [demo_alert]]"
  let ?c = "demo_taken\<lparr>es_cancelled := True\<rparr>"
  let ?b = "demo_taken\<lparr>es_cancelled := True, es_batch_pc := BatchStopped\<rparr>"
  let ?d = "demo_taken\<lparr>es_cancelled := True, es_batch_pc := BatchEnded\<rparr>"
  have "batch_wake demo_params (BatchShutdown (sn_sent (es_scanner ?c)) demo_flush_env) [] ?c = ([], ?c)"
    by (simp add: batch_wake_def demo_taken_def demo_engine_def scanner_start_def batcher_start_def)
  then have b: "engine_step demo_params ?c [] ?b"
    using es_batch_shutdown [of ?c demo_params demo_flush_env "[]" ?c] by (simp add: demo_taken_def demo_engine_def)
  have d: "engine_step demo_params ?b [] ?d"
    using es_batch_end [of ?b demo_params] by (simp add: demo_taken_def demo_engine_def scanner_start_def)
  have rd: "runs (engine_step demo_params) demo_engine ?tr ?d"
    using demo_then [OF demo_then [OF demo_then [OF demo_taken_run es_signal] b] d] by simp
  obtain obs e where s: "scan_alert demo_params 5 demo_alert [] ?d = (obs, e)" by fastforce
  note late = demo_late_passes [OF s]
  have "engine_step demo_params ?d obs e"
    using s by (intro es_scan_alert) (simp_all add: demo_taken_def demo_engine_def alert_room_def)
  then have re: "runs (engine_step demo_params) demo_engine (?tr @ obs) e" using demo_then [OF rd] by blast
  have ch: "tc_channel (es_consumer e) = []" "tc_commits (es_consumer e) = [(''aigis.events.process'', 0, 41)]"
    by (simp_all add: late demo_taken_def)
  let ?e1 = "e\<lparr>es_consumer_on := False\<rparr>"
  let ?e2 = "?e1\<lparr>es_scan_pc := ScanDraining\<rparr>"
  let ?e3 = "?e2\<lparr>es_scan_pc := ScanStopped\<rparr>"
  let ?e4 = "?e3\<lparr>es_scan_pc := ScanEnded, es_consumer := (es_consumer ?e3)\<lparr>tc_channel := []\<rparr>\<rparr>"
  have "runs (engine_step demo_params) demo_engine (?tr @ obs) ?e1"
    using demo_then [OF re es_consumer_stop [OF late(5,10,8)]] by simp
  then have "runs (engine_step demo_params) demo_engine (?tr @ obs) ?e2"
    using demo_then [OF _ es_scan_shutdown [of ?e1]] late by simp
  then have "runs (engine_step demo_params) demo_engine (?tr @ obs) ?e3"
    using demo_then [OF _ es_scan_drained [of ?e2]] late ch by simp
  then have "runs (engine_step demo_params) demo_engine (?tr @ obs) ?e4"
    using demo_then [OF _ es_scan_end [of ?e3]] ch by simp
  moreover have "joined ?e4" using late by (simp add: joined_def)
  moreover have "shown obs_passed (?tr @ obs) = [demo_alert]" "shown obs_alert_lost (?tr @ obs) = [demo_alert]"
    "shown obs_batch (?tr @ obs) = []" by (simp_all add: late obs_passed_def)
  moreover have "tc_commits (es_consumer ?e4) = [(''aigis.events.process'', 0, 41)]" using ch by simp
  ultimately show ?thesis by blast
qed

section \<open>When the engine starts\<close>

lemma result_bind_is_ok: "is_ok (result_bind r f) \<longleftrightarrow> (\<exists>a. r = Inr a \<and> is_ok (f a))"
  by (cases r) simp_all

lemma is_ok_iff: "is_ok r \<longleftrightarrow> (\<exists>a. r = Inr a)"
  by (cases r) simp_all

lemma is_ok_case: "is_ok (case r of Inl e \<Rightarrow> Inl (f e) | Inr a \<Rightarrow> g a) \<longleftrightarrow> (\<exists>a. r = Inr a \<and> is_ok (g a))"
  by (cases r) simp_all

lemma dedup_new_is_ok: "is_ok (dedup_new ops n t) \<longleftrightarrow> SHARD_COUNT \<le> n"
  by (simp add: dedup_new_def Let_def SHARD_COUNT_def div_eq_0_iff)

text \<open>The engine starts exactly when the database's address is set, the taxonomy is absent or loads, every
  rule file compiles, the deduplicator has room for an entry per shard, the pool, the producers, the
  probe's socket, the consumer and its subscription are there and the channels take the configured
  capacity.\<close>

lemma engine_starts_iff:
  assumes "from_env (sw_env w) (sw_cpus w) = Inr config"
  shows "is_ok (engine_start w ops) \<longleftrightarrow>
    (sw_exists w (rc_mitre_taxonomy_path config) \<longrightarrow>
       is_ok (load_from_file (sw_parse_taxonomy w) (rc_mitre_taxonomy_path config) (sw_read w (rc_mitre_taxonomy_path config)))) \<and>
    is_ok (compile_all (sw_yara w) (rc_rules_directory config) (sw_listing w (rc_rules_directory config))) \<and>
    SHARD_COUNT \<le> rc_dedup_capacity config \<and>
    is_ok (sw_pool w (rc_database_url config) (rc_db_pool_max_size config)) \<and>
    is_ok (dlq_producer_new (sw_producer w) (rc_kafka_brokers config) (rc_dlq_topic config)) \<and>
    is_ok (alert_producer_new (sw_producer w) (rc_kafka_brokers config) (rc_alerts_topic config)) \<and>
    sw_channel w (rc_channel_capacity config) \<and> is_ok (sw_bind w (''0.0.0.0:'' @ show_nat (rc_health_port config))) \<and>
    is_ok (telemetry_consumer_new (sw_consumer w) (sw_subscribe w) (rc_kafka_brokers config) (rc_kafka_group_id config)
      (rc_kafka_topics config) (rc_dlq_topic config))"
proof -
  have dlq: "dlq_producer_new c b t = Inr x \<longleftrightarrow> is_ok (dlq_producer_new c b t) \<and> x = t" for c b t x
    by (auto simp: dlq_producer_new_def split: sum.splits)
  have al: "(\<exists>x. alert_producer_new c b t = Inr x \<and> P) \<longleftrightarrow> is_ok (alert_producer_new c b t) \<and> P" for c b t P
    by (auto simp: is_ok_iff)
  have reg: "is_ok (initial_registry c t) \<longleftrightarrow> is_ok c \<and> (case t of None \<Rightarrow> True | Some x \<Rightarrow> is_ok x)"
    for c :: "(app_error, (string \<times> 'b) list) result" and t
    by (cases c) (auto simp: initial_registry_def is_ok_iff result_bind_Inr_iff split: option.split)
  have unit: "r = Inr () \<longleftrightarrow> is_ok r" for r :: "(string, unit) result"
    by (cases r) simp_all
  show ?thesis
    unfolding engine_start_def bind_health_def start_consumer_def assms
    by (simp add: result_bind_is_ok dlq al create_pool_def flip: is_ok_iff dedup_new_is_ok [of ops _ "rc_dedup_suppression_window_secs config * 10 ^ 9"])
      (auto simp: reg taxonomy_file_def unit)
qed

end
