(* ===== verification/Schema.thy ===== *)
theory Schema
  imports ApiStore
begin

text \<open>
  The tables, as the services declare them: the fleet server (\<open>postgres-interface/src/schema.rs\<close>), the rule engine
  (\<open>rule-engine/src/db/schema.rs\<close>) and the API (\<open>api-backend/src/db/schema.rs\<close>), which reads what the others write; the columns
  of the structs each inserts, and the structs the API selects. A row between two services is its columns by name.
\<close>

section \<open>Columns\<close>

datatype sql_type = UuidT | TextT | TimestamptzT | BigIntT | Float4T | JsonbT

datatype sql_value = SqlUuid uuid | SqlText string | SqlTimestamptz timestamp | SqlBigInt i64 | SqlFloat4 f32 | SqlJsonb json | SqlNull

type_synonym sql_row = "(string \<times> sql_value) list"

record sql_column =
  cl_name :: string
  cl_type :: sql_type
  cl_nullable :: bool

record table_decl =
  tb_name :: string
  tb_key :: string
  tb_columns :: "sql_column list"

definition col :: "string \<Rightarrow> sql_type \<Rightarrow> bool \<Rightarrow> sql_column" where
  "col n t nullable = \<lparr>cl_name = n, cl_type = t, cl_nullable = nullable\<rparr>"

fun of_type :: "sql_type \<Rightarrow> sql_value \<Rightarrow> bool" where
  "of_type UuidT (SqlUuid _) = True"
| "of_type TextT (SqlText _) = True"
| "of_type TimestamptzT (SqlTimestamptz _) = True"
| "of_type BigIntT (SqlBigInt _) = True"
| "of_type Float4T (SqlFloat4 _) = True"
| "of_type JsonbT (SqlJsonb _) = True"
| "of_type _ _ = False"

definition column_takes :: "sql_column \<Rightarrow> sql_value \<Rightarrow> bool" where
  "column_takes c v \<longleftrightarrow> (if v = SqlNull then cl_nullable c else of_type (cl_type c) v)"

text \<open>A table takes an insert whose columns are its own, each once, with values of their types; the columns left out are
  those the database has defaults for.\<close>

definition takes_row :: "table_decl \<Rightarrow> sql_row \<Rightarrow> bool" where
  "takes_row t r \<longleftrightarrow> distinct (map fst r) \<and>
     list_all (\<lambda>(n, v). list_ex (\<lambda>c. cl_name c = n \<and> column_takes c v) (tb_columns t)) r"

section \<open>Declarations\<close>

definition fleet_schema :: "table_decl list" where
  "fleet_schema = [
    \<lparr>tb_name = ''nodes'', tb_key = ''node_id'', tb_columns =
     [col ''node_id'' UuidT False, col ''machine_id'' TextT False, col ''hostname'' TextT False,
      col ''os_version'' TextT False, col ''agent_version'' TextT False, col ''agent_status'' TextT False,
      col ''operator_status'' TextT False, col ''first_seen_at'' TimestamptzT False, col ''last_enrolled_at'' TimestamptzT False]\<rparr>,
    \<lparr>tb_name = ''node_health'', tb_key = ''health_id'', tb_columns =
     [col ''health_id'' UuidT False, col ''node_id'' UuidT False, col ''agent_status'' TextT False,
      col ''events_buffered'' BigIntT False, col ''recorded_at'' TimestamptzT False]\<rparr>,
    \<lparr>tb_name = ''enrollment_events'', tb_key = ''event_id'', tb_columns =
     [col ''event_id'' UuidT False, col ''node_id'' UuidT False, col ''event_type'' TextT False,
      col ''hostname'' TextT False, col ''os_version'' TextT False, col ''agent_version'' TextT False,
      col ''enrolled_at'' TimestamptzT False]\<rparr>]"

definition rule_schema :: "table_decl list" where
  "rule_schema = [
    \<lparr>tb_name = ''alerts'', tb_key = ''alert_id'', tb_columns =
     [col ''alert_id'' UuidT False, col ''node_id'' UuidT False, col ''hostname'' TextT False,
      col ''severity'' TextT False, col ''source'' TextT False, col ''mitre_technique_id'' TextT True,
      col ''mitre_tactic'' TextT True, col ''description'' TextT False, col ''triggering_event_id'' TextT True,
      col ''threat_score'' Float4T False, col ''status'' TextT False, col ''created_at'' TimestamptzT False]\<rparr>]"

definition api_schema :: "table_decl list" where
  "api_schema = [
    \<lparr>tb_name = ''nodes'', tb_key = ''node_id'', tb_columns =
     [col ''node_id'' UuidT False, col ''machine_id'' TextT False, col ''hostname'' TextT False,
      col ''os_version'' TextT False, col ''agent_version'' TextT False, col ''agent_status'' TextT False,
      col ''operator_status'' TextT False, col ''first_seen_at'' TimestamptzT False, col ''last_enrolled_at'' TimestamptzT False]\<rparr>,
    \<lparr>tb_name = ''node_health'', tb_key = ''health_id'', tb_columns =
     [col ''health_id'' UuidT False, col ''node_id'' UuidT False, col ''agent_status'' TextT False,
      col ''events_buffered'' BigIntT False, col ''recorded_at'' TimestamptzT False]\<rparr>,
    \<lparr>tb_name = ''enrollment_events'', tb_key = ''event_id'', tb_columns =
     [col ''event_id'' UuidT False, col ''node_id'' UuidT False, col ''event_type'' TextT False,
      col ''hostname'' TextT False, col ''os_version'' TextT False, col ''agent_version'' TextT False,
      col ''enrolled_at'' TimestamptzT False]\<rparr>,
    \<lparr>tb_name = ''alerts'', tb_key = ''alert_id'', tb_columns =
     [col ''alert_id'' UuidT False, col ''node_id'' UuidT False, col ''hostname'' TextT False,
      col ''severity'' TextT False, col ''source'' TextT False, col ''mitre_technique_id'' TextT True,
      col ''mitre_tactic'' TextT True, col ''description'' TextT False, col ''triggering_event_id'' TextT True,
      col ''threat_score'' Float4T False, col ''status'' TextT False, col ''created_at'' TimestamptzT False]\<rparr>,
    \<lparr>tb_name = ''event_logs'', tb_key = ''event_id'', tb_columns =
     [col ''event_id'' UuidT False, col ''node_id'' UuidT False, col ''event_type'' TextT False,
      col ''hostname'' TextT False, col ''payload'' JsonbT False, col ''raw_sequence_id'' TextT True,
      col ''recorded_at'' TimestamptzT False]\<rparr>]"

definition table_of :: "table_decl list \<Rightarrow> string \<Rightarrow> table_decl option" where
  "table_of ts n = find (\<lambda>t. tb_name t = n) ts"

section \<open>Inserts\<close>

text \<open>A \<open>DateTime<Utc>\<close> is a number of nanoseconds, a TIMESTAMPTZ one of microseconds: \<open>tz\<close> is what the driver and the database keep of a
  time on its way into the column. The documented resolution is all that is known of it: a whole microsecond, less than one away.\<close>

definition timestamptz_laws :: "(timestamp \<Rightarrow> timestamp) \<Rightarrow> bool" where
  "timestamptz_laws tz \<longleftrightarrow> (\<forall>t. 1000 dvd tz t \<and> \<bar>tz t - t\<bar> < 1000)"

text \<open>An instance: times are cut off towards the past.\<close>

definition whole_micros :: "timestamp \<Rightarrow> timestamp" where
  "whole_micros t = t div 1000 * 1000"

fun sql_opt :: "('a \<Rightarrow> sql_value) \<Rightarrow> 'a option \<Rightarrow> sql_value" where
  "sql_opt f None = SqlNull"
| "sql_opt f (Some x) = f x"

definition new_node_columns :: "node_row \<Rightarrow> sql_row" where
  "new_node_columns r =
     [(''node_id'', SqlUuid (nd_node_id r)), (''machine_id'', SqlText (nd_machine_id r)),
      (''hostname'', SqlText (nd_hostname r)), (''os_version'', SqlText (nd_os_version r)),
      (''agent_version'', SqlText (nd_agent_version r)), (''agent_status'', SqlText (nd_agent_status r)),
      (''operator_status'', SqlText (nd_operator_status r))]"

definition new_health_columns :: "(timestamp \<Rightarrow> timestamp) \<Rightarrow> health_row \<Rightarrow> sql_row" where
  "new_health_columns tz r =
     [(''health_id'', SqlUuid (nh_health_id r)), (''node_id'', SqlUuid (nh_node_id r)),
      (''agent_status'', SqlText (nh_agent_status r)), (''events_buffered'', SqlBigInt (nh_events_buffered r)),
      (''recorded_at'', SqlTimestamptz (tz (nh_recorded_at r)))]"

definition new_enrollment_columns :: "(timestamp \<Rightarrow> timestamp) \<Rightarrow> enrollment_row \<Rightarrow> sql_row" where
  "new_enrollment_columns tz r =
     [(''event_id'', SqlUuid (ee_event_id r)), (''node_id'', SqlUuid (ee_node_id r)),
      (''event_type'', SqlText (ee_event_type r)), (''hostname'', SqlText (ee_hostname r)),
      (''os_version'', SqlText (ee_os_version r)), (''agent_version'', SqlText (ee_agent_version r)),
      (''enrolled_at'', SqlTimestamptz (tz (ee_enrolled_at r)))]"

definition new_alert_columns :: "(timestamp \<Rightarrow> timestamp) \<Rightarrow> new_alert_entity \<Rightarrow> sql_row" where
  "new_alert_columns tz r =
     [(''alert_id'', SqlUuid (na_alert_id r)), (''node_id'', SqlUuid (na_node_id r)),
      (''hostname'', SqlText (na_hostname r)), (''severity'', SqlText (na_severity r)),
      (''source'', SqlText (na_source r)), (''mitre_technique_id'', sql_opt SqlText (na_mitre_technique_id r)),
      (''mitre_tactic'', sql_opt SqlText (na_mitre_tactic r)), (''description'', SqlText (na_description r)),
      (''triggering_event_id'', sql_opt SqlText (na_triggering_event_id r)), (''threat_score'', SqlFloat4 (na_threat_score r)),
      (''status'', SqlText (na_status r)), (''created_at'', SqlTimestamptz (tz (na_created_at r)))]"

definition new_log_columns :: "(timestamp \<Rightarrow> timestamp) \<Rightarrow> event_log \<Rightarrow> sql_row" where
  "new_log_columns tz r =
     [(''event_id'', SqlUuid (el_event_id r)), (''node_id'', SqlUuid (el_node_id r)),
      (''event_type'', SqlText (el_event_type r)), (''hostname'', SqlText (el_hostname r)),
      (''payload'', SqlJsonb (el_payload r)), (''raw_sequence_id'', sql_opt SqlText (el_raw_sequence_id r)),
      (''recorded_at'', SqlTimestamptz (tz (el_recorded_at r)))]"

text \<open>The two columns of a new node that the database fills in.\<close>

definition node_defaults :: "timestamp \<Rightarrow> sql_row" where
  "node_defaults now = [(''first_seen_at'', SqlTimestamptz now), (''last_enrolled_at'', SqlTimestamptz now)]"

section \<open>Selects\<close>

definition field :: "(sql_value \<Rightarrow> 'a option) \<Rightarrow> string \<Rightarrow> sql_row \<Rightarrow> 'a option" where
  "field f n r = Option.bind (map_of r n) f"

fun nullable :: "(sql_value \<Rightarrow> 'a option) \<Rightarrow> sql_value \<Rightarrow> 'a option option" where
  "nullable f SqlNull = Some None"
| "nullable f v = map_option Some (f v)"

fun as_uuid :: "sql_value \<Rightarrow> uuid option" where
  "as_uuid (SqlUuid x) = Some x"
| "as_uuid _ = None"

fun as_text :: "sql_value \<Rightarrow> string option" where
  "as_text (SqlText x) = Some x"
| "as_text _ = None"

fun as_timestamptz :: "sql_value \<Rightarrow> timestamp option" where
  "as_timestamptz (SqlTimestamptz x) = Some x"
| "as_timestamptz _ = None"

fun as_bigint :: "sql_value \<Rightarrow> i64 option" where
  "as_bigint (SqlBigInt x) = Some x"
| "as_bigint _ = None"

fun as_float4 :: "sql_value \<Rightarrow> f32 option" where
  "as_float4 (SqlFloat4 x) = Some x"
| "as_float4 _ = None"

fun as_jsonb :: "sql_value \<Rightarrow> json option" where
  "as_jsonb (SqlJsonb x) = Some x"
| "as_jsonb _ = None"

definition node_entity :: "sql_row \<Rightarrow> node_row option" where
  "node_entity r =
     Option.bind (field as_uuid ''node_id'' r) (\<lambda>x0.
     Option.bind (field as_text ''machine_id'' r) (\<lambda>x1.
     Option.bind (field as_text ''hostname'' r) (\<lambda>x2.
     Option.bind (field as_text ''os_version'' r) (\<lambda>x3.
     Option.bind (field as_text ''agent_version'' r) (\<lambda>x4.
     Option.bind (field as_text ''agent_status'' r) (\<lambda>x5.
     Option.bind (field as_text ''operator_status'' r) (\<lambda>x6.
     Option.bind (field as_timestamptz ''first_seen_at'' r) (\<lambda>x7.
     Option.bind (field as_timestamptz ''last_enrolled_at'' r) (\<lambda>x8.
     Some \<lparr>nd_node_id = x0, nd_machine_id = x1, nd_hostname = x2, nd_os_version = x3,
       nd_agent_version = x4, nd_agent_status = x5, nd_operator_status = x6, nd_first_seen_at = x7,
       nd_last_enrolled_at = x8\<rparr>)))))))))"

definition health_entity :: "sql_row \<Rightarrow> health_row option" where
  "health_entity r =
     Option.bind (field as_uuid ''health_id'' r) (\<lambda>x0.
     Option.bind (field as_uuid ''node_id'' r) (\<lambda>x1.
     Option.bind (field as_text ''agent_status'' r) (\<lambda>x2.
     Option.bind (field as_bigint ''events_buffered'' r) (\<lambda>x3.
     Option.bind (field as_timestamptz ''recorded_at'' r) (\<lambda>x4.
     Some \<lparr>nh_health_id = x0, nh_node_id = x1, nh_agent_status = x2, nh_events_buffered = x3,
       nh_recorded_at = x4\<rparr>)))))"

definition alert_entity :: "sql_row \<Rightarrow> new_alert_entity option" where
  "alert_entity r =
     Option.bind (field as_uuid ''alert_id'' r) (\<lambda>x0.
     Option.bind (field as_uuid ''node_id'' r) (\<lambda>x1.
     Option.bind (field as_text ''hostname'' r) (\<lambda>x2.
     Option.bind (field as_text ''severity'' r) (\<lambda>x3.
     Option.bind (field as_text ''source'' r) (\<lambda>x4.
     Option.bind (field (nullable as_text) ''mitre_technique_id'' r) (\<lambda>x5.
     Option.bind (field (nullable as_text) ''mitre_tactic'' r) (\<lambda>x6.
     Option.bind (field as_text ''description'' r) (\<lambda>x7.
     Option.bind (field (nullable as_text) ''triggering_event_id'' r) (\<lambda>x8.
     Option.bind (field as_float4 ''threat_score'' r) (\<lambda>x9.
     Option.bind (field as_text ''status'' r) (\<lambda>x10.
     Option.bind (field as_timestamptz ''created_at'' r) (\<lambda>x11.
     Some \<lparr>na_alert_id = x0, na_node_id = x1, na_hostname = x2, na_severity = x3,
       na_source = x4, na_mitre_technique_id = x5, na_mitre_tactic = x6, na_description = x7,
       na_triggering_event_id = x8, na_threat_score = x9, na_status = x10, na_created_at = x11\<rparr>))))))))))))"

definition log_entity :: "sql_row \<Rightarrow> event_log option" where
  "log_entity r =
     Option.bind (field as_uuid ''event_id'' r) (\<lambda>x0.
     Option.bind (field as_uuid ''node_id'' r) (\<lambda>x1.
     Option.bind (field as_text ''event_type'' r) (\<lambda>x2.
     Option.bind (field as_text ''hostname'' r) (\<lambda>x3.
     Option.bind (field as_jsonb ''payload'' r) (\<lambda>x4.
     Option.bind (field (nullable as_text) ''raw_sequence_id'' r) (\<lambda>x5.
     Option.bind (field as_timestamptz ''recorded_at'' r) (\<lambda>x6.
     Some \<lparr>el_event_id = x0, el_node_id = x1, el_event_type = x2, el_hostname = x3,
       el_payload = x4, el_raw_sequence_id = x5, el_recorded_at = x6\<rparr>)))))))"

section \<open>Agreement\<close>

text \<open>What the fleet server and the rule engine declare, the API declares the same.\<close>

lemma schemas_agree: "set fleet_schema \<union> set rule_schema \<subseteq> set api_schema"
  by (simp add: fleet_schema_def rule_schema_def api_schema_def)

lemma sql_opt_null: "sql_opt SqlText x = SqlNull \<longleftrightarrow> x = None"
  by (cases x) simp_all

lemma nullable_text [simp]: "nullable as_text (sql_opt SqlText x) = Some x"
  by (cases x) simp_all

lemma takes_text_opt: "column_takes (col n TextT True) (sql_opt SqlText x)"
  by (cases x) (simp_all add: column_takes_def col_def)

lemma takes_value: "v \<noteq> SqlNull \<Longrightarrow> column_takes (col n t b) v = of_type t v"
  by (simp add: column_takes_def col_def)

lemma cl_name_col [simp]: "cl_name (col n t b) = n"
  by (simp add: col_def)

lemmas row_defs = new_node_columns_def new_health_columns_def new_enrollment_columns_def new_alert_columns_def new_log_columns_def
  node_defaults_def

lemma inserts_fit:
  "takes_row (the (table_of fleet_schema ''nodes'')) (new_node_columns n)"
  "takes_row (the (table_of fleet_schema ''node_health'')) (new_health_columns tz h)"
  "takes_row (the (table_of fleet_schema ''enrollment_events'')) (new_enrollment_columns tz v)"
  "takes_row (the (table_of rule_schema ''alerts'')) (new_alert_columns tz a)"
  "takes_row (the (table_of api_schema ''event_logs'')) (new_log_columns tz l)"
  by (simp_all add: table_of_def fleet_schema_def rule_schema_def api_schema_def takes_row_def row_defs takes_text_opt takes_value)

lemma whole_micros_laws: "timestamptz_laws whole_micros"
proof -
  have "\<bar>t div 1000 * 1000 - t\<bar> < 1000" for t :: int
    using div_mult_mod_eq [of t 1000] pos_mod_bound [of 1000 t] pos_mod_sign [of 1000 t] by linarith
  then show ?thesis by (simp add: timestamptz_laws_def whole_micros_def)
qed

text \<open>A time that has been in a column stays as it is when it is stored again.\<close>

lemma timestamptz_idem:
  assumes "timestamptz_laws tz"
  shows "tz (tz t) = tz t"
proof -
  have "1000 dvd tz (tz t) - tz t" "\<bar>tz (tz t) - tz t\<bar> < 1000" using assms by (simp_all add: timestamptz_laws_def)
  then show ?thesis by (metis dvd_imp_le_int abs_numeral eq_iff_diff_eq_0 not_le)
qed

text \<open>What a select reads of an insert: everything, the times as their column keeps them.\<close>

lemma selects_read_inserts:
  "node_entity (new_node_columns n @ node_defaults now) = Some (n\<lparr>nd_first_seen_at := now, nd_last_enrolled_at := now\<rparr>)"
  "health_entity (new_health_columns tz h) = Some (h\<lparr>nh_recorded_at := tz (nh_recorded_at h)\<rparr>)"
  "alert_entity (new_alert_columns tz a) = Some (a\<lparr>na_created_at := tz (na_created_at a)\<rparr>)"
  "log_entity (new_log_columns tz l) = Some (l\<lparr>el_recorded_at := tz (el_recorded_at l)\<rparr>)"
  by (simp_all add: node_entity_def health_entity_def alert_entity_def log_entity_def row_defs field_def)

end
