(* ===== verification/ApiLive.thy ===== *)
theory ApiLive
  imports Schema
begin

text \<open>
  The live side of the operators' service, \<open>api-backend/src\<close>: the consumer that turns messages of the
  broker into live events and log rows, with the worker that persists the rows in batches
  (\<open>kafka/consumer.rs\<close>), and the sessions that stream live events to the dashboards
  (\<open>handlers/ws.rs\<close>, \<open>models/ws.rs\<close>).

  The parsing of JSON text and of UUIDs, the clocks and the fresh ids are arguments; a loop is a function
  of the items that wake it. The trait \<open>LogRepository\<close> is the locale \<open>log_repository\<close>, in which the worker's
  lemmas are proved; it is interpreted on \<open>DieselLogRepository\<close>.
\<close>

section \<open>Live events\<close>

datatype live_event =
    LiveLog string string string json int  \<comment> \<open>node, hostname, type, payload, nanoseconds\<close>
  | LiveAlert string string string string "string option" string f32 int
    \<comment> \<open>id, node, hostname, severity, technique, description, score, nanoseconds\<close>
  | LiveHeartbeat string string int int  \<comment> \<open>node, status, events buffered, nanoseconds\<close>

fun as_f64 :: "json \<Rightarrow> f64 option" where
  "as_f64 (JInt i) = Some (int_as_f64 i)"
| "as_f64 (JFloat f) = Some f"
| "as_f64 _ = None"

text \<open>The lookups of \<open>parse_log_entity\<close>: under several keys, at the top and in the payload. The parser of live events spells out its own.\<close>

definition node_id_value :: "json \<Rightarrow> json option" where
  "node_id_value v = or_else (jget ''node_id'' v) (or_else (jget ''agent_uuid'' v)
     (Option.bind (jget ''payload'' v) (\<lambda>p. or_else (jget ''agent_uuid'' p) (jget ''node_id'' p))))"

definition event_type_value :: "json \<Rightarrow> json option" where
  "event_type_value v = or_else (jget ''event_type'' v) (or_else (jget ''query_name'' v)
     (Option.bind (jget ''payload'' v) (\<lambda>p. or_else (jget ''query_name'' p) (jget ''event_type'' p))))"

definition hostname_value :: "json \<Rightarrow> json option" where
  "hostname_value v = or_else (jget ''hostname'' v) (Option.bind (jget ''payload'' v) (jget ''hostname''))"

definition timestamp_value :: "json \<Rightarrow> int option" where
  "timestamp_value v = Option.bind (or_else (jget ''timestamp_ns'' v) (Option.bind (jget ''payload'' v) (jget ''timestamp_ns''))) as_i64"

definition nonempty_or_unknown :: "string option \<Rightarrow> string" where
  "nonempty_or_unknown s = (case s of None \<Rightarrow> ''unknown'' | Some t \<Rightarrow> if t = [] then ''unknown'' else t)"

text \<open>\<open>fresh\<close> and \<open>now\<close> are \<open>Uuid::new_v4()\<close> and the clock, where the message has none. Each parser reads the clock for itself.\<close>

definition parse_log_entity :: "(bytes \<Rightarrow> json option) \<Rightarrow> (string \<Rightarrow> uuid option) \<Rightarrow> uuid \<Rightarrow> timestamp \<Rightarrow> string \<Rightarrow> bytes
    \<Rightarrow> event_log option" where
  "parse_log_entity from_slice uuid_parse fresh now topic payload =
     (if \<not> starts_with ''aigis.events'' topic then None
      else Option.bind (from_slice payload) (\<lambda>v.
        Option.bind (Option.bind (node_id_value v) as_str) (\<lambda>node_id_str.
        Option.bind (uuid_parse node_id_str) (\<lambda>node_id.
          Some \<lparr>el_event_id = unwrap_or fresh (Option.bind (Option.bind (or_else (jget ''id'' v) (jget ''event_id'' v)) as_str) uuid_parse),
                el_node_id = node_id,
                el_event_type = unwrap_or ''unknown'' (Option.bind (event_type_value v) as_str),
                el_hostname = nonempty_or_unknown (Option.bind (hostname_value v) as_str),
                el_payload = unwrap_or v (jget ''payload'' v),
                el_raw_sequence_id = Option.bind (or_else (jget ''raw_sequence_id'' v) (or_else (jget ''sequence_id'' v)
                  (Option.bind (jget ''payload'' v) (jget ''sequence_id'')))) as_str,
                el_recorded_at = unwrap_or now (timestamp_value v)\<rparr>))))"

definition parse_live_log :: "int \<Rightarrow> json \<Rightarrow> live_event" where
  "parse_live_log now v =
     (let node_id = unwrap_or ''unknown'' (Option.bind (or_else (jget ''node_id'' v) (or_else (jget ''agent_uuid'' v)
            (Option.bind (jget ''payload'' v) (\<lambda>p. or_else (jget ''agent_uuid'' p) (jget ''node_id'' p))))) as_str);
          hostname = (case Option.bind (or_else (jget ''hostname'' v) (Option.bind (jget ''payload'' v) (jget ''hostname''))) as_str of
              Some h \<Rightarrow> if h \<noteq> [] then h else ''unknown''
            | None \<Rightarrow> ''unknown'');
          event_type = unwrap_or ''unknown'' (Option.bind (or_else (jget ''event_type'' v) (or_else (jget ''query_name'' v)
            (Option.bind (jget ''payload'' v) (\<lambda>p. or_else (jget ''query_name'' p) (jget ''event_type'' p))))) as_str);
          timestamp_ns = unwrap_or now (Option.bind (or_else (jget ''timestamp_ns'' v)
            (Option.bind (jget ''payload'' v) (jget ''timestamp_ns''))) as_i64)
      in LiveLog node_id hostname event_type (unwrap_or v (jget ''payload'' v)) timestamp_ns)"

definition str_or_empty :: "json option \<Rightarrow> string" where
  "str_or_empty v = unwrap_or [] (Option.bind v as_str)"

definition parse_live_alert :: "int \<Rightarrow> json \<Rightarrow> live_event" where
  "parse_live_alert now v = LiveAlert
     (str_or_empty (or_else (jget ''alert_id'' v) (jget ''id'' v)))
     (str_or_empty (or_else (jget ''node_id'' v) (jget ''agent_uuid'' v)))
     (str_or_empty (or_else (jget ''hostname'' v) (Option.bind (jget ''payload'' v) (jget ''hostname''))))
     (unwrap_or ''medium'' (get_str ''severity'' v))
     (get_str ''mitre_technique_id'' v)
     (str_or_empty (jget ''description'' v))
     (unwrap_or f32_five (map_option f64_as_f32 (Option.bind (jget ''threat_score'' v) as_f64)))
     (unwrap_or now (Option.bind (or_else (jget ''timestamp_ns'' v) (Option.bind (jget ''payload'' v) (jget ''timestamp_ns''))) as_i64))"

definition parse_live_heartbeat :: "int \<Rightarrow> json \<Rightarrow> live_event" where
  "parse_live_heartbeat now v = LiveHeartbeat
     (str_or_empty (or_else (jget ''node_id'' v) (jget ''agent_uuid'' v)))
     (unwrap_or ''healthy'' (Option.bind (or_else (jget ''agent_status'' v) (jget ''status'' v)) as_str))
     (unwrap_or 0 (Option.bind (jget ''events_buffered'' v) as_i64))
     (unwrap_or now (Option.bind (or_else (jget ''timestamp_ns'' v) (Option.bind (jget ''payload'' v) (jget ''timestamp_ns''))) as_i64))"

text \<open>\<open>from_live\<close> is \<open>from_slice\<close> at the type of live events.\<close>

definition parse_kafka_message :: "(bytes \<Rightarrow> live_event option) \<Rightarrow> (bytes \<Rightarrow> json option) \<Rightarrow> int \<Rightarrow> string \<Rightarrow> bytes
    \<Rightarrow> live_event option" where
  "parse_kafka_message from_live from_slice now topic payload =
     (case from_live payload of
        Some direct_event \<Rightarrow> Some direct_event
      | None \<Rightarrow> Option.bind (from_slice payload) (\<lambda>v.
          if starts_with ''aigis.events'' topic then Some (parse_live_log now v)
          else if topic = ''aigis.alerts'' then Some (parse_live_alert now v)
          else if topic = ''aigis.health'' then Some (parse_live_heartbeat now v)
          else None))"

section \<open>The consumer\<close>

definition LIVE_TOPICS :: "string list" where
  "LIVE_TOPICS = [''aigis.events.raw'', ''aigis.events.norm'', ''aigis.events.process'', ''aigis.events.network'',
     ''aigis.events.file'', ''aigis.events.auth'', ''aigis.alerts'', ''aigis.health'']"

record live_deps =
  ld_from_live :: "bytes \<Rightarrow> live_event option"
  ld_from_slice :: "bytes \<Rightarrow> json option"
  ld_uuid_parse :: "string \<Rightarrow> uuid option"

record live_state =
  lv_broadcast :: "live_event list"  \<comment> \<open>sent to the sessions\<close>
  lv_persist :: "event_log list"  \<comment> \<open>queued for the worker\<close>

text \<open>With a message: the clock as the live event is made, a fresh id, the clock as the row is made, and whether the worker's channel has room (\<open>try_send\<close>).\<close>

datatype live_item = LiveShutdown | LiveMessage string "bytes option" timestamp uuid timestamp bool | LiveError string

fun live_consume :: "live_deps \<Rightarrow> live_item list \<Rightarrow> live_state \<Rightarrow> live_state" where
  "live_consume d [] s = s"
| "live_consume d (LiveShutdown # items) s = s"
| "live_consume d (LiveError e # items) s = live_consume d items s"
| "live_consume d (LiveMessage topic payload_opt shown_at fresh now room # items) s =
     live_consume d items
       (case payload_opt of
          None \<Rightarrow> s
        | Some payload \<Rightarrow>
            (let s1 = (case parse_kafka_message (ld_from_live d) (ld_from_slice d) shown_at topic payload of
                   None \<Rightarrow> s
                 | Some event \<Rightarrow> s\<lparr>lv_broadcast := lv_broadcast s @ [event]\<rparr>)
             in case parse_log_entity (ld_from_slice d) (ld_uuid_parse d) fresh now topic payload of
                  None \<Rightarrow> s1
                | Some l \<Rightarrow> if room then s1\<lparr>lv_persist := lv_persist s1 @ [l]\<rparr> else s1))"

section \<open>The worker\<close>

datatype 'e persist_item = PersistLog event_log 'e | PersistTick 'e | PersistShutdown 'e | PersistClosed 'e

definition BATCH_LEN :: nat where "BATCH_LEN = 50"

text \<open>The loop over the items, with the batches it hands to the repository and whether they were
  taken; the batch is dropped with the task.\<close>

fun persist_run :: "('e \<Rightarrow> event_log list \<Rightarrow> 's \<Rightarrow> (api_error, unit) result \<times> 's) \<Rightarrow> 'e persist_item list
    \<Rightarrow> event_log list \<Rightarrow> 's \<Rightarrow> (event_log list \<times> bool) list \<times> event_log list \<times> 's" where
  "persist_run ins [] batch s = ([], batch, s)"
| "persist_run ins (PersistShutdown env # items) batch s =
     (if batch \<noteq> [] then (case ins env batch s of (r, s1) \<Rightarrow> ([(batch, is_ok r)], [], s1)) else ([], [], s))"
| "persist_run ins (PersistClosed env # items) batch s =
     (if batch \<noteq> [] then (case ins env batch s of (r, s1) \<Rightarrow> ([(batch, is_ok r)], [], s1)) else ([], [], s))"
| "persist_run ins (PersistTick env # items) batch s =
     (if batch \<noteq> []
      then (case ins env batch s of (r, s1) \<Rightarrow>
              (case persist_run ins items [] s1 of (bs, rest) \<Rightarrow> ((batch, is_ok r) # bs, rest)))
      else persist_run ins items batch s)"
| "persist_run ins (PersistLog l env # items) batch s =
     (let batch' = batch @ [l] in
      if BATCH_LEN \<le> length batch'
      then (case ins env batch' s of (r, s1) \<Rightarrow>
              (case persist_run ins items [] s1 of (bs, rest) \<Rightarrow> ((batch', is_ok r) # bs, rest)))
      else persist_run ins items batch' s)"

section \<open>Sessions\<close>

datatype ws_client_message = Subscribe "string list option" "string option" | WsPing

datatype ws_server_message = WsPong int | Subscribed "string list" "string option" | WsError string

definition parse_topics :: "string option \<Rightarrow> string list" where
  "parse_topics topics = (case topics of
     Some t \<Rightarrow> map (\<lambda>s. to_lowercase (trim s)) (split_on (CHR '','') t)
   | None \<Rightarrow> [''logs'', ''alerts'', ''heartbeats''])"

fun event_topic :: "live_event \<Rightarrow> string" where
  "event_topic (LiveLog _ _ _ _ _) = ''logs''"
| "event_topic (LiveAlert _ _ _ _ _ _ _ _) = ''alerts''"
| "event_topic (LiveHeartbeat _ _ _ _) = ''heartbeats''"

fun event_node :: "live_event \<Rightarrow> string" where
  "event_node (LiveLog n _ _ _ _) = n"
| "event_node (LiveAlert _ n _ _ _ _ _ _) = n"
| "event_node (LiveHeartbeat n _ _ _) = n"

definition matches_filter :: "live_event \<Rightarrow> string option \<Rightarrow> string list \<Rightarrow> bool" where
  "matches_filter event target_node topics =
     (if topics \<noteq> [] \<and> \<not> list_ex (\<lambda>t. t = event_topic event \<or> t = ''all'') topics then False
      else if (case target_node of None \<Rightarrow> False | Some target \<Rightarrow> target \<noteq> event_node event) then False
      else True)"

text \<open>What goes out: the texts, pings and pongs.\<close>

datatype ws_frame = EventFrame live_event | ServerFrame ws_server_message | PingFrame | PongFrame bytes

text \<open>What wakes a session. With a broadcast event: whether it prints and whether the frame is taken; a text
  of the client is its parsed command, if any, with the clock and whether the answer prints and is taken.\<close>

datatype ws_item =
    WsEvent live_event bool bool
  | WsLagged nat
  | WsBroadcastClosed
  | WsClientClose
  | WsClientText "ws_client_message option" int bool
  | WsClientPing bytes bool
  | WsClientError string
  | WsClientOther
  | WsTick bool

fun ws_run :: "ws_item list \<Rightarrow> string option \<Rightarrow> string list \<Rightarrow> ws_frame list" where
  "ws_run [] node topics = []"
| "ws_run (WsEvent event prints sent # items) node topics =
     (if matches_filter event node topics \<and> prints
      then (if sent then EventFrame event # ws_run items node topics else [])
      else ws_run items node topics)"
| "ws_run (WsLagged n # items) node topics = ws_run items node topics"
| "ws_run (WsBroadcastClosed # items) node topics = []"
| "ws_run (WsClientClose # items) node topics = []"
| "ws_run (WsClientText cmd now sent # items) node topics =
     (case cmd of
        None \<Rightarrow> ws_run items node topics
      | Some (Subscribe ts node_id) \<Rightarrow>
          (let topics' = unwrap_or topics ts in
           (if sent then [ServerFrame (Subscribed topics' node_id)] else []) @ ws_run items node_id topics')
      | Some WsPing \<Rightarrow> (if sent then [ServerFrame (WsPong now)] else []) @ ws_run items node topics)"
| "ws_run (WsClientPing payload sent # items) node topics =
     (if sent then PongFrame payload # ws_run items node topics else [])"
| "ws_run (WsClientError e # items) node topics = []"
| "ws_run (WsClientOther # items) node topics = ws_run items node topics"
| "ws_run (WsTick sent # items) node topics = (if sent then PingFrame # ws_run items node topics else [])"

definition handle_socket :: "string option \<Rightarrow> string option \<Rightarrow> ws_item list \<Rightarrow> ws_frame list" where
  "handle_socket query_topics query_node items = ws_run items query_node (parse_topics query_topics)"

section \<open>The interface of the log repository\<close>

definition taken_logs :: "(event_log list \<times> bool) list \<Rightarrow> event_log list" where
  "taken_logs bs = concat (map fst (filter snd bs))"

lemma taken_logs_simps [simp]:
  "taken_logs [] = []" "taken_logs ((b, ok) # bs) = (if ok then b else []) @ taken_logs bs"
  by (simp_all add: taken_logs_def)

text \<open>An insert that answers Ok stores every row of the batch under its id, any other stores none.\<close>

locale log_repository =
  fixes insert_batch :: "'e \<Rightarrow> event_log list \<Rightarrow> 's \<Rightarrow> (api_error, unit) result \<times> 's"
    and ids :: "'s \<Rightarrow> uuid set"
  assumes insert_ids: "insert_batch e logs s = (r, s') \<Longrightarrow> ids s' = ids s \<union> (if is_ok r then el_event_id ` set logs else {})"
begin

lemma persist_run_ids:
  "ids (snd (snd (persist_run insert_batch items batch s))) =
     ids s \<union> el_event_id ` set (taken_logs (fst (persist_run insert_batch items batch s)))"
proof (induction items arbitrary: batch s)
  case (Cons item items)
  show ?case
  proof (cases item)
    case (PersistLog l env)
    obtain r s1 where i: "insert_batch env (batch @ [l]) s = (r, s1)" by fastforce
    show ?thesis
      using Cons [of "[]" s1] Cons [of "batch @ [l]" s] insert_ids [OF i]
      by (cases "is_ok r") (auto simp: PersistLog i Let_def image_Un split: prod.split)
  next
    case (PersistTick env)
    obtain r s1 where i: "insert_batch env batch s = (r, s1)" by fastforce
    show ?thesis
      using Cons [of "[]" s1] Cons [of batch s] insert_ids [OF i]
      by (cases "is_ok r") (auto simp: PersistTick i image_Un split: prod.split)
  next
    case (PersistShutdown env)
    obtain r s1 where i: "insert_batch env batch s = (r, s1)" by fastforce
    show ?thesis using insert_ids [OF i] by (auto simp: PersistShutdown i)
  next
    case (PersistClosed env)
    obtain r s1 where i: "insert_batch env batch s = (r, s1)" by fastforce
    show ?thesis using insert_ids [OF i] by (auto simp: PersistClosed i)
  qed
qed simp

end

lemma fold_insert_log_ids: "el_event_id ` set (fold insert_log ls rows) = el_event_id ` set rows \<union> el_event_id ` set ls"
  by (induction ls arbitrary: rows) (auto simp: insert_log_def)

definition log_ids :: "event_log list \<Rightarrow> uuid set" where
  "log_ids rows = el_event_id ` set rows"

interpretation logs: log_repository logs_insert_batch log_ids
  by unfold_locales
    (auto simp: logs_insert_batch_def log_ids_def fold_insert_log_ids split: if_splits sum.splits option.splits)

section \<open>Properties\<close>

fun persist_received :: "'e persist_item list \<Rightarrow> event_log list" where
  "persist_received [] = []"
| "persist_received (PersistShutdown _ # items) = []"
| "persist_received (PersistClosed _ # items) = []"
| "persist_received (PersistTick _ # items) = persist_received items"
| "persist_received (PersistLog l _ # items) = l # persist_received items"

lemma persist_run_conserves:
  "concat (map fst (fst (persist_run ins items batch s))) @ fst (snd (persist_run ins items batch s)) =
     batch @ persist_received items"
  by (induction ins items batch s rule: persist_run.induct) (auto simp: Let_def split: prod.splits)

lemma persist_run_bound:
  "length batch < BATCH_LEN \<Longrightarrow>
     list_all (\<lambda>p. fst p \<noteq> [] \<and> length (fst p) \<le> BATCH_LEN) (fst (persist_run ins items batch s))"
  by (induction ins items batch s rule: persist_run.induct) (auto simp: Let_def BATCH_LEN_def split: prod.splits)

text \<open>Log persistence keeps what it receives: whatever wakes the worker and whatever the database answers,
  the batches it writes, followed by what it still holds, are the rows it received in order; a batch has
  between 1 and 50 rows; afterwards the table has the ids it had and those of every batch that was taken.\<close>

lemma log_worker_conserves:
  "concat (map fst (fst (persist_run logs_insert_batch items [] rows))) @ fst (snd (persist_run logs_insert_batch items [] rows)) =
     persist_received items \<and>
   list_all (\<lambda>p. fst p \<noteq> [] \<and> length (fst p) \<le> 50) (fst (persist_run logs_insert_batch items [] rows)) \<and>
   log_ids (snd (snd (persist_run logs_insert_batch items [] rows))) =
     log_ids rows \<union> el_event_id ` set (taken_logs (fst (persist_run logs_insert_batch items [] rows)))"
  using persist_run_conserves [of logs_insert_batch items "[]" rows]
    persist_run_bound [of "[]" logs_insert_batch items rows] logs.persist_run_ids [of items "[]" rows]
  by (simp add: BATCH_LEN_def)

text \<open>The lookups of the two parsers look in the same places.\<close>

lemma live_lookups:
  "or_else (jget ''node_id'' v) (or_else (jget ''agent_uuid'' v)
     (Option.bind (jget ''payload'' v) (\<lambda>p. or_else (jget ''agent_uuid'' p) (jget ''node_id'' p)))) = node_id_value v"
  "or_else (jget ''event_type'' v) (or_else (jget ''query_name'' v)
     (Option.bind (jget ''payload'' v) (\<lambda>p. or_else (jget ''query_name'' p) (jget ''event_type'' p)))) = event_type_value v"
  "or_else (jget ''hostname'' v) (Option.bind (jget ''payload'' v) (jget ''hostname'')) = hostname_value v"
  "Option.bind (or_else (jget ''timestamp_ns'' v) (Option.bind (jget ''payload'' v) (jget ''timestamp_ns''))) as_i64 = timestamp_value v"
  "(case h of Some h \<Rightarrow> if h \<noteq> [] then h else ''unknown'' | None \<Rightarrow> ''unknown'') = nonempty_or_unknown h"
  by (simp_all add: node_id_value_def event_type_value_def hostname_value_def timestamp_value_def nonempty_or_unknown_def split: option.split)

text \<open>C38: the live view and the stored log agree: a message that becomes a log row and is not itself a printed live event is broadcast as
  a log event with the host, type and payload that a select reads of the row, for a node whose id is the row's; and, where the message
  brings its time, with that time, of which the column keeps the microseconds. Where it brings none, each of the two has its own
  reading of the clock.\<close>

theorem live_view_matches_log:
  assumes "ld_from_live d payload = None" and "timestamptz_laws tz"
    and "parse_log_entity (ld_from_slice d) (ld_uuid_parse d) fresh now topic payload = Some l"
  shows "\<exists>node v t stored. log_entity (new_log_columns tz l) = Some stored \<and>
     parse_kafka_message (ld_from_live d) (ld_from_slice d) shown_at topic payload =
       Some (LiveLog node (el_hostname stored) (el_event_type stored) (el_payload stored) t) \<and>
     ld_uuid_parse d node = Some (el_node_id stored) \<and> ld_from_slice d payload = Some v \<and>
     (case timestamp_value v of
        Some ns \<Rightarrow> t = ns \<and> \<bar>el_recorded_at stored - ns\<bar> < 1000
      | None \<Rightarrow> t = shown_at \<and> \<bar>el_recorded_at stored - now\<bar> < 1000)"
proof -
  have t: "starts_with ''aigis.events'' topic" using assms(3) by (auto simp: parse_log_entity_def split: if_splits)
  then obtain v node i where v: "ld_from_slice d payload = Some v" "node_id_value v = Some (JString node)"
      "ld_uuid_parse d node = Some i" and
    l: "el_node_id l = i" "el_event_type l = unwrap_or ''unknown'' (Option.bind (event_type_value v) as_str)"
      "el_hostname l = nonempty_or_unknown (Option.bind (hostname_value v) as_str)"
      "el_payload l = unwrap_or v (jget ''payload'' v)" "el_recorded_at l = unwrap_or now (timestamp_value v)"
    using assms(3) by (auto simp: parse_log_entity_def bind_eq_Some_conv)
  have "parse_live_log shown_at v = LiveLog node (el_hostname l) (el_event_type l) (el_payload l) (unwrap_or shown_at (timestamp_value v))"
    using v(2) l unfolding parse_live_log_def Let_def live_lookups by simp
  then show ?thesis
    using assms(1,2) t v l by (auto simp: parse_kafka_message_def selects_read_inserts timestamptz_laws_def split: option.split)
qed

definition sample_live_deps :: live_deps where
  "sample_live_deps = \<lparr>ld_from_live = (\<lambda>_. None),
     ld_from_slice = (\<lambda>b. Some (JObject [(''agent_uuid'', JString ''u1''), (''query_name'', JString ''processes''), (''timestamp_ns'', JInt 7)])),
     ld_uuid_parse = (\<lambda>s. if s = ''u1'' then Some 1 else None)\<rparr>"

theorem live_view_matches_log_witness:
  "\<exists>node. parse_kafka_message (ld_from_live sample_live_deps) (ld_from_slice sample_live_deps) 98 ''aigis.events.raw'' ''{}'' =
       Some (LiveLog node ''unknown'' ''processes'' (the (ld_from_slice sample_live_deps ''{}'')) 7) \<and>
     ld_uuid_parse sample_live_deps node = Some 1"
  using live_view_matches_log [of sample_live_deps "''{}''" whole_micros 5 99 "''aigis.events.raw''"
      "\<lparr>el_event_id = 5, el_node_id = 1, el_event_type = ''processes'', el_hostname = ''unknown'',
        el_payload = the (ld_from_slice sample_live_deps ''{}''), el_raw_sequence_id = None, el_recorded_at = 7\<rparr>" 98]
  by (simp add: sample_live_deps_def parse_log_entity_def starts_with_def node_id_value_def event_type_value_def
      hostname_value_def timestamp_value_def nonempty_or_unknown_def whole_micros_laws selects_read_inserts)
    (auto split: if_splits)

lemma matches_filter_iff:
  "matches_filter event node topics \<longleftrightarrow>
     (topics = [] \<or> event_topic event \<in> set topics \<or> ''all'' \<in> set topics) \<and> (node = None \<or> node = Some (event_node event))"
  by (auto simp: matches_filter_def list_ex_iff split: option.splits)

definition wants :: "string option \<Rightarrow> string list \<Rightarrow> live_event \<Rightarrow> bool" where
  "wants node topics event \<longleftrightarrow>
     (topics = [] \<or> event_topic event \<in> set topics \<or> ''all'' \<in> set topics) \<and> (node = None \<or> node = Some (event_node event))"

lemma ws_run_events:
  "ws_run (map (\<lambda>e. WsEvent e True True) es @ items) node topics =
     map EventFrame (filter (wants node topics) es) @ ws_run items node topics"
  by (induction es) (simp_all add: matches_filter_iff wants_def)

text \<open>A session shows what it subscribed to, all of it and in order: of the events broadcast, a client
  that keeps up gets exactly those of its topics (every topic where it named none or \<open>all\<close>) and of its
  node, if it named one; a subscription changes the filter for exactly the events after it: the topics
  where it names some, and the node in any case.\<close>

lemma ws_session_filters:
  "handle_socket query_topics query_node
     (map (\<lambda>e. WsEvent e True True) es @ WsClientText (Some (Subscribe ts node)) now True # map (\<lambda>e. WsEvent e True True) es') =
   map EventFrame (filter (wants query_node (parse_topics query_topics)) es) @
   ServerFrame (Subscribed (unwrap_or (parse_topics query_topics) ts) node) #
   map EventFrame (filter (wants node (unwrap_or (parse_topics query_topics) ts)) es')"
  using ws_run_events [of es' "[]" node "unwrap_or (parse_topics query_topics) ts"]
  by (simp add: handle_socket_def ws_run_events Let_def)

end
