(* ===== verification/ApiServer.thy ===== *)
theory ApiServer
  imports ApiLive
begin

text \<open>
  The operators' service as an HTTP server, \<open>api-backend/src\<close>: the table of routes (\<open>routes\<close>), what a
  handler extracts from a request and in which order, the envelope of its answers (\<open>handlers\<close>, with the
  derived serialization of \<open>models\<close>), and the start (\<open>main.rs\<close>, \<open>state.rs\<close>, \<open>db/mod.rs\<close>).

  Finding the route of a path and parsing a path, a query or a body are the framework's: a request comes
  with its route and with what each extractor gives, a value or the framework's rejection.
\<close>

section \<open>Routes\<close>

datatype http_method = GET | POST | PATCH

datatype api_route =
    RouteLogin | RouteMe | RouteListNodes | RouteGetNode | RouteIsolateNode | RouteUnisolateNode
  | RouteListAlerts | RouteGetAlert | RouteUpdateAlertStatus | RouteSearchLogs | RouteGetLog
  | RouteWs | RouteHealthz | RouteReadyz

type_synonym route_table = "(http_method \<times> string \<times> api_route) list"

definition auth_routes :: route_table where
  "auth_routes = [(POST, ''/login'', RouteLogin), (GET, ''/me'', RouteMe)]"

definition node_routes :: route_table where
  "node_routes = [(GET, ''/'', RouteListNodes), (GET, ''/{id}'', RouteGetNode), (POST, ''/{id}/isolate'', RouteIsolateNode),
     (POST, ''/{id}/unisolate'', RouteUnisolateNode)]"

definition alert_routes :: route_table where
  "alert_routes = [(GET, ''/'', RouteListAlerts), (GET, ''/{id}'', RouteGetAlert), (PATCH, ''/{id}/status'', RouteUpdateAlertStatus)]"

definition log_routes :: route_table where
  "log_routes = [(GET, ''/'', RouteSearchLogs), (GET, ''/{id}'', RouteGetLog)]"

definition ws_routes :: route_table where
  "ws_routes = [(GET, ''/ws'', RouteWs)]"

definition health_routes :: route_table where
  "health_routes = [(GET, ''/healthz'', RouteHealthz), (GET, ''/readyz'', RouteReadyz)]"

text \<open>\<open>Router::nest\<close>: the inner route \<open>/\<close> is the prefix itself.\<close>

definition nest :: "string \<Rightarrow> route_table \<Rightarrow> route_table" where
  "nest prefix rs = map (\<lambda>(m, path, h). (m, prefix @ (if path = ''/'' then [] else path), h)) rs"

definition create_router :: route_table where
  "create_router = health_routes @ nest ''/api/v1''
     (nest ''/auth'' auth_routes @ nest ''/nodes'' node_routes @ nest ''/alerts'' alert_routes @ nest ''/logs'' log_routes @ ws_routes)"

section \<open>Requests\<close>

type_synonym rejection = "nat \<times> string"

record http_request =
  hq_authorization :: "string option"
  hq_id :: "(rejection, uuid) result"
  hq_node_params :: "(rejection, node_filter) result"
  hq_alert_params :: "(rejection, alert_filter) result"
  hq_log_params :: "(rejection, log_filter) result"
  hq_isolate_body :: "(rejection, string option) result"
  hq_status_body :: "(rejection, string) result"
  hq_login_body :: "(rejection, login_request) result"

text \<open>The extractors after \<open>AuthUser\<close>, in the order of the handler's arguments.\<close>

fun extract_request :: "api_route \<Rightarrow> http_request \<Rightarrow> (rejection, api_request) result option" where
  "extract_request RouteMe q = Some (Ok Me)"
| "extract_request RouteListNodes q = Some (map_ok ListNodes (hq_node_params q))"
| "extract_request RouteGetNode q = Some (map_ok GetNode (hq_id q))"
| "extract_request RouteIsolateNode q = Some (result_bind (hq_id q) (\<lambda>i. map_ok (IsolateNode i) (hq_isolate_body q)))"
| "extract_request RouteUnisolateNode q = Some (map_ok UnisolateNode (hq_id q))"
| "extract_request RouteListAlerts q = Some (map_ok ListAlerts (hq_alert_params q))"
| "extract_request RouteGetAlert q = Some (map_ok GetAlert (hq_id q))"
| "extract_request RouteUpdateAlertStatus q = Some (result_bind (hq_id q) (\<lambda>i. map_ok (UpdateAlertStatus i) (hq_status_body q)))"
| "extract_request RouteSearchLogs q = Some (map_ok SearchLogs (hq_log_params q))"
| "extract_request RouteGetLog q = Some (map_ok GetLog (hq_id q))"
| "extract_request _ q = None"

section \<open>Answers\<close>

text \<open>How times, ids and single-precision numbers are written in JSON.\<close>

record json_env =
  je_uuid :: "uuid \<Rightarrow> string"
  je_time :: "timestamp \<Rightarrow> string"
  je_f32 :: "f32 \<Rightarrow> json"

definition opt_json :: "string option \<Rightarrow> json" where
  "opt_json s = (case s of None \<Rightarrow> JNull | Some t \<Rightarrow> JString t)"

definition node_json :: "json_env \<Rightarrow> node_row \<Rightarrow> json" where
  "node_json je n = JObject
     [(''node_id'', JString (je_uuid je (nd_node_id n))), (''machine_id'', JString (nd_machine_id n)),
      (''hostname'', JString (nd_hostname n)), (''os_version'', JString (nd_os_version n)),
      (''agent_version'', JString (nd_agent_version n)), (''agent_status'', JString (nd_agent_status n)),
      (''operator_status'', JString (nd_operator_status n)), (''first_seen_at'', JString (je_time je (nd_first_seen_at n))),
      (''last_enrolled_at'', JString (je_time je (nd_last_enrolled_at n)))]"

definition health_json :: "json_env \<Rightarrow> health_row \<Rightarrow> json" where
  "health_json je h = JObject
     [(''health_id'', JString (je_uuid je (nh_health_id h))), (''node_id'', JString (je_uuid je (nh_node_id h))),
      (''agent_status'', JString (nh_agent_status h)), (''events_buffered'', JInt (sint (nh_events_buffered h))),
      (''recorded_at'', JString (je_time je (nh_recorded_at h)))]"

definition node_detail_json :: "json_env \<Rightarrow> node_detail \<Rightarrow> json" where
  "node_detail_json je d = JObject
     [(''node'', node_json je (dt_node d)), (''recent_health'', JArray (map (health_json je) (dt_recent_health d)))]"

definition isolate_json :: "json_env \<Rightarrow> isolate_response \<Rightarrow> json" where
  "isolate_json je r = JObject
     [(''node_id'', JString (je_uuid je (ir_node_id r))), (''operator_status'', JString (ir_operator_status r)),
      (''command_dispatched'', JBool (ir_command_dispatched r)), (''updated_at'', JString (je_time je (ir_updated_at r)))]"

definition alert_entity_json :: "json_env \<Rightarrow> new_alert_entity \<Rightarrow> json" where
  "alert_entity_json je a = JObject
     [(''alert_id'', JString (je_uuid je (na_alert_id a))), (''node_id'', JString (je_uuid je (na_node_id a))),
      (''hostname'', JString (na_hostname a)), (''severity'', JString (na_severity a)), (''source'', JString (na_source a)),
      (''mitre_technique_id'', opt_json (na_mitre_technique_id a)), (''mitre_tactic'', opt_json (na_mitre_tactic a)),
      (''description'', JString (na_description a)), (''triggering_event_id'', opt_json (na_triggering_event_id a)),
      (''threat_score'', je_f32 je (na_threat_score a)), (''status'', JString (na_status a)),
      (''created_at'', JString (je_time je (na_created_at a)))]"

definition alert_status_json :: "json_env \<Rightarrow> alert_status_response \<Rightarrow> json" where
  "alert_status_json je r = JObject
     [(''alert_id'', JString (je_uuid je (ar_alert_id r))), (''status'', JString (ar_status r)),
      (''updated_at'', JString (je_time je (ar_updated_at r)))]"

definition event_log_json :: "json_env \<Rightarrow> event_log \<Rightarrow> json" where
  "event_log_json je l = JObject
     [(''event_id'', JString (je_uuid je (el_event_id l))), (''node_id'', JString (je_uuid je (el_node_id l))),
      (''event_type'', JString (el_event_type l)), (''hostname'', JString (el_hostname l)), (''payload'', el_payload l),
      (''raw_sequence_id'', opt_json (el_raw_sequence_id l)), (''recorded_at'', JString (je_time je (el_recorded_at l)))]"

definition user_json :: "user_info \<Rightarrow> json" where
  "user_json u = JObject [(''username'', JString (ui_username u)), (''role'', JString (ui_role u)),
     (''permissions'', JArray (map JString (ui_permissions u)))]"

definition login_json :: "login_response \<Rightarrow> json" where
  "login_json r = JObject [(''token'', JString (lg_token r)), (''token_type'', JString (lg_token_type r)),
     (''expires_in'', JInt (sint (lg_expires_in r))), (''user'', user_json (lg_user r))]"

definition page_json :: "nat \<Rightarrow> json list \<Rightarrow> json" where
  "page_json n items = JObject [(''total'', JInt (int n)), (''items'', JArray items)]"

fun response_json :: "json_env \<Rightarrow> api_response \<Rightarrow> json" where
  "response_json je (UserData u) = user_json u"
| "response_json je (NodesData n items) = page_json n (map (node_json je) items)"
| "response_json je (NodeData d) = node_detail_json je d"
| "response_json je (IsolateData r) = isolate_json je r"
| "response_json je (AlertsData n items) = page_json n (map (alert_entity_json je) items)"
| "response_json je (AlertData a) = alert_entity_json je a"
| "response_json je (AlertStatusData r) = alert_status_json je r"
| "response_json je (LogsData items) = JObject [(''items'', JArray (map (event_log_json je) items))]"
| "response_json je (LogData l) = event_log_json je l"

definition success_body :: "string \<Rightarrow> json \<Rightarrow> json" where
  "success_body now data = JObject [(''success'', JBool True), (''data'', data), (''meta'', JObject [(''timestamp'', JString now)])]"

datatype http_body = BodyJson json | BodyText string

definition answer :: "string \<Rightarrow> (api_error, json) result \<Rightarrow> nat \<times> http_body" where
  "answer now r = (case r of
     Inr data \<Rightarrow> (200, BodyJson (success_body now data))
   | Inl err \<Rightarrow> (case error_response now err of (status, body) \<Rightarrow> (status, BodyJson body)))"

definition reject :: "rejection \<Rightarrow> nat \<times> http_body" where
  "reject r = (fst r, BodyText (snd r))"

text \<open>The whole of a request other than the upgrade to a websocket, whose session is \<open>handle_socket\<close>: the probes, login,
  and the handlers behind \<open>AuthUser\<close>. \<open>pools\<close> is what acquiring a connection of each pool gives, \<open>stamp\<close> the
  time of the answer as text.\<close>

record probe_env =
  pe_nodes_pool :: "(string, unit) result"
  pe_alerts_pool :: "(string, unit) result"
  pe_logs_pool :: "(string, unit) result"

definition healthz :: "nat \<times> http_body" where
  "healthz = (200, BodyJson (JObject [(''status'', JString ''healthy'')]))"

definition handle_login :: "api_env \<Rightarrow> string \<Rightarrow> http_request \<Rightarrow> nat \<times> http_body" where
  "handle_login e stamp q =
     (case hq_login_body q of
        Inl r \<Rightarrow> reject r
      | Inr req \<Rightarrow> answer stamp (map_ok login_json (login (ae_auth e) (ae_settings e) (ae_now e) req)))"

definition http_handle :: "api_env \<Rightarrow> json_env \<Rightarrow> probe_env \<Rightarrow> string \<Rightarrow> api_route \<Rightarrow> http_request \<Rightarrow> api_db
    \<Rightarrow> (nat \<times> http_body) \<times> api_db" where
  "http_handle e je pools stamp route q db =
     (case extract_request route q of
        Some extracted \<Rightarrow>
          (case auth_user (ae_auth e) (ae_settings e) (sint (ae_now e)) (hq_authorization q) of
             Inl err \<Rightarrow> (answer stamp (Err err), db)
           | Inr claims \<Rightarrow>
               (case extracted of
                  Inl r \<Rightarrow> (reject r, db)
                | Inr req \<Rightarrow> (case serve e claims req db of
                    (res, db') \<Rightarrow> (answer stamp (map_ok (response_json je) res), db'))))
      | None \<Rightarrow>
          (if route = RouteLogin then (handle_login e stamp q, db)
           else if route = RouteReadyz
           then (case readyz (pe_nodes_pool pools) (pe_alerts_pool pools) (pe_logs_pool pools) of
                   (status, body) \<Rightarrow> ((status, BodyJson body), db))
           else (healthz, db)))"

section \<open>Start\<close>

datatype api_start_error = SettingsInvalid string | PoolNotBuilt string | AddrInvalid string | BindFailed string

record api_world =
  aw_env :: "string \<Rightarrow> string option"
  aw_build :: "string \<Rightarrow> nat \<Rightarrow> (string, unit) result"
  aw_parse_addr :: "string \<Rightarrow> (string, string) result"
  aw_bind :: "string \<Rightarrow> (string, unit) result"

record app_state =
  st_config :: api_settings
  st_broadcast_capacity :: nat
  st_pools :: "string list"  \<comment> \<open>nodes, alerts and logs, by the address they connect to\<close>

definition api_create_pool :: "api_world \<Rightarrow> string \<Rightarrow> nat \<Rightarrow> (api_start_error, string) result" where
  "api_create_pool w database_url max_size = map_ok (\<lambda>_. database_url) (map_err PoolNotBuilt (aw_build w database_url max_size))"

definition app_state_new :: "api_world \<Rightarrow> api_settings \<Rightarrow> (api_start_error, app_state) result" where
  "app_state_new w config =
     result_bind (api_create_pool w (st_database_url_nodes config) (st_db_pool_max_size config)) (\<lambda>nodes_pool.
     result_bind (api_create_pool w (st_database_url_alerts config) (st_db_pool_max_size config)) (\<lambda>alerts_pool.
     result_bind (api_create_pool w (st_database_url_logs config) (st_db_pool_max_size config)) (\<lambda>logs_pool.
     Ok \<lparr>st_config = config, st_broadcast_capacity = 5000, st_pools = [nodes_pool, alerts_pool, logs_pool]\<rparr>)))"

text \<open>The consumer is spawned before the address is parsed and bound; the result has the topics it subscribes.\<close>

definition api_start :: "api_world \<Rightarrow> (api_start_error, app_state \<times> string list \<times> string) result" where
  "api_start w =
     result_bind (map_err SettingsInvalid (load_from_env (aw_env w))) (\<lambda>settings.
     result_bind (app_state_new w settings) (\<lambda>state.
     result_bind (map_err AddrInvalid (aw_parse_addr w (st_host settings @ '':'' @ show_nat (st_port settings)))) (\<lambda>addr.
     result_bind (map_err BindFailed (aw_bind w addr)) (\<lambda>_.
     Ok (state, LIVE_TOPICS, addr)))))"

section \<open>The administrator's password\<close>

text \<open>\<open>argon2\<close> over a fresh salt.\<close>

definition hash_password :: "(string \<Rightarrow> 'salt \<Rightarrow> (string, string) result) \<Rightarrow> 'salt \<Rightarrow> string \<Rightarrow> (string, string) result" where
  "hash_password argon2 salt password = map_err (\<lambda>e. e) (argon2 password salt)"

text \<open>With a hash in place of the password in the settings, what logs in is the password, and also the text of the hash.\<close>

lemma hashed_admin_credentials:
  assumes "hash_password argon2 salt password = Inr h" and "st_admin_default_password cfg = h"
    and "\<And>p s h q. argon2 p s = Inr h \<Longrightarrow> ad_verify d q h = Some (q = p)"
  shows "credentials_valid d cfg req \<longleftrightarrow>
    lr_username req = st_admin_default_user cfg \<and> (lr_password req = password \<or> lr_password req = h)"
proof -
  have "argon2 password salt = Inr h" using assms(1) by (simp add: hash_password_def)
  then have "ad_verify d (lr_password req) h = Some (lr_password req = password)" by (rule assms(3))
  then show ?thesis using assms(2) by (auto simp: credentials_valid_def verify_password_def)
qed

lemma hashed_admin_credentials_witness:
  "credentials_valid (sample_auth\<lparr>ad_verify := (\<lambda>q h. Some (''#'' @ q = h))\<rparr>) (sample_api_settings\<lparr>st_admin_default_password := ''#pw''\<rparr>)
     \<lparr>lr_username = ''admin'', lr_password = ''#pw''\<rparr>"
  using hashed_admin_credentials [of "\<lambda>p s. Inr (''#'' @ p)" "()" "''pw''" "''#pw''" "sample_api_settings\<lparr>st_admin_default_password := ''#pw''\<rparr>"
      "sample_auth\<lparr>ad_verify := (\<lambda>q h. Some (''#'' @ q = h))\<rparr>" "\<lparr>lr_username = ''admin'', lr_password = ''#pw''\<rparr>"]
  by (auto simp: hash_password_def sample_api_settings_eq)

section \<open>Properties\<close>

definition public_route :: "api_route \<Rightarrow> bool" where
  "public_route r \<longleftrightarrow> r \<in> {RouteLogin, RouteWs, RouteHealthz, RouteReadyz}"

lemma extract_request_None: "extract_request route q = None \<longleftrightarrow> public_route route"
  by (cases route) (simp_all add: public_route_def)

lemma auth_user_401: "auth_user d cfg now header = Inl err \<Longrightarrow> status_code err = 401"
  by (cases header) (auto simp: auth_user_def map_err_def split: option.splits sum.splits)

lemma status_code_not_200: "status_code e \<noteq> 200"
  by (cases e) simp_all

lemma http_unauthorized:
  assumes "\<not> public_route route" "auth_user (ae_auth e) (ae_settings e) (sint (ae_now e)) (hq_authorization q) = Inl err"
  shows "\<exists>j. http_handle e je pools stamp route q db = ((401, BodyJson j), db)"
proof -
  obtain x where "extract_request route q = Some x" using assms(1) extract_request_None [of route q] by auto
  then show ?thesis using assms(2) auth_user_401 [OF assms(2)] by (simp add: http_handle_def answer_def error_response_def)
qed

text \<open>C9: a session over HTTP. A login that is answered with 200 and JSON has changed no table, came with the administrator's name and
  password, and its answer carries a token. A later request that brings this token in its header, whatever else it has and to whatever
  tables, is recognised for the configured time and the 60 seconds of the validation's leeway: \<open>/me\<close> answers 200 with the user of
  the login. From then on every route that is not public, whatever its path, its query or its body, answers 401 and leaves the
  tables as they are.\<close>

theorem http_session:
  assumes "op_jwt_laws (ae_auth e)" and "http_handle e je pools stamp RouteLogin q db = ((200, BodyJson j), db1)"
    and "0 \<le> sint (ae_now e)" and "0 \<le> sint (st_jwt_expiration_secs (ae_settings e))"
    and "sint (ae_now e) + sint (st_jwt_expiration_secs (ae_settings e)) < 2 ^ 63"
    and "ae_auth e' = ae_auth e" and "ae_settings e' = ae_settings e"
  shows "\<exists>req tok. hq_login_body q = Inr req \<and> credentials_valid (ae_auth e) (ae_settings e) req \<and> db1 = db \<and>
    jindex (jindex j ''data'') ''token'' = JString tok \<and>
    (\<forall>q' db'. hq_authorization q' = Some (''Bearer '' @ tok) \<longrightarrow>
      (if sint (ae_now e') \<le> sint (ae_now e) + sint (st_jwt_expiration_secs (ae_settings e)) + 60
       then \<exists>j'. http_handle e' je pools' stamp' RouteMe q' db' = ((200, BodyJson j'), db') \<and>
              jindex (jindex j' ''data'') ''username'' = JString (lr_username req)
       else \<forall>route. \<not> public_route route \<longrightarrow> (\<exists>j'. http_handle e' je pools' stamp' route q' db' = ((401, BodyJson j'), db'))))"
proof -
  obtain req resp where r: "hq_login_body q = Inr req" "login (ae_auth e) (ae_settings e) (ae_now e) req = Inr resp" "db1 = db"
      "j = success_body stamp (login_json resp)"
    using assms(2) by (auto simp: http_handle_def handle_login_def reject_def answer_def error_response_def map_ok_def result_bind_def
        status_code_not_200 split: sum.splits)
  note tok = login_token_checked [OF assms(1) r(2) assms(3-5), of "sint (ae_now e')"]
  have early: "\<exists>j'. http_handle e' je pools' stamp' RouteMe q' db' = ((200, BodyJson j'), db') \<and>
      jindex (jindex j' ''data'') ''username'' = JString (lr_username req)"
    if "hq_authorization q' = Some (''Bearer '' @ lg_token resp)"
      "sint (ae_now e') \<le> sint (ae_now e) + sint (st_jwt_expiration_secs (ae_settings e)) + 60" for q' db'
    using tok(1) [OF that(2)] that(1) assms(6,7)
    by (simp add: http_handle_def reading_def answer_def map_ok_def success_body_def user_json_def jindex_def jget_def del: append.simps)
  have late: "\<exists>j'. http_handle e' je pools' stamp' route q' db' = ((401, BodyJson j'), db')"
    if "hq_authorization q' = Some (''Bearer '' @ lg_token resp)" "\<not> public_route route"
      "\<not> sint (ae_now e') \<le> sint (ae_now e) + sint (st_jwt_expiration_secs (ae_settings e)) + 60" for q' db' route
    using http_unauthorized [OF that(2)] tok(2) that(1,3) assms(6,7) by (metis not_le)
  show ?thesis
    using r login_credentials [OF r(2)] early late
    by (intro exI [of _ req] exI [of _ "lg_token resp"]) (simp add: success_body_def login_json_def jindex_def jget_def del: append.simps)
qed

text \<open>Reading an alert over HTTP, with a token that checks and a database that answers.\<close>

lemma http_get_alert:
  assumes "auth_user (ae_auth e) (ae_settings e) (sint (ae_now e)) (hq_authorization q) = Inr claims"
    and "re_pool (ae_repo e) = Inr ()" and "re_fault (ae_repo e) 0 = None" and "hq_id q = Inr k"
  shows "http_handle e je pools stamp RouteGetAlert q db =
    (answer stamp (case alert_row (ap_alerts db) k of
       Some a \<Rightarrow> Inr (alert_entity_json je a)
     | None \<Rightarrow> Inl (NotFound (not_found_text (ae_uuid_str e) ''Alert'' k))), db)"
  using assms
  by (simp add: http_handle_def map_ok_def reading_def get_alert_by_id_def alerts_find_by_id_def with_conn_def find_row_def alert_row_def ok_or_def
      split: option.split)

lemma http_update_alert_okE:
  assumes "http_handle e je pools stamp RouteUpdateAlertStatus q db = ((200, BodyJson j), db')"
  obtains i st x rows where "hq_id q = Inr i" "hq_status_body q = Inr st"
    "alerts_update_status (ae_uuid_str e) (ae_repo e) (ae_clock e) i st (ap_alerts db) = Inr (x, rows)" "db' = db\<lparr>ap_alerts := rows\<rparr>"
    "jindex j ''data'' = alert_status_json je x"
  using assms status_code_not_200
  by (auto simp: http_handle_def reject_def answer_def error_response_def map_ok_def result_bind_def writing_def success_body_def
      jindex_def jget_def split: sum.splits)

lemma alert_row_updated:
  "alert_row rows i = Some a \<Longrightarrow>
     alert_row (map (\<lambda>a. if na_alert_id a = i then a\<lparr>na_status := st\<rparr> else a) rows) i = Some (a\<lparr>na_status := st\<rparr>)"
  "k \<noteq> i \<Longrightarrow> alert_row (map (\<lambda>a. if na_alert_id a = i then a\<lparr>na_status := st\<rparr> else a) rows) k = alert_row rows k"
  by (induction rows) (auto simp: alert_row_def split: if_splits)


text \<open>An answer's envelope says how it went.\<close>

definition has_key :: "string \<Rightarrow> json \<Rightarrow> bool" where
  "has_key k j \<longleftrightarrow> (case as_object j of None \<Rightarrow> False | Some kvs \<Rightarrow> k \<in> fst ` set kvs)"

definition enveloped :: "nat \<Rightarrow> json \<Rightarrow> bool" where
  "enveloped status j \<longleftrightarrow> jindex j ''success'' = JBool (status = 200) \<and> has_key ''data'' j = (status = 200) \<and>
     has_key ''error'' j = (status \<noteq> 200) \<and> has_key ''meta'' j"

lemma answer_enveloped: "answer stamp r = (status, BodyJson j) \<Longrightarrow> enveloped status j"
  using status_code_not_200
  by (auto simp: answer_def success_body_def error_response_def enveloped_def has_key_def jindex_def jget_def split: sum.splits)

lemma answer_not_text: "answer stamp r \<noteq> (status, BodyText t)"
  by (simp add: answer_def split: sum.split prod.split)

text \<open>A client can trust the envelope: the answer of login and of every handler behind \<open>AuthUser\<close> has success true
  exactly when its status is 200, has data exactly then and an error exactly otherwise, and the only
  other answers are the framework's rejections.\<close>

lemma api_answers_enveloped:
  assumes "route \<notin> {RouteWs, RouteHealthz, RouteReadyz}"
    and "http_handle e je pools stamp route q db = ((status, body), db')"
  shows "(\<exists>j. body = BodyJson j \<and> enveloped status j) \<or> (\<exists>text. body = BodyText text \<and> db' = db)"
proof (cases "extract_request route q")
  case None
  then have "route = RouteLogin" using assms(1) extract_request_None [of route q] by (auto simp: public_route_def)
  then show ?thesis
    using assms(2) by (cases body) (auto simp: http_handle_def handle_login_def reject_def answer_not_text answer_enveloped split: sum.splits)
next
  case (Some x)
  show ?thesis
    using assms(2) Some
    by (cases body) (auto simp: http_handle_def reject_def answer_not_text answer_enveloped split: sum.splits prod.splits)
qed

definition sample_json_env :: json_env where
  "sample_json_env = \<lparr>je_uuid = (\<lambda>_. ''u''), je_time = (\<lambda>_. ''t''), je_f32 = (\<lambda>_. JNull)\<rparr>"

definition sample_http_env :: api_env where
  "sample_http_env = \<lparr>ae_auth = sample_auth, ae_settings = sample_api_settings, ae_now = 5, ae_clock = 5, ae_uuid_str = (\<lambda>_. ''u''),
     ae_repo = \<lparr>re_pool = Inr (), re_fault = (\<lambda>_. None)\<rparr>, ae_ilike = (\<lambda>_ _. True), ae_scan_nodes = (\<lambda>xs. xs), ae_scan_health = (\<lambda>xs. xs),
     ae_scan_alerts = (\<lambda>xs. xs), ae_scan_logs = (\<lambda>xs. xs), ae_fleet = Inr ()\<rparr>"

definition sample_pools :: probe_env where
  "sample_pools = \<lparr>pe_nodes_pool = Inr (), pe_alerts_pool = Inr (), pe_logs_pool = Inr ()\<rparr>"

definition sample_request :: "string option \<Rightarrow> http_request" where
  "sample_request auth = \<lparr>hq_authorization = auth, hq_id = Inl (400, ''bad id''), hq_node_params = Inl (400, ''''),
     hq_alert_params = Inl (400, ''''), hq_log_params = Inl (400, ''''), hq_isolate_body = Inl (415, ''''), hq_status_body = Inl (415, ''''),
     hq_login_body = Inl (415, '''')\<rparr>"

definition empty_api_db :: api_db where
  "empty_api_db = \<lparr>ap_nodes = empty_db, ap_alerts = [], ap_logs = []\<rparr>"

theorem http_session_witness:
  "\<exists>tok j'. http_handle (sample_http_env\<lparr>ae_now := 86466\<rparr>) sample_json_env sample_pools ''now'' RouteIsolateNode
     (sample_request (Some (''Bearer '' @ tok))) empty_api_db = ((401, BodyJson j'), empty_api_db)"
proof -
  let ?q = "(sample_request None)\<lparr>hq_login_body := Inr \<lparr>lr_username = ''admin'', lr_password = ''admin''\<rparr>\<rparr>"
  have laws: "op_jwt_laws (ae_auth sample_http_env)" by (simp add: sample_http_env_def sample_auth_laws)
  have "\<exists>j. http_handle sample_http_env sample_json_env sample_pools ''now'' RouteLogin ?q empty_api_db = ((200, BodyJson j), empty_api_db)"
    by (simp add: http_handle_def handle_login_def login_def credentials_valid_def sample_http_env_def sample_api_settings_eq sample_auth_def
        sample_claims_def answer_def map_ok_def)
  then obtain j where "http_handle sample_http_env sample_json_env sample_pools ''now'' RouteLogin ?q empty_api_db = ((200, BodyJson j), empty_api_db)" ..
  from http_session [OF laws this, of "sample_http_env\<lparr>ae_now := 86466\<rparr>" sample_pools "''now''"]
  obtain tok where tok: "\<And>q' db' route. hq_authorization q' = Some (''Bearer '' @ tok) \<Longrightarrow> \<not> public_route route \<Longrightarrow>
      \<exists>j'. http_handle (sample_http_env\<lparr>ae_now := 86466\<rparr>) sample_json_env sample_pools ''now'' route q' db' = ((401, BodyJson j'), db')"
    by (simp add: sample_http_env_def sample_api_settings_eq del: append.simps) blast
  show ?thesis by (intro exI [of _ tok], rule tok) (simp_all add: sample_request_def public_route_def)
qed


lemma api_answers_enveloped_witness:
  "\<exists>j. snd (fst (http_handle sample_http_env sample_json_env sample_pools ''now'' RouteMe (sample_request None) empty_api_db)) = BodyJson j \<and>
     enveloped 401 j"
proof -
  let ?r = "http_handle sample_http_env sample_json_env sample_pools ''now'' RouteMe (sample_request None) empty_api_db"
  have r: "?r = ((401, snd (fst ?r)), snd ?r)" "\<forall>t. snd (fst ?r) \<noteq> BodyText t"
    by (simp_all add: http_handle_def auth_user_def sample_request_def answer_def error_response_def)
  show ?thesis using api_answers_enveloped [OF _ r(1)] r(2) by fastforce
qed

text \<open>The service starts exactly when the settings load, the three pools are built and the address parses and
  binds; the consumer's topics are fixed.\<close>

lemma api_start_ok_iff:
  "is_ok (api_start w) \<longleftrightarrow> (\<exists>s addr. load_from_env (aw_env w) = Inr s \<and>
     (\<forall>url \<in> {st_database_url_nodes s, st_database_url_alerts s, st_database_url_logs s}. is_ok (aw_build w url (st_db_pool_max_size s))) \<and>
     aw_parse_addr w (st_host s @ '':'' @ show_nat (st_port s)) = Inr addr \<and> is_ok (aw_bind w addr))"
  by (cases "load_from_env (aw_env w)")
    (auto simp: api_start_def app_state_new_def api_create_pool_def map_ok_def result_bind_def map_err_def is_ok_def split: sum.splits)

end
