(* ===== verification/LiveSystem.thy ===== *)
theory LiveSystem
  imports ApiServer Runs
begin

text \<open>
  The live side of the API at work: the consumer of the broker, the worker that persists log rows
  (\<open>kafka/consumer.rs\<close>) and the dashboards' sessions (\<open>handlers/ws.rs\<close>), interleaved over what they share, the
  bounded channel between consumer and worker and the broadcast channel to the sessions. The pieces are the
  operations of \<open>ApiLive\<close>, one turn of a loop each; \<open>live_step\<close> takes one of them.

  The broadcast channel is \<open>tokio\<close>'s: it keeps the last \<open>lp_retained\<close> events; a receiver reads them at its own
  pace, and one that falls further behind is told so once and goes on at the oldest event kept.
\<close>

section \<open>State\<close>

record ws_session =
  ws_cursor :: nat  \<comment> \<open>the next event to read\<close>
  ws_node :: "string option"
  ws_topics :: "string list"
  ws_open :: bool

record live_system =
  ly_broadcast :: "live_event list"
  ly_sessions :: "ws_session list"
  ly_channel :: "event_log list"
  ly_batch :: "event_log list"
  ly_rows :: "event_log list"
  ly_consumer :: bool
  ly_worker :: bool
  ly_cancelled :: bool

record live_params =
  lp_deps :: live_deps
  lp_retained :: nat

definition PERSIST_CHANNEL :: nat where "PERSIST_CHANNEL = 10000"

text \<open>What a run shows: an event sent to the sessions; a row that was queued, or not; a batch handed to the repository
  and whether it was taken; a row left in the channel by the worker; an event a session received, with whether it
  prints, or missed; and the frames a session sent and the subscriptions it accepted.\<close>

datatype live_obs =
    LvBroadcast live_event
  | LvQueued event_log
  | LvDropped event_log
  | LvBatch "event_log list" bool
  | LvAbandoned event_log
  | LvSaw nat live_event bool
  | LvMissed nat live_event
  | LvSent nat ws_frame
  | LvResubscribed nat

section \<open>Operations\<close>

fun opt_list :: "'a option \<Rightarrow> 'a list" where
  "opt_list None = []"
| "opt_list (Some x) = [x]"

text \<open>A message of the broker; the clock is read once for the live event and once for the row. \<open>try_send\<close> fails where the channel is full or the worker is gone.\<close>

definition live_receive :: "live_deps \<Rightarrow> string \<Rightarrow> bytes option \<Rightarrow> timestamp \<Rightarrow> uuid \<Rightarrow> timestamp \<Rightarrow> live_system \<Rightarrow> live_obs list \<times> live_system" where
  "live_receive d topic payload_opt shown_at fresh now s =
     (let event = Option.bind payload_opt (parse_kafka_message (ld_from_live d) (ld_from_slice d) shown_at topic);
          row = Option.bind payload_opt (parse_log_entity (ld_from_slice d) (ld_uuid_parse d) fresh now topic);
          room = (ly_worker s \<and> length (ly_channel s) < PERSIST_CHANNEL)
      in (map LvBroadcast (opt_list event) @ map (if room then LvQueued else LvDropped) (opt_list row),
          s\<lparr>ly_broadcast := ly_broadcast s @ opt_list event,
            ly_channel := ly_channel s @ (if room then opt_list row else [])\<rparr>))"

text \<open>One turn of the worker.\<close>

definition persist_wake :: "repo_env persist_item \<Rightarrow> live_system \<Rightarrow> live_obs list \<times> live_system" where
  "persist_wake item s =
     (case persist_run logs_insert_batch [item] (ly_batch s) (ly_rows s) of
        (bs, batch, rows) \<Rightarrow> (map (\<lambda>b. LvBatch (fst b) (snd b)) bs, s\<lparr>ly_batch := batch, ly_rows := rows\<rparr>))"

text \<open>One turn of a session.\<close>

fun ws_step :: "ws_item \<Rightarrow> ws_session \<Rightarrow> ws_frame list \<times> ws_session" where
  "ws_step (WsEvent event prints sent) w =
     (if matches_filter event (ws_node w) (ws_topics w) \<and> prints
      then (if sent then ([EventFrame event], w) else ([], w\<lparr>ws_open := False\<rparr>))
      else ([], w))"
| "ws_step (WsLagged n) w = ([], w)"
| "ws_step WsBroadcastClosed w = ([], w\<lparr>ws_open := False\<rparr>)"
| "ws_step WsClientClose w = ([], w\<lparr>ws_open := False\<rparr>)"
| "ws_step (WsClientText cmd now sent) w =
     (case cmd of
        None \<Rightarrow> ([], w)
      | Some (Subscribe ts node_id) \<Rightarrow>
          (let topics' = unwrap_or (ws_topics w) ts in
           (if sent then [ServerFrame (Subscribed topics' node_id)] else [], w\<lparr>ws_node := node_id, ws_topics := topics'\<rparr>))
      | Some WsPing \<Rightarrow> (if sent then [ServerFrame (WsPong now)] else [], w))"
| "ws_step (WsClientPing payload sent) w = (if sent then ([PongFrame payload], w) else ([], w\<lparr>ws_open := False\<rparr>))"
| "ws_step (WsClientError e) w = ([], w\<lparr>ws_open := False\<rparr>)"
| "ws_step WsClientOther w = ([], w)"
| "ws_step (WsTick sent) w = (if sent then ([PingFrame], w) else ([], w\<lparr>ws_open := False\<rparr>))"

fun ws_steps :: "ws_item list \<Rightarrow> ws_session \<Rightarrow> ws_frame list \<times> ws_session" where
  "ws_steps [] w = ([], w)"
| "ws_steps (item # items) w =
     (if \<not> ws_open w then ([], w)
      else case ws_step item w of (f, w1) \<Rightarrow> (case ws_steps items w1 of (fs, w2) \<Rightarrow> (f @ fs, w2)))"

definition session_new :: "string option \<Rightarrow> string option \<Rightarrow> nat \<Rightarrow> ws_session" where
  "session_new query_topics query_node tail =
     \<lparr>ws_cursor = tail, ws_node = query_node, ws_topics = parse_topics query_topics, ws_open = True\<rparr>"

fun from_client :: "ws_item \<Rightarrow> bool" where
  "from_client (WsEvent _ _ _) = False"
| "from_client (WsLagged _) = False"
| "from_client WsBroadcastClosed = False"
| "from_client _ = True"

fun resubscribing :: "ws_client_message option \<Rightarrow> bool" where
  "resubscribing None = False"
| "resubscribing (Some (Subscribe _ _)) = True"
| "resubscribing (Some WsPing) = False"

fun resubscribes :: "ws_item \<Rightarrow> bool" where
  "resubscribes (WsClientText cmd _ _) = resubscribing cmd"
| "resubscribes _ = False"

definition session_read :: "nat \<Rightarrow> bool \<Rightarrow> bool \<Rightarrow> live_system \<Rightarrow> live_obs list \<times> live_system" where
  "session_read i prints sent s =
     (let w = ly_sessions s ! i; event = ly_broadcast s ! ws_cursor w in
      case ws_step (WsEvent event prints sent) w of (frames, w1) \<Rightarrow>
        (LvSaw i event prints # map (LvSent i) frames,
         s\<lparr>ly_sessions := (ly_sessions s)[i := w1\<lparr>ws_cursor := Suc (ws_cursor w)\<rparr>]\<rparr>))"

definition session_lag :: "nat \<Rightarrow> nat \<Rightarrow> live_system \<Rightarrow> live_obs list \<times> live_system" where
  "session_lag retained i s =
     (let w = ly_sessions s ! i; oldest = length (ly_broadcast s) - retained in
      (map (LvMissed i) (take (oldest - ws_cursor w) (drop (ws_cursor w) (ly_broadcast s))),
       s\<lparr>ly_sessions := (ly_sessions s)[i := (snd (ws_step (WsLagged (oldest - ws_cursor w)) w))\<lparr>ws_cursor := oldest\<rparr>]\<rparr>))"

definition session_client :: "nat \<Rightarrow> ws_item \<Rightarrow> live_system \<Rightarrow> live_obs list \<times> live_system" where
  "session_client i item s =
     (case ws_step item (ly_sessions s ! i) of (frames, w1) \<Rightarrow>
        (map (LvSent i) frames @ (if resubscribes item then [LvResubscribed i] else []),
         s\<lparr>ly_sessions := (ly_sessions s)[i := w1]\<rparr>))"

section \<open>Steps\<close>

definition session_at :: "live_system \<Rightarrow> nat \<Rightarrow> bool" where
  "session_at s i \<longleftrightarrow> i < length (ly_sessions s) \<and> ws_open (ly_sessions s ! i)"

inductive live_step :: "live_params \<Rightarrow> live_system \<Rightarrow> live_obs list \<Rightarrow> live_system \<Rightarrow> bool" for p where
  lv_receive: "ly_consumer s \<Longrightarrow> live_receive (lp_deps p) topic payload_opt shown_at fresh now s = (obs, s') \<Longrightarrow> live_step p s obs s'"
| lv_receive_error: "ly_consumer s \<Longrightarrow> live_step p s [] s"
| lv_consumer_stop: "ly_consumer s \<Longrightarrow> ly_cancelled s \<Longrightarrow> live_step p s [] (s\<lparr>ly_consumer := False\<rparr>)"
| lv_row: "ly_worker s \<Longrightarrow> ly_channel s = l # rest \<Longrightarrow> persist_wake (PersistLog l env) (s\<lparr>ly_channel := rest\<rparr>) = (obs, s') \<Longrightarrow>
    live_step p s obs s'"
| lv_tick: "ly_worker s \<Longrightarrow> persist_wake (PersistTick env) s = (obs, s') \<Longrightarrow> live_step p s obs s'"
| lv_worker_shutdown: "ly_worker s \<Longrightarrow> ly_cancelled s \<Longrightarrow> persist_wake (PersistShutdown env) s = (obs, s') \<Longrightarrow>
    live_step p s (obs @ map LvAbandoned (ly_channel s)) (s'\<lparr>ly_worker := False, ly_channel := []\<rparr>)"
| lv_worker_closed: "ly_worker s \<Longrightarrow> \<not> ly_consumer s \<Longrightarrow> ly_channel s = [] \<Longrightarrow> persist_wake (PersistClosed env) s = (obs, s') \<Longrightarrow>
    live_step p s obs (s'\<lparr>ly_worker := False\<rparr>)"
| lv_cancel: "live_step p s [] (s\<lparr>ly_cancelled := True\<rparr>)"
| lv_open: "live_step p s [] (s\<lparr>ly_sessions := ly_sessions s @ [session_new query_topics query_node (length (ly_broadcast s))]\<rparr>)"
| lv_read: "session_at s i \<Longrightarrow> ws_cursor (ly_sessions s ! i) < length (ly_broadcast s) \<Longrightarrow>
    length (ly_broadcast s) \<le> ws_cursor (ly_sessions s ! i) + lp_retained p \<Longrightarrow>
    session_read i prints sent s = (obs, s') \<Longrightarrow> live_step p s obs s'"
| lv_lag: "session_at s i \<Longrightarrow> ws_cursor (ly_sessions s ! i) + lp_retained p < length (ly_broadcast s) \<Longrightarrow>
    session_lag (lp_retained p) i s = (obs, s') \<Longrightarrow> live_step p s obs s'"
| lv_client: "session_at s i \<Longrightarrow> from_client item \<Longrightarrow> session_client i item s = (obs, s') \<Longrightarrow> live_step p s obs s'"

section \<open>Start\<close>

text \<open>The consumer and its worker run if the client is created and takes the subscription; otherwise the task
  returns, and the sessions see nothing.\<close>

definition start_kafka_consumer :: "((string \<times> string) list \<Rightarrow> (string, unit) result) \<Rightarrow> (string list \<Rightarrow> (string, unit) result)
    \<Rightarrow> string \<Rightarrow> string \<Rightarrow> string list \<Rightarrow> event_log list \<Rightarrow> live_system" where
  "start_kafka_consumer create subscribe brokers group_id topics rows =
     (let up = (is_ok (create [(''bootstrap.servers'', brokers), (''group.id'', group_id), (''enable.auto.commit'', ''true''),
                 (''auto.offset.reset'', ''latest''), (''session.timeout.ms'', ''6000'')]) \<and> is_ok (subscribe topics))
      in \<lparr>ly_broadcast = [], ly_sessions = [], ly_channel = [], ly_batch = [], ly_rows = rows, ly_consumer = up, ly_worker = up,
          ly_cancelled = False\<rparr>)"

section \<open>A session turn by turn is the loop\<close>

lemma ws_steps_run: "ws_open w \<Longrightarrow> fst (ws_steps items w) = ws_run items (ws_node w) (ws_topics w)"
proof (induction items arbitrary: w)
  case (Cons item items)
  have closed: "\<not> ws_open w1 \<Longrightarrow> fst (ws_steps items w1) = []" for w1 :: ws_session
    by (cases items) simp_all
  show ?case
  proof (cases item)
    case (WsClientText cmd now sent)
    then show ?thesis using Cons by (cases cmd rule: resubscribing.cases) (simp_all add: case_prod_beta Let_def)
  qed (use Cons closed in \<open>simp_all add: case_prod_beta\<close>)
qed simp

section \<open>What a run shows\<close>

fun lv_broadcast :: "live_obs \<Rightarrow> live_event list" where
  "lv_broadcast (LvBroadcast e) = [e]"
| "lv_broadcast _ = []"

fun lv_queued :: "live_obs \<Rightarrow> event_log list" where
  "lv_queued (LvQueued l) = [l]"
| "lv_queued _ = []"

fun lv_dropped :: "live_obs \<Rightarrow> event_log list" where
  "lv_dropped (LvDropped l) = [l]"
| "lv_dropped _ = []"

fun lv_batches :: "live_obs \<Rightarrow> (event_log list \<times> bool) list" where
  "lv_batches (LvBatch b ok) = [(b, ok)]"
| "lv_batches _ = []"

fun lv_abandoned :: "live_obs \<Rightarrow> event_log list" where
  "lv_abandoned (LvAbandoned l) = [l]"
| "lv_abandoned _ = []"

fun lv_row_left :: "live_obs \<Rightarrow> event_log list" where
  "lv_row_left (LvBatch b ok) = b"
| "lv_row_left (LvAbandoned l) = [l]"
| "lv_row_left _ = []"

text \<open>The events session \<open>i\<close> received, with whether they print, or missed.\<close>

fun lv_seen :: "nat \<Rightarrow> live_obs \<Rightarrow> (live_event \<times> bool) list" where
  "lv_seen i (LvSaw j e prints) = (if j = i then [(e, prints)] else [])"
| "lv_seen i (LvMissed j e) = (if j = i then [(e, False)] else [])"
| "lv_seen i _ = []"

definition lv_passed :: "nat \<Rightarrow> live_obs \<Rightarrow> live_event list" where
  "lv_passed i ob = map fst (lv_seen i ob)"

fun lv_missed :: "nat \<Rightarrow> live_obs \<Rightarrow> live_event list" where
  "lv_missed i (LvMissed j e) = (if j = i then [e] else [])"
| "lv_missed i _ = []"

fun lv_events :: "nat \<Rightarrow> live_obs \<Rightarrow> live_event list" where
  "lv_events i (LvSent j (EventFrame e)) = (if j = i then [e] else [])"
| "lv_events i _ = []"

fun lv_resubscribed :: "nat \<Rightarrow> live_obs \<Rightarrow> nat list" where
  "lv_resubscribed i (LvResubscribed j) = (if j = i then [j] else [])"
| "lv_resubscribed i _ = []"

section \<open>Effects\<close>

lemma opt_list_short: "n < m \<Longrightarrow> n + length (opt_list x) \<le> m"
  by (cases x) simp_all

lemma live_receive_effect:
  assumes "live_receive d topic payload_opt shown_at fresh now s = (obs, s')"
  shows "ly_broadcast s' = ly_broadcast s @ shown lv_broadcast obs" "ly_channel s' = ly_channel s @ shown lv_queued obs"
    "length (ly_channel s) \<le> PERSIST_CHANNEL \<Longrightarrow> length (ly_channel s') \<le> PERSIST_CHANNEL"
    "shown lv_dropped obs \<noteq> [] \<Longrightarrow> \<not> ly_worker s \<or> PERSIST_CHANNEL \<le> length (ly_channel s)"
    "shown lv_row_left obs = []" "shown lv_batches obs = []" "shown lv_abandoned obs = []" "shown (lv_passed i) obs = []"
    "shown (lv_seen i) obs = []" "shown (lv_events i) obs = []" "shown (lv_missed i) obs = []"
    "ly_batch s' = ly_batch s" "ly_rows s' = ly_rows s" "ly_sessions s' = ly_sessions s" "ly_worker s' = ly_worker s"
    "ly_consumer s' = ly_consumer s" "ly_cancelled s' = ly_cancelled s"
  using assms
  by (auto simp: live_receive_def Let_def shown_map lv_passed_def opt_list_short split: if_splits)

lemma persist_run_one_bound:
  "length batch < BATCH_LEN \<Longrightarrow> length (fst (snd (persist_run ins [item] batch s))) < BATCH_LEN"
  by (cases item) (auto simp: Let_def BATCH_LEN_def split: prod.split)

lemma logs_insert_rows:
  "logs_insert_batch env b rows = (r, rows') \<Longrightarrow> rows' = (if is_ok r then fold insert_log b rows else rows)"
  by (auto simp: logs_insert_batch_def split: if_splits sum.splits option.splits)

lemma persist_one_rows:
  "persist_run logs_insert_batch [item] batch rows = (bs, batch', rows') \<Longrightarrow> rows' = fold insert_log (taken_logs bs) rows"
  by (cases item) (auto simp: Let_def split: if_splits prod.splits dest!: logs_insert_rows)

lemma persist_wake_effect:
  assumes "persist_wake item s = (obs, s')"
  shows "concat (map fst (shown lv_batches obs)) @ ly_batch s' = ly_batch s @ persist_received [item]"
    "ly_rows s' = fold insert_log (taken_logs (shown lv_batches obs)) (ly_rows s)"
    "length (ly_batch s) < BATCH_LEN \<Longrightarrow> length (ly_batch s') < BATCH_LEN \<and> list_all (\<lambda>b. fst b \<noteq> [] \<and> length (fst b) \<le> BATCH_LEN) (shown lv_batches obs)"
    "shown lv_row_left obs = concat (map fst (shown lv_batches obs))"
    "shown lv_broadcast obs = []" "shown lv_queued obs = []" "shown lv_dropped obs = []" "shown lv_abandoned obs = []"
    "shown (lv_passed i) obs = []" "shown (lv_seen i) obs = []" "shown (lv_events i) obs = []" "shown (lv_missed i) obs = []"
    "ly_broadcast s' = ly_broadcast s" "ly_channel s' = ly_channel s" "ly_sessions s' = ly_sessions s" "ly_worker s' = ly_worker s"
    "ly_consumer s' = ly_consumer s" "ly_cancelled s' = ly_cancelled s"
proof -
  obtain bs batch rows where r: "persist_run logs_insert_batch [item] (ly_batch s) (ly_rows s) = (bs, batch, rows)"
    by (metis prod_cases3)
  have obs: "obs = map (\<lambda>b. LvBatch (fst b) (snd b)) bs" and s': "s' = s\<lparr>ly_batch := batch, ly_rows := rows\<rparr>"
    using assms r by (auto simp: persist_wake_def)
  have bs: "shown lv_batches obs = bs" by (simp add: obs shown_map)
  show "concat (map fst (shown lv_batches obs)) @ ly_batch s' = ly_batch s @ persist_received [item]"
    using persist_run_conserves [of logs_insert_batch "[item]" "ly_batch s" "ly_rows s"] by (simp add: bs r s')
  show "ly_rows s' = fold insert_log (taken_logs (shown lv_batches obs)) (ly_rows s)"
    using persist_one_rows [OF r] by (simp add: bs s')
  show "length (ly_batch s) < BATCH_LEN \<Longrightarrow> length (ly_batch s') < BATCH_LEN \<and> list_all (\<lambda>b. fst b \<noteq> [] \<and> length (fst b) \<le> BATCH_LEN) (shown lv_batches obs)"
    using persist_run_bound [of "ly_batch s" logs_insert_batch "[item]" "ly_rows s"]
      persist_run_one_bound [of "ly_batch s" logs_insert_batch item "ly_rows s"] by (simp add: bs r s')
  show "shown lv_row_left obs = concat (map fst (shown lv_batches obs))" by (simp add: bs) (simp add: obs shown_map)
qed (use assms in \<open>auto simp: persist_wake_def shown_map lv_passed_def split: prod.splits\<close>)

lemma persist_run_ends:
  "fst (snd (persist_run ins [PersistShutdown env] batch s)) = []" "fst (snd (persist_run ins [PersistClosed env] batch s)) = []"
  by (auto split: prod.split)

lemma persist_wake_ends:
  assumes "persist_wake item s = (obs, s')" "item = PersistShutdown env \<or> item = PersistClosed env"
  shows "ly_batch s' = []"
  using assms persist_run_ends [of logs_insert_batch env "ly_batch s" "ly_rows s"]
  by (auto simp del: persist_run.simps simp: persist_wake_def split: prod.splits)

lemma ws_step_same [simp]:
  "ws_cursor (snd (ws_step item w)) = ws_cursor w"
  "\<not> resubscribes item \<Longrightarrow> ws_node (snd (ws_step item w)) = ws_node w"
  "\<not> resubscribes item \<Longrightarrow> ws_topics (snd (ws_step item w)) = ws_topics w"
proof -
  show "ws_cursor (snd (ws_step item w)) = ws_cursor w"
    "\<not> resubscribes item \<Longrightarrow> ws_node (snd (ws_step item w)) = ws_node w"
    "\<not> resubscribes item \<Longrightarrow> ws_topics (snd (ws_step item w)) = ws_topics w"
    by (cases item; auto simp: Let_def split: option.splits ws_client_message.splits)+
qed

lemma client_frames: "from_client item \<Longrightarrow> f \<in> set (fst (ws_step item w)) \<Longrightarrow> \<nexists>e. f = EventFrame e"
  by (cases item) (auto simp: Let_def split: option.splits ws_client_message.splits if_splits)

lemma no_event_frames: "(\<And>f e. f \<in> set fs \<Longrightarrow> f \<noteq> EventFrame e) \<Longrightarrow> shown (lv_events i) (map (LvSent j) fs) = []"
proof (induction fs)
  case (Cons f fs)
  have "\<nexists>e. f = EventFrame e" using Cons.prems [of f] by auto
  then have "lv_events i (LvSent j f) = []" by (cases f) simp_all
  then show ?case using Cons by simp
qed simp

lemma client_events: "from_client item \<Longrightarrow> shown (lv_events i) (map (LvSent j) (fst (ws_step item w))) = []"
  by (rule no_event_frames) (use client_frames in blast)

lemma session_frames_quiet:
  "shown lv_broadcast (map (LvSent j) fs) = []" "shown lv_queued (map (LvSent j) fs) = []" "shown lv_dropped (map (LvSent j) fs) = []"
  "shown lv_batches (map (LvSent j) fs) = []" "shown lv_row_left (map (LvSent j) fs) = []" "shown lv_abandoned (map (LvSent j) fs) = []"
  "shown (lv_seen i) (map (LvSent j) fs) = []" "shown (lv_missed i) (map (LvSent j) fs) = []" "shown (lv_resubscribed i) (map (LvSent j) fs) = []"
  "shown (lv_passed i) (map (LvSent j) fs) = []"
  by (simp_all add: shown_map lv_passed_def)

text \<open>The turns of a session leave the rest as it is.\<close>

definition same_rest :: "live_system \<Rightarrow> live_obs list \<Rightarrow> live_system \<Rightarrow> bool" where
  "same_rest s obs s' \<longleftrightarrow> s' = s\<lparr>ly_sessions := ly_sessions s'\<rparr> \<and> shown lv_broadcast obs = [] \<and> shown lv_queued obs = [] \<and>
     shown lv_dropped obs = [] \<and> shown lv_batches obs = [] \<and> shown lv_row_left obs = [] \<and> shown lv_abandoned obs = []"

lemma same_restD:
  assumes "same_rest s obs s'"
  shows "ly_broadcast s' = ly_broadcast s" "ly_channel s' = ly_channel s" "ly_batch s' = ly_batch s" "ly_rows s' = ly_rows s"
    "ly_consumer s' = ly_consumer s" "ly_worker s' = ly_worker s" "ly_cancelled s' = ly_cancelled s"
    "shown lv_broadcast obs = []" "shown lv_queued obs = []" "shown lv_dropped obs = []" "shown lv_batches obs = []"
    "shown lv_row_left obs = []" "shown lv_abandoned obs = []"
proof -
  have "s' = s\<lparr>ly_sessions := ly_sessions s'\<rparr>" using assms by (simp add: same_rest_def)
  then show "ly_broadcast s' = ly_broadcast s" "ly_channel s' = ly_channel s" "ly_batch s' = ly_batch s" "ly_rows s' = ly_rows s"
    "ly_consumer s' = ly_consumer s" "ly_worker s' = ly_worker s" "ly_cancelled s' = ly_cancelled s"
    by (metis live_system.select_convs live_system.surjective live_system.update_convs)+
qed (use assms in \<open>simp_all add: same_rest_def\<close>)

lemma session_rest:
  "session_read j prints sent s = (obs, s') \<Longrightarrow> same_rest s obs s'"
  "session_lag n j s = (obs, s') \<Longrightarrow> same_rest s obs s'"
  "session_client j item s = (obs, s') \<Longrightarrow> same_rest s obs s'"
  by (auto simp: session_read_def session_lag_def session_client_def same_rest_def Let_def shown_map session_frames_quiet
      simp del: ws_step.simps split: prod.splits)

section \<open>Invariant and conservation\<close>

definition live_inv :: "live_system \<Rightarrow> bool" where
  "live_inv s \<longleftrightarrow> length (ly_channel s) \<le> PERSIST_CHANNEL \<and> length (ly_batch s) < BATCH_LEN \<and>
     (\<forall>w \<in> set (ly_sessions s). ws_cursor w \<le> length (ly_broadcast s)) \<and>
     (\<not> ly_worker s \<longrightarrow> ly_channel s = [] \<and> ly_batch s = []) \<and>
     (\<not> ly_cancelled s \<longrightarrow> ly_worker s = ly_consumer s)"

lemma session_cursors:
  assumes "\<forall>w \<in> set (ly_sessions s). ws_cursor w \<le> length (ly_broadcast s)" "i < length (ly_sessions s)"
  shows "session_client i item s = (obs, s') \<Longrightarrow> \<forall>w \<in> set (ly_sessions s'). ws_cursor w \<le> length (ly_broadcast s)"
    "ws_cursor (ly_sessions s ! i) < length (ly_broadcast s) \<Longrightarrow> session_read i prints sent s = (obs, s') \<Longrightarrow>
     \<forall>w \<in> set (ly_sessions s'). ws_cursor w \<le> length (ly_broadcast s)"
    "session_lag n i s = (obs, s') \<Longrightarrow> \<forall>w \<in> set (ly_sessions s'). ws_cursor w \<le> length (ly_broadcast s)"
  using assms
  by (auto simp: session_client_def session_read_def session_lag_def case_prod_beta Let_def simp del: ws_step.simps dest!: set_update_subset_insert [THEN subsetD])

lemma live_step_inv:
  assumes "live_inv s" "live_step p s obs s'"
  shows "live_inv s'"
  using assms(2)
proof cases
  case (lv_receive topic payload_opt shown_at fresh now)
  then show ?thesis using assms(1) live_receive_effect [OF lv_receive(2)] by (auto simp: live_inv_def live_receive_def Let_def)
next
  case (lv_row l rest env)
  then show ?thesis using assms(1) persist_wake_effect(3,13-18) [OF lv_row(3)] by (simp add: live_inv_def)
next
  case (lv_tick env)
  then show ?thesis using assms(1) persist_wake_effect(3,13-18) [OF lv_tick(2)] by (simp add: live_inv_def)
next
  case (lv_worker_shutdown env obs1 s1)
  then show ?thesis using assms(1) persist_wake_effect(13-18) [OF lv_worker_shutdown(5)] persist_wake_ends [OF lv_worker_shutdown(5)]
    by (simp add: live_inv_def BATCH_LEN_def)
next
  case (lv_worker_closed env s1)
  then show ?thesis using assms(1) persist_wake_effect(13-18) [OF lv_worker_closed(5)] persist_wake_ends [OF lv_worker_closed(5)]
    by (auto simp: live_inv_def BATCH_LEN_def)
next
  case (lv_read i prints sent)
  then show ?thesis using assms(1) session_cursors(2) [OF _ _ lv_read(2,4)] same_restD [OF session_rest(1) [OF lv_read(4)]]
    by (simp add: live_inv_def session_at_def)
next
  case (lv_lag i)
  then show ?thesis using assms(1) session_cursors(3) [OF _ _ lv_lag(3)] same_restD [OF session_rest(2) [OF lv_lag(3)]]
    by (simp add: live_inv_def session_at_def)
next
  case (lv_client i item)
  then show ?thesis using assms(1) session_cursors(1) [OF _ _ lv_client(3)] same_restD [OF session_rest(3) [OF lv_client(3)]]
    by (simp add: live_inv_def session_at_def)
qed (use assms(1) in \<open>auto simp: live_inv_def session_new_def\<close>)

definition held_rows :: "live_system \<Rightarrow> event_log list" where
  "held_rows s = ly_batch s @ ly_channel s"

interpretation live_logs: conserving "live_step p" live_inv lv_queued lv_row_left held_rows for p
proof
  fix s obs s' assume inv: "live_inv s" and step: "live_step p s obs s'"
  then show "live_inv s'" by (rule live_step_inv)
  show "held_rows s @ shown lv_queued obs = shown lv_row_left obs @ held_rows s'"
    using step
  proof cases
    case (lv_receive topic payload_opt shown_at fresh now)
    then show ?thesis using live_receive_effect [OF lv_receive(2)] by (simp add: held_rows_def)
  next
    case (lv_row l rest env)
    then show ?thesis using persist_wake_effect(1,4,6,14) [OF lv_row(3)] by (simp add: held_rows_def flip: append_assoc)
  next
    case (lv_tick env)
    then show ?thesis using persist_wake_effect(1,4,6,14) [OF lv_tick(2)] by (simp add: held_rows_def flip: append_assoc)
  next
    case (lv_worker_shutdown env obs1 s1)
    then show ?thesis using persist_wake_effect(1,4,6) [OF lv_worker_shutdown(5)] persist_wake_ends [OF lv_worker_shutdown(5)]
      by (simp add: held_rows_def shown_map)
  next
    case (lv_worker_closed env s1)
    then show ?thesis using persist_wake_effect(1,4,6,14) [OF lv_worker_closed(5)] persist_wake_ends [OF lv_worker_closed(5)]
      by (simp add: held_rows_def)
  next
    case (lv_read i prints sent)
    then show ?thesis using same_restD [OF session_rest(1) [OF lv_read(4)]] by (simp add: held_rows_def)
  next
    case (lv_lag i)
    then show ?thesis using same_restD [OF session_rest(2) [OF lv_lag(3)]] by (simp add: held_rows_def)
  next
    case (lv_client i item)
    then show ?thesis using same_restD [OF session_rest(3) [OF lv_client(3)]] by (simp add: held_rows_def)
  qed (simp_all add: held_rows_def)
qed

lemma live_step_batches:
  assumes "live_inv s" "live_step p s obs s'"
  shows "ly_rows s' = fold insert_log (taken_logs (shown lv_batches obs)) (ly_rows s) \<and>
    list_all (\<lambda>b. fst b \<noteq> [] \<and> length (fst b) \<le> BATCH_LEN) (shown lv_batches obs)"
  using assms(2)
proof cases
  case (lv_receive topic payload_opt shown_at fresh now)
  then show ?thesis using live_receive_effect [OF lv_receive(2)] by simp
next
  case (lv_row l rest env)
  then show ?thesis using assms(1) persist_wake_effect(2,3) [OF lv_row(3)] by (simp add: live_inv_def)
next
  case (lv_tick env)
  then show ?thesis using assms(1) persist_wake_effect(2,3) [OF lv_tick(2)] by (simp add: live_inv_def)
next
  case (lv_worker_shutdown env obs1 s1)
  then show ?thesis using assms(1) persist_wake_effect(2,3) [OF lv_worker_shutdown(5)] by (simp add: live_inv_def shown_map)
next
  case (lv_worker_closed env s1)
  then show ?thesis using assms(1) persist_wake_effect(2,3) [OF lv_worker_closed(5)] by (simp add: live_inv_def)
next
  case (lv_read i prints sent)
  then show ?thesis using same_restD [OF session_rest(1) [OF lv_read(4)]] by simp
next
  case (lv_lag i)
  then show ?thesis using same_restD [OF session_rest(2) [OF lv_lag(3)]] by simp
next
  case (lv_client i item)
  then show ?thesis using same_restD [OF session_rest(3) [OF lv_client(3)]] by simp
qed simp_all

lemma taken_logs_append [simp]: "taken_logs (xs @ ys) = taken_logs xs @ taken_logs ys"
  by (simp add: taken_logs_def)

lemma live_runs_batches:
  assumes "runs (live_step p) s tr s'" "live_inv s"
  shows "ly_rows s' = fold insert_log (taken_logs (shown lv_batches tr)) (ly_rows s) \<and>
    list_all (\<lambda>b. fst b \<noteq> [] \<and> length (fst b) \<le> BATCH_LEN) (shown lv_batches tr)"
  using assms
proof (induction rule: runs.induct)
  case (runs_snoc s tr s1 obs s2)
  then show ?case using live_step_batches [OF live_logs.runs_inv [OF runs_snoc(1,4)] runs_snoc(2)] by simp
qed simp

text \<open>Rows are lost before a shutdown only where the channel is full.\<close>

lemma live_step_losses:
  assumes "live_inv s" "live_step p s obs s'" "\<not> ly_cancelled s'"
  shows "\<not> ly_cancelled s \<and> shown lv_abandoned obs = []"
  using assms(2)
proof cases
  case (lv_receive topic payload_opt shown_at fresh now)
  then show ?thesis using assms(1,3) live_receive_effect [OF lv_receive(2)] by (auto simp: live_inv_def)
next
  case (lv_row l rest env)
  then show ?thesis using assms(3) persist_wake_effect(7,8,18) [OF lv_row(3)] by simp
next
  case (lv_tick env)
  then show ?thesis using assms(3) persist_wake_effect(7,8,18) [OF lv_tick(2)] by simp
next
  case (lv_worker_shutdown env obs1 s1)
  then show ?thesis using assms(3) persist_wake_effect(18) [OF lv_worker_shutdown(5)] by simp
next
  case (lv_worker_closed env s1)
  then show ?thesis using assms(3) persist_wake_effect(7,8,18) [OF lv_worker_closed(5)] by simp
next
  case (lv_read i prints sent)
  then show ?thesis using assms(3) same_restD [OF session_rest(1) [OF lv_read(4)]] by simp
next
  case (lv_lag i)
  then show ?thesis using assms(3) same_restD [OF session_rest(2) [OF lv_lag(3)]] by simp
next
  case (lv_client i item)
  then show ?thesis using assms(3) same_restD [OF session_rest(3) [OF lv_client(3)]] by simp
qed (use assms(3) in simp_all)

lemma live_step_dropped:
  assumes "live_inv s" "live_step p s obs s'" "\<not> ly_cancelled s" "shown lv_dropped obs \<noteq> []"
  shows "PERSIST_CHANNEL \<le> length (ly_channel s)"
  using assms(2)
proof cases
  case (lv_receive topic payload_opt shown_at fresh now)
  then show ?thesis using assms(1,3,4) live_receive_effect [OF lv_receive(2)] by (auto simp: live_inv_def)
next
  case (lv_row l rest env)
  then show ?thesis using assms(4) persist_wake_effect(7,8) [OF lv_row(3)] by simp
next
  case (lv_tick env)
  then show ?thesis using assms(4) persist_wake_effect(7,8) [OF lv_tick(2)] by simp
next
  case (lv_worker_closed env s1)
  then show ?thesis using assms(4) persist_wake_effect(7,8) [OF lv_worker_closed(5)] by simp
next
  case (lv_read i prints sent)
  then show ?thesis using assms(4) same_restD [OF session_rest(1) [OF lv_read(4)]] by simp
next
  case (lv_lag i)
  then show ?thesis using assms(4) same_restD [OF session_rest(2) [OF lv_lag(3)]] by simp
next
  case (lv_client i item)
  then show ?thesis using assms(4) same_restD [OF session_rest(3) [OF lv_client(3)]] by simp
qed (use assms(3,4) in simp_all)

lemma live_runs_losses:
  assumes "runs (live_step p) s tr s'" "live_inv s" "\<not> ly_cancelled s'"
  shows "\<not> ly_cancelled s \<and> shown lv_abandoned tr = []"
  using assms
proof (induction rule: runs.induct)
  case (runs_snoc s tr s1 obs s2)
  then show ?case using live_step_losses [OF live_logs.runs_inv [OF runs_snoc(1,4)] runs_snoc(2,5)] by simp
qed simp

text \<open>The row of a message goes into the channel where there is room, and is lost where there is none.\<close>

lemma live_receive_row:
  assumes "ly_worker s" "parse_log_entity (ld_from_slice d) (ld_uuid_parse d) fresh now topic payload = Some l"
  shows "shown (if length (ly_channel s) < PERSIST_CHANNEL then lv_queued else lv_dropped)
    (fst (live_receive d topic (Some payload) shown_at fresh now s)) = [l]"
  using assms by (simp add: live_receive_def Let_def shown_map)

section \<open>Sessions\<close>

definition cursor_of :: "live_system \<Rightarrow> nat \<Rightarrow> nat" where
  "cursor_of s i = ws_cursor (ly_sessions s ! i)"

definition unread :: "nat \<Rightarrow> live_system \<Rightarrow> live_event list" where
  "unread i s = drop (cursor_of s i) (ly_broadcast s)"

definition session_inv :: "nat \<Rightarrow> live_system \<Rightarrow> bool" where
  "session_inv i s \<longleftrightarrow> live_inv s \<and> i < length (ly_sessions s)"

lemma session_inv_cursor: "session_inv i s \<Longrightarrow> cursor_of s i \<le> length (ly_broadcast s)"
  by (auto simp: session_inv_def live_inv_def cursor_of_def)

text \<open>The turn of one session, as another or the same session sees it.\<close>

lemma session_length:
  "session_read j prints sent s = (obs, s') \<Longrightarrow> length (ly_sessions s') = length (ly_sessions s)"
  "session_lag n j s = (obs, s') \<Longrightarrow> length (ly_sessions s') = length (ly_sessions s)"
  "session_client j item s = (obs, s') \<Longrightarrow> length (ly_sessions s') = length (ly_sessions s)"
  by (auto simp: session_read_def session_lag_def session_client_def Let_def split: prod.splits)

lemma session_read_effect:
  assumes "session_read j prints sent s = (obs, s')" "j < length (ly_sessions s)" "ws_cursor (ly_sessions s ! j) < length (ly_broadcast s)"
  shows "unread i s = shown (lv_passed i) obs @ unread i s'"
    "cursor_of s i \<le> cursor_of s' i" "shown (lv_missed i) obs = []"
    "ws_open (ly_sessions s' ! i) \<Longrightarrow> ws_open (ly_sessions s ! i) \<or> i = j"
    "ws_node (ly_sessions s' ! i) = ws_node (ly_sessions s ! i)" "ws_topics (ly_sessions s' ! i) = ws_topics (ly_sessions s ! i)"
    "ws_open (ly_sessions s' ! i) \<Longrightarrow> shown (lv_events i) obs =
       map fst (filter (\<lambda>(e, ok). ok \<and> matches_filter e (ws_node (ly_sessions s ! i)) (ws_topics (ly_sessions s ! i))) (shown (lv_seen i) obs))"
  using assms
  by (auto simp: session_read_def case_prod_beta Let_def unread_def cursor_of_def lv_passed_def shown_map session_frames_quiet
      Cons_nth_drop_Suc nth_list_update split: if_splits)

lemma session_lag_effect:
  assumes "session_lag n j s = (obs, s')" "j < length (ly_sessions s)" "ws_cursor (ly_sessions s ! j) + n < length (ly_broadcast s)"
  shows "unread i s = shown (lv_passed i) obs @ unread i s'"
    "cursor_of s i \<le> cursor_of s' i" "shown (lv_missed i) obs \<noteq> [] \<Longrightarrow> i = j"
    "ws_open (ly_sessions s' ! i) = ws_open (ly_sessions s ! i)"
    "ws_node (ly_sessions s' ! i) = ws_node (ly_sessions s ! i)" "ws_topics (ly_sessions s' ! i) = ws_topics (ly_sessions s ! i)"
    "shown (lv_events i) obs = []" "\<forall>x \<in> set (shown (lv_seen i) obs). \<not> snd x"
proof -
  let ?c = "ws_cursor (ly_sessions s ! j)"
  let ?o = "length (ly_broadcast s) - n"
  have d: "drop ?c (ly_broadcast s) = take (?o - ?c) (drop ?c (ly_broadcast s)) @ drop ?o (ly_broadcast s)"
    using assms(3) append_take_drop_id [of "?o - ?c" "drop ?c (ly_broadcast s)"] by (simp add: drop_drop)
  show "unread i s = shown (lv_passed i) obs @ unread i s'"
    using assms(1,2) d
    by (cases "i = j") (auto simp: session_lag_def Let_def unread_def cursor_of_def lv_passed_def shown_map simp del: take_drop drop_drop)
  show "cursor_of s i \<le> cursor_of s' i" "shown (lv_missed i) obs \<noteq> [] \<Longrightarrow> i = j"
    "ws_open (ly_sessions s' ! i) = ws_open (ly_sessions s ! i)"
    "ws_node (ly_sessions s' ! i) = ws_node (ly_sessions s ! i)" "ws_topics (ly_sessions s' ! i) = ws_topics (ly_sessions s ! i)"
    "shown (lv_events i) obs = []" "\<forall>x \<in> set (shown (lv_seen i) obs). \<not> snd x"
    using assms by (auto simp: session_lag_def Let_def cursor_of_def shown_map nth_list_update split: if_splits)
qed

lemma session_client_effect:
  assumes "session_client j item s = (obs, s')" "j < length (ly_sessions s)" "from_client item" "ws_open (ly_sessions s ! j)"
  shows "shown (lv_passed i) obs = []" "unread i s' = unread i s"
    "cursor_of s' i = cursor_of s i" "shown (lv_missed i) obs = []" "shown (lv_events i) obs = []" "shown (lv_seen i) obs = []"
    "ws_open (ly_sessions s' ! i) \<Longrightarrow> ws_open (ly_sessions s ! i)"
    "shown (lv_resubscribed i) obs = [] \<Longrightarrow> ws_node (ly_sessions s' ! i) = ws_node (ly_sessions s ! i)"
    "shown (lv_resubscribed i) obs = [] \<Longrightarrow> ws_topics (ly_sessions s' ! i) = ws_topics (ly_sessions s ! i)"
  using assms
  by (auto simp: session_client_def case_prod_beta unread_def cursor_of_def lv_passed_def session_frames_quiet client_events
      nth_list_update simp del: ws_step.simps split: if_splits)

lemma live_step_session:
  assumes "session_inv i s" "live_step p s obs s'"
  shows "session_inv i s'" "unread i s @ shown lv_broadcast obs = shown (lv_passed i) obs @ unread i s'"
    "cursor_of s i \<le> cursor_of s' i" "length (ly_broadcast s) \<le> length (ly_broadcast s')"
    "shown (lv_missed i) obs \<noteq> [] \<Longrightarrow> cursor_of s i + lp_retained p < length (ly_broadcast s)"
    "ws_open (ly_sessions s' ! i) \<Longrightarrow> ws_open (ly_sessions s ! i)"
    "ws_open (ly_sessions s' ! i) \<Longrightarrow> shown (lv_resubscribed i) obs = [] \<Longrightarrow>
       ws_node (ly_sessions s' ! i) = ws_node (ly_sessions s ! i) \<and> ws_topics (ly_sessions s' ! i) = ws_topics (ly_sessions s ! i) \<and>
       shown (lv_events i) obs =
       map fst (filter (\<lambda>(e, ok). ok \<and> matches_filter e (ws_node (ly_sessions s ! i)) (ws_topics (ly_sessions s ! i))) (shown (lv_seen i) obs))"
proof -
  have inv: "live_inv s" "i < length (ly_sessions s)" "live_inv s'"
    using assms live_step_inv by (auto simp: session_inv_def)
  have le: "cursor_of s i \<le> length (ly_broadcast s)" using session_inv_cursor [OF assms(1)] .
  have "length (ly_sessions s) \<le> length (ly_sessions s') \<and> unread i s @ shown lv_broadcast obs = shown (lv_passed i) obs @ unread i s' \<and>
    cursor_of s i \<le> cursor_of s' i \<and> length (ly_broadcast s) \<le> length (ly_broadcast s') \<and>
    (shown (lv_missed i) obs \<noteq> [] \<longrightarrow> cursor_of s i + lp_retained p < length (ly_broadcast s)) \<and>
    (ws_open (ly_sessions s' ! i) \<longrightarrow> ws_open (ly_sessions s ! i)) \<and>
    (ws_open (ly_sessions s' ! i) \<longrightarrow> shown (lv_resubscribed i) obs = [] \<longrightarrow>
       ws_node (ly_sessions s' ! i) = ws_node (ly_sessions s ! i) \<and> ws_topics (ly_sessions s' ! i) = ws_topics (ly_sessions s ! i) \<and>
       shown (lv_events i) obs =
       map fst (filter (\<lambda>(e, ok). ok \<and> matches_filter e (ws_node (ly_sessions s ! i)) (ws_topics (ly_sessions s ! i))) (shown (lv_seen i) obs)))"
    using assms(2)
  proof cases
    case (lv_receive topic payload_opt shown_at fresh now)
    then show ?thesis using le live_receive_effect [OF lv_receive(2)] by (simp add: unread_def cursor_of_def)
  next
    case (lv_row l rest env)
    then show ?thesis using persist_wake_effect [OF lv_row(3)] by (simp add: unread_def cursor_of_def)
  next
    case (lv_tick env)
    then show ?thesis using persist_wake_effect [OF lv_tick(2)] by (simp add: unread_def cursor_of_def)
  next
    case (lv_worker_shutdown env obs1 s1)
    then show ?thesis using persist_wake_effect [OF lv_worker_shutdown(5)]
      by (simp add: unread_def cursor_of_def shown_map lv_passed_def)
  next
    case (lv_worker_closed env s1)
    then show ?thesis using persist_wake_effect [OF lv_worker_closed(5)] by (simp add: unread_def cursor_of_def)
  next
    case (lv_read j prints sent)
    then have "j < length (ly_sessions s)" "ws_open (ly_sessions s ! j)" by (simp_all add: session_at_def)
    then show ?thesis using session_read_effect [OF lv_read(4) _ lv_read(2), of i] session_length(1) [OF lv_read(4)] same_restD [OF session_rest(1) [OF lv_read(4)]] by auto
  next
    case (lv_lag j)
    then have "j < length (ly_sessions s)" by (simp add: session_at_def)
    then show ?thesis
      using session_lag_effect [OF lv_lag(3) _ lv_lag(2), of i] session_length(2) [OF lv_lag(3)] same_restD [OF session_rest(2) [OF lv_lag(3)]] lv_lag(2)
      by (auto simp: cursor_of_def filter_empty_conv)
  next
    case (lv_client j item)
    then have "j < length (ly_sessions s)" "ws_open (ly_sessions s ! j)" by (simp_all add: session_at_def)
    then show ?thesis using session_client_effect [OF lv_client(3) _ lv_client(2), of i] session_length(3) [OF lv_client(3)] same_restD [OF session_rest(3) [OF lv_client(3)]] by auto
  qed (use inv(2) in \<open>simp_all add: unread_def cursor_of_def nth_append\<close>)
  then show "session_inv i s'" "unread i s @ shown lv_broadcast obs = shown (lv_passed i) obs @ unread i s'"
    "cursor_of s i \<le> cursor_of s' i" "length (ly_broadcast s) \<le> length (ly_broadcast s')"
    "shown (lv_missed i) obs \<noteq> [] \<Longrightarrow> cursor_of s i + lp_retained p < length (ly_broadcast s)"
    "ws_open (ly_sessions s' ! i) \<Longrightarrow> ws_open (ly_sessions s ! i)"
    "ws_open (ly_sessions s' ! i) \<Longrightarrow> shown (lv_resubscribed i) obs = [] \<Longrightarrow>
       ws_node (ly_sessions s' ! i) = ws_node (ly_sessions s ! i) \<and> ws_topics (ly_sessions s' ! i) = ws_topics (ly_sessions s ! i) \<and>
       shown (lv_events i) obs =
       map fst (filter (\<lambda>(e, ok). ok \<and> matches_filter e (ws_node (ly_sessions s ! i)) (ws_topics (ly_sessions s ! i))) (shown (lv_seen i) obs))"
    using inv by (auto simp: session_inv_def)
qed

interpretation live_session: conserving "live_step p" "session_inv i" lv_broadcast "lv_passed i" "unread i" for p i
  by unfold_locales (rule live_step_session; assumption)+

section \<open>Properties\<close>

text \<open>The API once it listens: its state, its address, and its live side.\<close>

definition api_run :: "api_world \<Rightarrow> ((string \<times> string) list \<Rightarrow> (string, unit) result) \<Rightarrow> (string list \<Rightarrow> (string, unit) result) \<Rightarrow> event_log list
    \<Rightarrow> (api_start_error, app_state \<times> string \<times> live_system) result" where
  "api_run w create subscribe rows =
     map_ok (\<lambda>(state, topics, addr). (state, addr,
         start_kafka_consumer create subscribe (st_kafka_brokers (st_config state)) (st_kafka_consumer_group (st_config state)) topics rows))
       (api_start w)"

lemma live_start_inv: "live_inv (start_kafka_consumer create subscribe brokers group_id topics rows)"
  by (simp add: live_inv_def start_kafka_consumer_def Let_def BATCH_LEN_def)

text \<open>Rows are abandoned when the worker ends, after which it hands over no batch.\<close>

lemma live_step_row_left:
  assumes "live_step p s obs s'"
  shows "shown lv_row_left obs = concat (map fst (shown lv_batches obs)) @ shown lv_abandoned obs \<and>
    (shown lv_abandoned obs \<noteq> [] \<longrightarrow> \<not> ly_worker s') \<and>
    (\<not> ly_worker s \<longrightarrow> \<not> ly_worker s' \<and> shown lv_batches obs = [] \<and> shown lv_abandoned obs = [])"
  using assms
proof cases
  case (lv_receive topic payload_opt shown_at fresh now)
  then show ?thesis using live_receive_effect [OF lv_receive(2)] by simp
next
  case (lv_row l rest env)
  then show ?thesis using persist_wake_effect(4,8) [OF lv_row(3)] by simp
next
  case (lv_tick env)
  then show ?thesis using persist_wake_effect(4,8) [OF lv_tick(2)] by simp
next
  case (lv_worker_shutdown env obs1 s1)
  then show ?thesis using persist_wake_effect(4,8) [OF lv_worker_shutdown(5)] by (simp add: shown_map)
next
  case (lv_worker_closed env s1)
  then show ?thesis using persist_wake_effect(4,8) [OF lv_worker_closed(5)] by simp
next
  case (lv_read i prints sent)
  then show ?thesis using same_restD [OF session_rest(1) [OF lv_read(4)]] by simp
next
  case (lv_lag i)
  then show ?thesis using same_restD [OF session_rest(2) [OF lv_lag(3)]] by simp
next
  case (lv_client i item)
  then show ?thesis using same_restD [OF session_rest(3) [OF lv_client(3)]] by simp
qed simp_all

lemma live_runs_row_left:
  assumes "runs (live_step p) s tr s'"
  shows "shown lv_row_left tr = concat (map fst (shown lv_batches tr)) @ shown lv_abandoned tr \<and>
    (shown lv_abandoned tr \<noteq> [] \<longrightarrow> \<not> ly_worker s')"
  using assms
proof (induction rule: runs.induct)
  case (runs_snoc s tr s1 obs s2)
  then show ?case using live_step_row_left [OF runs_snoc(2)] by (cases "shown lv_abandoned tr = []") auto
qed simp

text \<open>C7: The log of the platform accounts for every row. Along every interleaving of the consumer, the worker, the
  sessions and the shutdown, with any answers of the database, the rows queued are, in order, those of the batches
  handed to it, those the worker left in the channel at the shutdown, and those it still has; the batches have one to fifty
  rows, and the table is what inserting the batches the database took, one after the other, makes of it: the rows of a batch it refused
  are lost. As long as there was no shutdown no row is left behind, and wherever such a run has got to, the row of the next message is
  queued if the channel has fewer than ten thousand rows at that moment, and no step drops a row unless it has ten thousand.\<close>

theorem live_accounts_for_logs:
  assumes "s0 = start_kafka_consumer create subscribe brokers group_id topics rows" and "runs (live_step p) s0 tr s"
  shows "shown lv_queued tr = concat (map fst (shown lv_batches tr)) @ shown lv_abandoned tr @ ly_batch s @ ly_channel s \<and>
    list_all (\<lambda>b. fst b \<noteq> [] \<and> length (fst b) \<le> 50) (shown lv_batches tr) \<and>
    ly_rows s = fold insert_log (taken_logs (shown lv_batches tr)) rows \<and>
    (\<not> ly_cancelled s \<longrightarrow> shown lv_abandoned tr = [] \<and>
       (\<forall>topic payload shown_at fresh now l. ly_consumer s \<and> length (ly_channel s) < 10000 \<and>
          parse_log_entity (ld_from_slice (lp_deps p)) (ld_uuid_parse (lp_deps p)) fresh now topic payload = Some l \<longrightarrow>
          shown lv_queued (fst (live_receive (lp_deps p) topic (Some payload) shown_at fresh now s)) = [l]) \<and>
       (\<forall>obs s'. live_step p s obs s' \<and> shown lv_dropped obs \<noteq> [] \<longrightarrow> length (ly_channel s) = 10000))"
proof -
  have inv0: "live_inv s0" unfolding assms(1) by (rule live_start_inv)
  have s0: "held_rows s0 = []" "ly_rows s0 = rows" by (simp_all add: assms(1) start_kafka_consumer_def Let_def held_rows_def)
  have inv: "live_inv s" by (rule live_logs.runs_inv [OF assms(2) inv0])
  have "shown lv_queued tr = shown lv_row_left tr @ held_rows s" by (rule live_logs.runs_from_empty [OF assms(2) inv0 s0(1)])
  moreover have "length (ly_channel s) = 10000" if "\<not> ly_cancelled s" "live_step p s obs s'" "shown lv_dropped obs \<noteq> []" for obs s'
    using live_step_dropped [OF inv that(2,1,3)] inv by (simp add: live_inv_def PERSIST_CHANNEL_def)
  moreover have "shown lv_queued (fst (live_receive (lp_deps p) topic (Some payload) shown_at fresh now s)) = [l]"
    if "\<not> ly_cancelled s" "ly_consumer s" "length (ly_channel s) < 10000"
      "parse_log_entity (ld_from_slice (lp_deps p)) (ld_uuid_parse (lp_deps p)) fresh now topic payload = Some l"
    for topic payload shown_at fresh now l
    using live_receive_row [OF _ that(4), of s] inv that(1-3) by (simp add: live_inv_def PERSIST_CHANNEL_def)
  ultimately show ?thesis
    using live_runs_row_left [OF assms(2)] live_runs_batches [OF assms(2) inv0] live_runs_losses [OF assms(2) inv0] s0
    by (simp add: held_rows_def BATCH_LEN_def) blast
qed

lemma live_runs_session:
  assumes "runs (live_step p) s tr s'" "session_inv i s"
  shows "cursor_of s i \<le> cursor_of s' i \<and> length (ly_broadcast s) \<le> length (ly_broadcast s') \<and>
    (ws_open (ly_sessions s' ! i) \<longrightarrow> ws_open (ly_sessions s ! i)) \<and>
    (length (ly_broadcast s') \<le> cursor_of s i + lp_retained p \<longrightarrow> shown (lv_missed i) tr = []) \<and>
    (ws_open (ly_sessions s' ! i) \<longrightarrow> shown (lv_resubscribed i) tr = [] \<longrightarrow>
       ws_node (ly_sessions s' ! i) = ws_node (ly_sessions s ! i) \<and> ws_topics (ly_sessions s' ! i) = ws_topics (ly_sessions s ! i) \<and>
       shown (lv_events i) tr =
       map fst (filter (\<lambda>(e, ok). ok \<and> matches_filter e (ws_node (ly_sessions s ! i)) (ws_topics (ly_sessions s ! i))) (shown (lv_seen i) tr)))"
  using assms
proof (induction rule: runs.induct)
  case (runs_snoc s tr s1 obs s2)
  note st = live_step_session [OF live_session.runs_inv [OF runs_snoc(1,4)] runs_snoc(2)]
  have miss: "shown (lv_missed i) obs = []" if "length (ly_broadcast s2) \<le> cursor_of s i + lp_retained p"
    using st(4,5) that runs_snoc.IH [OF runs_snoc.prems] by fastforce
  show ?case using st(3,4,6,7) miss runs_snoc.IH [OF runs_snoc.prems] by auto
qed simp

lemma session_passed_seen: "shown (lv_passed i) tr = map fst (shown (lv_seen i) tr)"
  by (induction tr) (simp_all add: lv_passed_def)

text \<open>C8: A dashboard sees what it subscribed to. Take a session of the running API, and any interleaving after which it is
  still connected and in which it did not change its subscription: the events it received or missed are, in order, those broadcast
  since, up to those it has still to read; the events it sent are exactly those received that print and that its node and topics
  let through; and none was missed unless more were broadcast than the channel keeps.\<close>

theorem session_shows_subscription:
  assumes "runs (live_step p) (start_kafka_consumer create subscribe brokers group_id topics rows) tr0 s"
    and "i < length (ly_sessions s)" and "w = ly_sessions s ! i"
    and "runs (live_step p) s tr s'" and "ws_open (ly_sessions s' ! i)" and "shown (lv_resubscribed i) tr = []"
  shows "unread i s @ shown lv_broadcast tr = map fst (shown (lv_seen i) tr) @ unread i s' \<and>
    shown (lv_events i) tr = map fst (filter (\<lambda>(e, ok). ok \<and> matches_filter e (ws_node w) (ws_topics w)) (shown (lv_seen i) tr)) \<and>
    (length (ly_broadcast s') \<le> ws_cursor w + lp_retained p \<longrightarrow> shown (lv_missed i) tr = [])"
proof -
  have inv: "session_inv i s" using live_logs.runs_inv [OF assms(1) live_start_inv] assms(2) by (simp add: session_inv_def)
  show ?thesis
    using live_session.runs_conserves [OF assms(4) inv] live_runs_session [OF assms(4) inv] assms(3,5,6)
    by (simp add: session_passed_seen cursor_of_def)
qed

section \<open>An example run\<close>

definition demo_live_params :: live_params where
  "demo_live_params = \<lparr>lp_deps = \<lparr>ld_from_live = (\<lambda>_. None), ld_from_slice = (\<lambda>_. Some (JObject [(''node_id'', JString ''n'')])),
     ld_uuid_parse = (\<lambda>_. Some 1)\<rparr>, lp_retained = 8192\<rparr>"

definition demo_live :: live_system where
  "demo_live = start_kafka_consumer (\<lambda>_. Inr ()) (\<lambda>_. Inr ()) ''b'' ''g'' LIVE_TOPICS []"

definition demo_live_opened :: live_system where
  "demo_live_opened = demo_live\<lparr>ly_sessions := [session_new (Some ''logs'') None 0]\<rparr>"

definition demo_live_event :: live_event where
  "demo_live_event = LiveLog ''n'' ''unknown'' ''unknown'' (JObject [(''node_id'', JString ''n'')]) 5"

definition demo_row :: event_log where
  "demo_row = \<lparr>el_event_id = 7, el_node_id = 1, el_event_type = ''unknown'', el_hostname = ''unknown'',
     el_payload = JObject [(''node_id'', JString ''n'')], el_raw_sequence_id = None, el_recorded_at = 5\<rparr>"

definition demo_live_received :: live_system where
  "demo_live_received = demo_live_opened\<lparr>ly_broadcast := [demo_live_event], ly_channel := [demo_row]\<rparr>"

definition demo_live_read :: live_system where
  "demo_live_read = demo_live_received\<lparr>ly_sessions := [(session_new (Some ''logs'') None 0)\<lparr>ws_cursor := 1\<rparr>]\<rparr>"

lemma demo_live_opens: "runs (live_step demo_live_params) demo_live [] demo_live_opened"
proof -
  have "ly_sessions demo_live @ [session_new (Some ''logs'') None (length (ly_broadcast demo_live))] = [session_new (Some ''logs'') None 0]"
    by (simp add: demo_live_def start_kafka_consumer_def Let_def)
  then show ?thesis
    using runs_step [where step = "live_step demo_live_params", OF lv_open [of _ demo_live "Some ''logs''" None]]
    by (simp add: demo_live_opened_def)
qed

lemma demo_live_receives:
  "live_step demo_live_params demo_live_opened [LvBroadcast demo_live_event, LvQueued demo_row] demo_live_received"
proof (rule lv_receive)
  show "ly_consumer demo_live_opened"
    by (simp add: demo_live_opened_def demo_live_def start_kafka_consumer_def Let_def is_ok_def)
  show "live_receive (lp_deps demo_live_params) ''aigis.events.raw'' (Some ''x'') 5 7 5 demo_live_opened =
      ([LvBroadcast demo_live_event, LvQueued demo_row], demo_live_received)"
    by (simp add: live_receive_def demo_live_params_def parse_kafka_message_def parse_log_entity_def parse_live_log_def starts_with_def
        node_id_value_def event_type_value_def hostname_value_def timestamp_value_def nonempty_or_unknown_def jget_def
        demo_live_opened_def demo_live_def demo_live_received_def start_kafka_consumer_def Let_def is_ok_def PERSIST_CHANNEL_def
        demo_live_event_def demo_row_def or_else_def)
qed

lemma demo_live_reads:
  "live_step demo_live_params demo_live_received [LvSaw 0 demo_live_event True, LvSent 0 (EventFrame demo_live_event)] demo_live_read"
proof (rule lv_read [where i = 0 and prints = True and sent = True])
  have w: "ly_sessions demo_live_received = [session_new (Some ''logs'') None 0]"
    by (simp add: demo_live_received_def demo_live_opened_def)
  have topics: "parse_topics (Some ''logs'') = [''logs'']" by code_simp
  show "session_at demo_live_received 0" "ws_cursor (ly_sessions demo_live_received ! 0) < length (ly_broadcast demo_live_received)"
    "length (ly_broadcast demo_live_received) \<le> ws_cursor (ly_sessions demo_live_received ! 0) + lp_retained demo_live_params"
    by (simp_all add: session_at_def w session_new_def demo_live_params_def) (simp_all add: demo_live_received_def)
  show "session_read 0 True True demo_live_received =
      ([LvSaw 0 demo_live_event True, LvSent 0 (EventFrame demo_live_event)], demo_live_read)"
    by (simp add: session_read_def w session_new_def topics matches_filter_def demo_live_read_def)
      (simp add: demo_live_received_def demo_live_event_def demo_live_opened_def session_new_def topics Let_def)
qed

lemma demo_live_runs:
  "runs (live_step demo_live_params) demo_live [LvBroadcast demo_live_event, LvQueued demo_row] demo_live_received"
  "runs (live_step demo_live_params) demo_live_opened
     ([LvBroadcast demo_live_event, LvQueued demo_row] @ [LvSaw 0 demo_live_event True, LvSent 0 (EventFrame demo_live_event)]) demo_live_read"
  using runs_snoc [where step = "live_step demo_live_params", OF demo_live_opens demo_live_receives]
    runs_snoc [where step = "live_step demo_live_params", OF runs_step [where step = "live_step demo_live_params", OF demo_live_receives] demo_live_reads]
  by simp_all

theorem live_accounts_for_logs_witness:
  "shown lv_queued [LvBroadcast demo_live_event, LvQueued demo_row] =
     concat (map fst (shown lv_batches [LvBroadcast demo_live_event, LvQueued demo_row])) @
     shown lv_abandoned [LvBroadcast demo_live_event, LvQueued demo_row] @ ly_batch demo_live_received @ ly_channel demo_live_received \<and>
   ly_channel demo_live_received = [demo_row]"
  using live_accounts_for_logs [OF demo_live_def demo_live_runs(1)] by (simp add: demo_live_received_def)

theorem session_shows_subscription_witness:
  "\<exists>tr. runs (live_step demo_live_params) demo_live_opened tr demo_live_read \<and> shown (lv_events 0) tr = [demo_live_event] \<and>
     shown (lv_missed 0) tr = []"
  using session_shows_subscription [OF demo_live_opens [unfolded demo_live_def] _ refl demo_live_runs(2)] demo_live_runs(2)
  by (intro exI [of _ "[LvBroadcast demo_live_event, LvQueued demo_row] @ [LvSaw 0 demo_live_event True, LvSent 0 (EventFrame demo_live_event)]"])
    (simp add: demo_live_opened_def demo_live_read_def session_new_def)

text \<open>A row that the consumer makes of a message can get to the table.\<close>

lemma row_can_be_taken:
  assumes "parse_log_entity (ld_from_slice (lp_deps p)) (ld_uuid_parse (lp_deps p)) fresh now topic payload = Some l"
  shows "\<exists>tr ly. runs (live_step p) (start_kafka_consumer (\<lambda>_. Inr ()) (\<lambda>_. Inr ()) brokers group_id topics []) tr ly \<and>
    taken_logs (shown lv_batches tr) = [l]"
proof -
  let ?s0 = "start_kafka_consumer (\<lambda>_. Inr ()) (\<lambda>_. Inr ()) brokers group_id topics []"
  let ?env = "\<lparr>re_pool = Inr (), re_fault = (\<lambda>_. None)\<rparr>"
  obtain obs1 s1 where r: "live_receive (lp_deps p) topic (Some payload) now fresh now ?s0 = (obs1, s1)" by fastforce
  have s0: "ly_consumer ?s0" "ly_worker ?s0" "ly_channel ?s0 = []" "ly_batch ?s0 = []" "ly_rows ?s0 = []"
    by (simp_all add: start_kafka_consumer_def Let_def is_ok_def)
  have s1: "ly_channel s1 = [l]" "ly_worker s1" "ly_batch s1 = []" "ly_rows s1 = []" "shown lv_batches obs1 = []"
    using live_receive_effect [OF r] s0 live_receive_row [OF s0(2) assms, of now] r by (simp_all add: PERSIST_CHANNEL_def)
  let ?s2 = "s1\<lparr>ly_channel := [], ly_batch := [l]\<rparr>"
  have "persist_wake (PersistLog l ?env) (s1\<lparr>ly_channel := []\<rparr>) = ([], ?s2)"
    using s1 by (simp add: persist_wake_def Let_def BATCH_LEN_def)
  then have row: "live_step p s1 [] ?s2" by (rule lv_row [OF s1(2,1)])
  obtain s3 where "persist_wake (PersistTick ?env) ?s2 = ([LvBatch [l] True], s3)"
    using s1 by (simp add: persist_wake_def logs_insert_batch_def is_ok_def)
  then have tick: "live_step p ?s2 [LvBatch [l] True] s3" by (rule lv_tick [rotated]) (simp add: s1)
  have "runs (live_step p) ?s0 (obs1 @ [] @ [LvBatch [l] True]) s3"
    using runs_step_then [of "live_step p", OF lv_receive [OF s0(1) r] runs_step_then [of "live_step p", OF row runs_step [of "live_step p", OF tick]]] .
  then show ?thesis using s1(5) by (intro exI [of _ "obs1 @ [] @ [LvBatch [l] True]"] exI [of _ s3]) (simp add: taken_logs_def)
qed

text \<open>At the shutdown the worker hands over what it holds and leaves the channel: the row that was queued is gone.\<close>

lemma live_shutdown_loses_row:
  "\<exists>tr s. runs (live_step demo_live_params) demo_live tr s \<and> shown lv_queued tr = [demo_row] \<and> shown lv_abandoned tr = [demo_row] \<and>
     ly_rows s = [] \<and> \<not> ly_worker s"
proof -
  let ?c = "demo_live_received\<lparr>ly_cancelled := True\<rparr>"
  let ?env = "\<lparr>re_pool = Inr (), re_fault = (\<lambda>_. None)\<rparr>"
  have up: "ly_worker ?c" "ly_channel ?c = [demo_row]" "ly_batch ?c = []" "ly_rows ?c = []"
    by (simp_all add: demo_live_received_def demo_live_opened_def demo_live_def start_kafka_consumer_def Let_def is_ok_def)
  have wake: "persist_wake (PersistShutdown ?env) ?c = ([], ?c)"
    using up by (simp add: persist_wake_def)
  have "live_step demo_live_params ?c ([] @ map LvAbandoned (ly_channel ?c)) (?c\<lparr>ly_worker := False, ly_channel := []\<rparr>)"
    by (rule lv_worker_shutdown [OF up(1) _ wake]) simp
  then have "runs (live_step demo_live_params) demo_live (([LvBroadcast demo_live_event, LvQueued demo_row] @ []) @ [LvAbandoned demo_row])
      (?c\<lparr>ly_worker := False, ly_channel := []\<rparr>)"
    using runs_snoc [where step = "live_step demo_live_params",
        OF runs_snoc [where step = "live_step demo_live_params", OF demo_live_runs(1) lv_cancel]] up(2) by simp
  then show ?thesis using up(4) by (intro exI) (erule conjI, simp)
qed

end
