(* ===== verification/AlertPath.thy ===== *)
theory AlertPath
  imports RuleService LiveSystem Schema
begin

text \<open>
  The path of an alert: from the batches that the rule engine's sink accepts, through the table that both services
  declare, to the answer an operator gets from the API.
\<close>

section \<open>The rows of the table\<close>

lemma send_batch_rows:
  "send_batch env as k = (r, k') \<Longrightarrow>
     as_alerts k' = (if is_ok r then fold insert_row (map entity_of_alert as) (as_alerts k) else as_alerts k)"
  by (auto simp: send_batch_def insert_alerts_def Let_def fold_publish_alerts split: if_splits sum.splits)

lemma flush_batch_rows:
  "flush_batch send_batch env b s = (x, s') \<Longrightarrow>
     as_alerts (bt_sink s') = fold insert_row (map entity_of_alert (accepted [x])) (as_alerts (bt_sink s))"
  by (auto simp: flush_batch_def accepted_def split: prod.splits dest!: send_batch_rows)

lemma batcher_run_rows:
  "as_alerts (bt_sink (snd (batcher_run send_batch n i items s))) =
     fold insert_row (map entity_of_alert (accepted (fst (batcher_run send_batch n i items s)))) (as_alerts (bt_sink s))"
proof (rule batcher_run_induct [where P = "\<lambda>items s bs s'. as_alerts (bt_sink s') =
    fold insert_row (map entity_of_alert (accepted bs)) (as_alerts (bt_sink s))"])
  show "as_alerts (bt_sink s') = fold insert_row (map entity_of_alert (accepted (x # bs))) (as_alerts (bt_sink s))"
    if "flush_batch send_batch env (bt_buffer s @ [a]) (s\<lparr>bt_buffer := bt_buffer s @ [a]\<rparr>) = (x, s2)"
      "as_alerts (bt_sink s') = fold insert_row (map entity_of_alert (accepted bs)) (as_alerts (bt_sink (s2\<lparr>bt_last_flush := later\<rparr>)))"
    for a env later s x s2 bs s'
    using flush_batch_rows [OF that(1)] that(2) accepted_Cons [of x bs] by simp
  show "as_alerts (bt_sink s') = fold insert_row (map entity_of_alert (accepted (x # bs))) (as_alerts (bt_sink s))"
    if "flush_batch send_batch env (bt_buffer s) s = (x, s2)"
      "as_alerts (bt_sink s') = fold insert_row (map entity_of_alert (accepted bs)) (as_alerts (bt_sink (s2\<lparr>bt_last_flush := later\<rparr>)))"
    for env later s x s2 bs s'
    using flush_batch_rows [OF that(1)] that(2) accepted_Cons [of x bs] by simp
  show "as_alerts (bt_sink s2) = fold insert_row (map entity_of_alert (accepted [x])) (as_alerts (bt_sink s))"
    if "flush_batch send_batch env (bt_buffer s @ pending) s = (x, s2)" for env pending s x s2
    using flush_batch_rows [OF that] .
  show "as_alerts (bt_sink (s\<lparr>bt_sink := k, bt_buffer := []\<rparr>)) =
      fold insert_row (map entity_of_alert (accepted [(bt_buffer s, is_ok r)])) (as_alerts (bt_sink s))"
    if "send_batch env (bt_buffer s) (bt_sink s) = (r, k)" for env s r k
    using send_batch_rows [OF that] by (simp add: accepted_def)
qed simp_all

lemma batch_wake_rows:
  assumes "batch_wake p item queue e = (obs, e')"
  shows "as_alerts (bt_sink (es_batcher e')) =
    fold insert_row (map entity_of_alert (accepted (shown obs_batch obs))) (as_alerts (bt_sink (es_batcher e)))"
proof -
  obtain bs b1 where r: "batcher_run send_batch (ep_max_size p) (ep_interval p) [item] (es_batcher e) = (bs, b1)" by fastforce
  then have "obs = map (\<lambda>(b, taken). ObsBatch b taken) bs" "bt_sink (es_batcher e') = bt_sink b1"
    using assms by (auto simp: batch_wake_def)
  then show ?thesis
    using batcher_run_rows [of "ep_max_size p" "ep_interval p" "[item]" "es_batcher e"] by (simp add: r shown_map case_prod_unfold)
qed

lemma engine_step_rows:
  assumes "engine_step p e obs e'"
  shows "as_alerts (bt_sink (es_batcher e')) =
    fold insert_row (map entity_of_alert (accepted (shown obs_batch obs))) (as_alerts (bt_sink (es_batcher e)))"
  using assms
proof cases
  case (es_batch_alert a rest now later env)
  then show ?thesis using batch_wake_rows [OF es_batch_alert(3)] by simp
next
  case (es_batch_sleep now later env)
  then show ?thesis using batch_wake_rows [OF es_batch_sleep(2)] by simp
next
  case (es_batch_shutdown env e1)
  then show ?thesis using batch_wake_rows [OF es_batch_shutdown(4)] by simp
qed (auto simp: hang_up_same shown_map step_same consume_effect scan_take_effect scan_alert_effect)

lemma engine_runs_rows:
  "runs (engine_step p) e tr e' \<Longrightarrow> as_alerts (bt_sink (es_batcher e')) =
    fold insert_row (map entity_of_alert (accepted (shown obs_batch tr))) (as_alerts (bt_sink (es_batcher e)))"
  by (induction rule: runs.induct) (auto simp: engine_step_rows accepted_append)

lemma fold_insert_row_fresh:
  "distinct (map na_alert_id (rows @ es)) \<Longrightarrow> fold insert_row es rows = rows @ es"
  by (induction es arbitrary: rows) (auto simp: insert_row_def)

lemma find_distinct:
  "distinct (map f xs) \<Longrightarrow> x \<in> set xs \<Longrightarrow> find (\<lambda>y. f y = f x) xs = Some x"
  by (induction xs) auto

section \<open>Between the services\<close>

text \<open>The rows the engine writes, read by the API: the columns of the insert, with the times as TIMESTAMPTZ keeps them, selected by name.\<close>

definition alerts_across :: "(timestamp \<Rightarrow> timestamp) \<Rightarrow> new_alert_entity list \<Rightarrow> new_alert_entity list option" where
  "alerts_across tz rows = those (map (\<lambda>a. alert_entity (new_alert_columns tz a)) rows)"

definition stored_alert :: "(timestamp \<Rightarrow> timestamp) \<Rightarrow> new_alert_entity \<Rightarrow> new_alert_entity" where
  "stored_alert tz a = a\<lparr>na_created_at := tz (na_created_at a)\<rparr>"

lemma alerts_across_stored: "alerts_across tz rows = Some (map (stored_alert tz) rows)"
  by (induction rows) (simp_all add: alerts_across_def selects_read_inserts stored_alert_def)

lemma stored_alert_id [simp]: "na_alert_id (stored_alert tz a) = na_alert_id a"
  by (simp add: stored_alert_def)

section \<open>Properties\<close>


lemma demo_stored: "accepted (shown obs_batch (demo_sent_trace @ fst demo_flushed)) = [demo_alert]"
proof -
  have "bt_buffer (es_batcher demo_quiet) = []" "as_alerts (bt_sink (es_batcher demo_quiet)) = as_alerts (bt_sink (es_batcher demo_quiet))"
    by (simp_all add: demo_quiet_def demo_sent_state)
  then show ?thesis
    by (simp add: demo_flushed_def batch_wake_def demo_sent_trace_def flush_batch_def send_batch_def insert_alerts_def demo_flush_env_def
        accepted_def Let_def split: prod.split sum.split)
qed


end
