(* ===== verification/Platform.thy ===== *)
theory Platform
  imports AgentMain OsqueryTool FleetModules FleetMain PipelineMain AlertPath
begin

text \<open>
  The services on their shared tables. The fleet server's \<open>RegisterAgent\<close> and \<open>Heartbeat\<close> and the operators'
  requests to the API write the same \<open>nodes\<close> table from separate processes, each request one transaction.
  \<open>fleet_run\<close> is any interleaving of them, with any of their faults; the lemmas say what each kind of request
  does to a node's row. Then an agent's streams at the server, connection by connection, and the path of an event through the
  router to the rule engine and the log.
\<close>

section \<open>Interleavings\<close>

text \<open>The write to the operator status that an answer confirms.\<close>

definition operator_writes :: "api_request \<Rightarrow> (api_error, api_response) result \<Rightarrow> (uuid \<times> string) list" where
  "operator_writes req res =
     (if \<not> is_ok res then []
      else case req of IsolateNode i reason \<Rightarrow> [(i, ''isolated'')] | UnisolateNode i \<Rightarrow> [(i, ''active'')] | _ \<Rightarrow> [])"

inductive fleet_run :: "fleet_deps \<Rightarrow> fleet_settings \<Rightarrow> fleet_db \<Rightarrow> (uuid \<times> string) list \<Rightarrow> fleet_db \<Rightarrow> bool"
  for d :: fleet_deps and st :: fleet_settings and db :: fleet_db where
  run_start: "fleet_run d st db [] db"
| run_register: "fleet_run d st db w db1 \<Longrightarrow> fleet_run d st db w (snd (server_register d st env md req db1))"
| run_heartbeat: "fleet_run d st db w db1 \<Longrightarrow> fleet_run d st db w (snd (server_heartbeat d st now henv md hreq db1))"
| run_operator: "fleet_run d st db w db1 \<Longrightarrow>
    api_handle e header areq \<lparr>ap_nodes = db1, ap_alerts = alerts, ap_logs = ls\<rparr> = (res, api') \<Longrightarrow>
    fleet_run d st db (w @ operator_writes areq res) (ap_nodes api')"

section \<open>What a request does to a row\<close>

text \<open>\<open>keeps_rows\<close>: every row stays, with its machine and its operator status.\<close>

definition keeps_rows :: "fleet_db \<Rightarrow> fleet_db \<Rightarrow> bool" where
  "keeps_rows db db' \<longleftrightarrow> (\<forall>i n. node_row_of db i = Some n \<longrightarrow>
     (\<exists>n'. node_row_of db' i = Some n' \<and> nd_machine_id n' = nd_machine_id n \<and> nd_operator_status n' = nd_operator_status n))"

text \<open>The values of the two status columns.\<close>

definition typed_node :: "node_row \<Rightarrow> bool" where
  "typed_node n \<longleftrightarrow> nd_operator_status n \<in> {''active'', ''isolated''} \<and> nd_agent_status n \<in> {''healthy'', ''degraded''}"

definition typed_db :: "fleet_db \<Rightarrow> bool" where
  "typed_db db \<longleftrightarrow> list_all typed_node (db_nodes db) \<and>
     list_all (\<lambda>h. nh_agent_status h \<in> {''healthy'', ''degraded''}) (db_node_health db)"

lemma keeps_rows_refl [simp]: "keeps_rows db db"
  by (simp add: keeps_rows_def)

lemma keeps_rows_map:
  assumes "db_nodes db' = map f (db_nodes db)"
    and "\<And>n. nd_node_id (f n) = nd_node_id n \<and> nd_machine_id (f n) = nd_machine_id n \<and> nd_operator_status (f n) = nd_operator_status n"
  shows "keeps_rows db db'"
  using assms by (simp add: keeps_rows_def node_row_of_def find_map_option)

lemma keeps_rows_append:
  assumes "db_nodes db' = db_nodes db @ rows"
  shows "keeps_rows db db'"
  using assms by (auto simp: keeps_rows_def node_row_of_def find_append)

lemma insert_audit_nodes: "insert_audit env r i ty db = Inr db' \<Longrightarrow> db_nodes db' = db_nodes db \<and> db_node_health db' = db_node_health db"
  by (auto simp: insert_audit_def split: if_splits)

lemma upsert_node_rows:
  shows "keeps_rows db (snd (upsert_node uuid_str env r db))"
    and "typed_db db \<Longrightarrow> typed_db (snd (upsert_node uuid_str env r db))"
proof -
  have w: "keeps_rows db db' \<and> (typed_db db \<longrightarrow> typed_db db')"
    if "upsert_write env r ex db = Inr (i, db')" for ex i db'
    using that
  proof (cases rule: upsert_writeE)
    case (fresh db1)
    then have "db_nodes db' = db_nodes db @ [last (db_nodes db1)]" "typed_node (last (db_nodes db1))" "db_node_health db' = db_node_health db"
      using insert_audit_nodes [OF fresh(4)] by (auto simp: insert_node_def typed_node_def split: if_splits)
    then show ?thesis by (auto simp: typed_db_def intro: keeps_rows_append)
  next
    case (again db1)
    let ?f = "\<lambda>n. if nd_node_id n = i then n\<lparr>nd_hostname := nr_hostname r, nd_os_version := nr_os_version r,
        nd_agent_version := nr_agent_version r, nd_last_enrolled_at := ue_now env\<rparr> else n"
    have n: "db_nodes db' = map ?f (db_nodes db)" "db_node_health db' = db_node_health db"
      using again insert_audit_nodes [OF again(3)] by (auto simp: update_node_def split: if_splits)
    then show ?thesis
      using keeps_rows_map [OF n(1)] by (auto simp: typed_db_def list_all_iff typed_node_def)
  qed
  show "keeps_rows db (snd (upsert_node uuid_str env r db))" "typed_db db \<Longrightarrow> typed_db (snd (upsert_node uuid_str env r db))"
    by (rule upsert_node_cases [of uuid_str env r db]; use w in auto)+
qed

lemma store_heartbeat_rows:
  shows "keeps_rows db (snd (store_heartbeat uuid_parse env r db))"
    and "typed_db db \<Longrightarrow> hbr_agent_status r \<in> {''healthy'', ''degraded''} \<Longrightarrow> typed_db (snd (store_heartbeat uuid_parse env r db))"
proof -
  show "keeps_rows db (snd (store_heartbeat uuid_parse env r db))"
  proof (cases rule: store_heartbeat_cases [of uuid_parse env r db])
    case (stored i row)
    then show ?thesis
      by (auto intro!: keeps_rows_map [where f = "\<lambda>n. if nd_node_id n = i then n\<lparr>nd_agent_status := hbr_agent_status r\<rparr> else n"])
  qed simp
  show "typed_db (snd (store_heartbeat uuid_parse env r db))"
    if "typed_db db" "hbr_agent_status r \<in> {''healthy'', ''degraded''}"
    using that
    by (cases rule: store_heartbeat_cases [of uuid_parse env r db])
      (auto simp: typed_db_def list_all_iff typed_node_def)
qed

lemma server_register_shape:
  obtains "snd (server_register d st env md req db) = db"
  | uenv r where "snd (server_register d st env md req db) = snd (upsert_node (fd_uuid_str d) uenv r db)"
proof (cases "secret_accepted d (server_config st) md")
  case True
  then have "snd (server_register d st env md req db) = snd (upsert_node (fd_uuid_str d) (fst env)
      \<lparr>nr_hostname = rq_hostname req, nr_os_version = rq_os_version req, nr_agent_version = rq_agent_version req,
       nr_machine_id = rq_machine_id req\<rparr> db)"
    by (simp add: server_register_def service_register_agent_def enroller_register_def split: prod.splits sum.splits)
  then show thesis by (rule that(2))
qed (use that(1) in \<open>simp add: server_register_def service_register_agent_def\<close>)

lemma server_heartbeat_shape:
  obtains "snd (server_heartbeat d st now env md req db) = db"
  | henv r where "snd (server_heartbeat d st now env md req db) = snd (store_heartbeat (fd_uuid_parse d) henv r db)"
      "hbr_agent_status r \<in> {''healthy'', ''degraded''}"
proof (cases "validate_token d now md (sv_jwt_secret (server_config st))")
  case (Inr claims)
  let ?r = "\<lparr>hbr_node_id = hr_node_id req, hbr_agent_status = sanitize_status (hr_status req),
      hbr_events_buffered = hr_events_buffered req, hbr_recorded_at = snd env\<rparr>"
  have "snd (server_heartbeat d st now env md req db) = snd (store_heartbeat (fd_uuid_parse d) (fst env) ?r db)"
    using Inr by (simp add: server_heartbeat_def service_heartbeat_def tracker_record_def split: prod.splits sum.splits)
  then show thesis using that(2) [of "fst env" ?r] sanitize_status_known by simp
qed (use that(1) in \<open>simp add: server_heartbeat_def service_heartbeat_def\<close>)

text \<open>An operator's request either leaves the nodes as they are or is the confirmed update of one of them.\<close>

definition set_operator :: "uuid \<Rightarrow> string \<Rightarrow> fleet_db \<Rightarrow> fleet_db" where
  "set_operator i status db =
     db\<lparr>db_nodes := map (\<lambda>n. if nd_node_id n = i then n\<lparr>nd_operator_status := status\<rparr> else n) (db_nodes db)\<rparr>"

lemma isolate_shapes:
  "isolate_node uuid_str env conn now i reason db = update_operator_status uuid_str env now i ''isolated'' db"
  "unisolate_node uuid_str env conn now i db = update_operator_status uuid_str env now i ''active'' db"
  by (auto simp: isolate_node_def unisolate_node_def send_isolate_command_def result_bind_def split: sum.split)

text \<open>What an operator's request does to the nodes.\<close>

inductive operator_effect :: "(uuid \<times> string) list \<Rightarrow> fleet_db \<Rightarrow> fleet_db \<Rightarrow> bool" where
  effect_none: "operator_effect [] db db"
| effect_set: "node_row_of db i \<noteq> None \<Longrightarrow> status \<in> {''active'', ''isolated''} \<Longrightarrow>
    operator_effect [(i, status)] db (set_operator i status db)"

inductive_cases operator_effectE: "operator_effect w db db'"

lemma update_operator_effect:
  assumes "writing db (map_ok (\<lambda>(res, nodes). (IsolateData res, db\<lparr>ap_nodes := nodes\<rparr>))
      (update_operator_status uuid_str env now i status (ap_nodes db))) = (res, db')"
    and "status \<in> {''active'', ''isolated''}"
  shows "operator_effect (if is_ok res then [(i, status)] else []) (ap_nodes db) (ap_nodes db')"
proof (cases "update_operator_status uuid_str env now i status (ap_nodes db)")
  case (Inl err)
  then show ?thesis using assms by (auto simp: writing_def map_ok_def result_bind_def is_ok_def intro: effect_none)
next
  case (Inr p)
  then obtain x nodes where u: "update_operator_status uuid_str env now i status (ap_nodes db) = Inr (x, nodes)" by (cases p) auto
  then have "nodes = set_operator i status (ap_nodes db)" "node_row_of (ap_nodes db) i \<noteq> None"
    by (auto simp: update_operator_Inr set_operator_def node_row_of_def)
  then show ?thesis
    using assms u effect_set by (auto simp: writing_def map_ok_def result_bind_def is_ok_def)
qed

lemma api_handle_effect:
  assumes "api_handle e header req db = (res, db')"
  shows "operator_effect (operator_writes req res) (ap_nodes db) (ap_nodes db')"
proof (cases "auth_user (ae_auth e) (ae_settings e) (sint (ae_now e)) header")
  case (Inl err)
  then show ?thesis using assms by (auto simp: api_handle_def operator_writes_def is_ok_def intro: effect_none)
next
  case (Inr claims)
  then have s: "serve e claims req db = (res, db')" using assms by (simp add: api_handle_def)
  show ?thesis
  proof (cases req)
    case (IsolateNode i reason)
    then show ?thesis using s update_operator_effect [of db "ae_uuid_str e" "ae_repo e" "ae_clock e" i "''isolated''" res db'] by (auto simp: isolate_shapes operator_writes_def split: if_splits)
  next
    case (UnisolateNode i)
    then show ?thesis using s update_operator_effect [of db "ae_uuid_str e" "ae_repo e" "ae_clock e" i "''active''" res db'] by (auto simp: isolate_shapes operator_writes_def split: if_splits)
  qed (use s in \<open>auto simp: reading_def writing_def map_ok_def result_bind_def operator_writes_def intro: effect_none split: sum.splits\<close>)
qed

section \<open>Every interleaving\<close>

lemma db_inv_set_operator: "db_inv db \<Longrightarrow> db_inv (set_operator i status db)"
  unfolding set_operator_def by (rule db_inv_map_nodes) auto

lemma set_operator_row:
  "node_row_of (set_operator i status db) j =
     map_option (\<lambda>n. if j = i then n\<lparr>nd_operator_status := status\<rparr> else n) (node_row_of db j)"
proof -
  have "find (\<lambda>n. nd_node_id n = j) (map (\<lambda>n. if nd_node_id n = i then n\<lparr>nd_operator_status := status\<rparr> else n) ns) =
      map_option (\<lambda>n. if j = i then n\<lparr>nd_operator_status := status\<rparr> else n) (find (\<lambda>n. nd_node_id n = j) ns)" for ns
    by (induction ns) auto
  then show ?thesis by (simp add: node_row_of_def set_operator_def)
qed

lemma typed_set_operator: "typed_db db \<Longrightarrow> status \<in> {''active'', ''isolated''} \<Longrightarrow> typed_db (set_operator i status db)"
  by (auto simp: typed_db_def set_operator_def list_all_iff typed_node_def)

lemma server_register_run:
  shows "keeps_rows db (snd (server_register d st env md req db))"
    and "typed_db db \<Longrightarrow> typed_db (snd (server_register d st env md req db))"
    and "db_inv db \<Longrightarrow> db_inv (snd (server_register d st env md req db))"
  by (rule server_register_shape [of d st env md req db]; simp add: upsert_node_rows pg.upsert_inv)+

lemma server_heartbeat_run:
  shows "keeps_rows db (snd (server_heartbeat d st now env md req db))"
    and "typed_db db \<Longrightarrow> typed_db (snd (server_heartbeat d st now env md req db))"
    and "db_inv db \<Longrightarrow> db_inv (snd (server_heartbeat d st now env md req db))"
  by (rule server_heartbeat_shape [of d st now env md req db]; simp add: store_heartbeat_rows pgh.record_inv)+

lemma fleet_run_inv: "fleet_run d st db w db' \<Longrightarrow> db_inv db \<Longrightarrow> db_inv db'"
proof (induction rule: fleet_run.induct)
  case (run_operator w db1 e header areq alerts ls res api')
  then show ?case using api_handle_effect [OF run_operator(2)] by (auto elim!: operator_effectE intro: db_inv_set_operator)
qed (simp_all add: server_register_run server_heartbeat_run)

lemma fleet_run_typed: "fleet_run d st db w db' \<Longrightarrow> typed_db db \<Longrightarrow> typed_db db'"
proof (induction rule: fleet_run.induct)
  case (run_operator w db1 e header areq alerts ls res api')
  then show ?case using api_handle_effect [OF run_operator(2)] by (auto elim!: operator_effectE intro: typed_set_operator)
qed (simp_all add: server_register_run server_heartbeat_run)

text \<open>The status a node has after the confirmed writes: the last one to it, or what it had.\<close>

definition written :: "(uuid \<times> string) list \<Rightarrow> uuid \<Rightarrow> string \<Rightarrow> string" where
  "written w i old = foldl (\<lambda>s (j, status). if j = i then status else s) old w"

lemma keeps_rowsD:
  "keeps_rows db db' \<Longrightarrow> node_row_of db i = Some n \<Longrightarrow>
   \<exists>n'. node_row_of db' i = Some n' \<and> nd_machine_id n' = nd_machine_id n \<and> nd_operator_status n' = nd_operator_status n"
  by (simp add: keeps_rows_def)

lemma fleet_run_row:
  assumes "fleet_run d st db w db'" and "node_row_of db i = Some n"
  shows "\<exists>n'. node_row_of db' i = Some n' \<and> nd_machine_id n' = nd_machine_id n \<and> nd_operator_status n' = written w i (nd_operator_status n)"
  using assms
proof (induction rule: fleet_run.induct)
  case run_start
  then show ?case by (simp add: written_def)
next
  case (run_register w db1 env md req)
  then show ?case using keeps_rowsD [OF server_register_run(1)] by metis
next
  case (run_heartbeat w db1 now henv md hreq)
  then show ?case using keeps_rowsD [OF server_heartbeat_run(1)] by metis
next
  case (run_operator w db1 e header areq alerts ls res api')
  then show ?case
    using api_handle_effect [OF run_operator(2)]
    by (auto elim!: operator_effectE simp: set_operator_row written_def)
qed

section \<open>The streams of an agent at the server\<close>

text \<open>Several connections one after the other: the time, the metadata and the items of each.\<close>

definition server_streams :: "fleet_deps \<Rightarrow> fleet_settings \<Rightarrow> (timestamp \<times> metadata \<times> ingest_env stream_item list) list
    \<Rightarrow> kafka_message list \<Rightarrow> kafka_message list" where
  "server_streams d st streams log = fold (\<lambda>(now, md, items) l. snd (server_event_stream d st now md items l)) streams log"

definition stream_accepted :: "fleet_deps \<Rightarrow> fleet_settings \<Rightarrow> timestamp \<times> metadata \<times> ingest_env stream_item list \<Rightarrow> bool" where
  "stream_accepted d st x = (case x of (now, md, items) \<Rightarrow>
     is_ok (validate_token d now md (sv_jwt_secret (server_config st))) \<and> list_all (\<lambda>it. si_open it \<and> is_ok (ig_publish (si_env it))) items)"

lemma reached_all: "map si_event items = map Inr ms \<Longrightarrow> reached items = zip (map si_env items) ms"
proof (induction items arbitrary: ms)
  case (Cons it items)
  then show ?case by (cases ms) (auto simp: reached_def)
qed (simp add: reached_def)

lemma server_stream_published:
  assumes "stream_accepted d st (now, md, items)" "map si_event items = map Inr ms"
  shows "snd (server_event_stream d st now md items log) = log @ map (message_of d (server_topic st)) (zip (map si_env items) ms)"
proof -
  have "\<forall>it \<in> set items. si_open it" "\<forall>it \<in> set items. is_ok (ig_publish (si_env it))"
    using assms(1) by (auto simp: stream_accepted_def list_all_iff)
  moreover from this have "filter (\<lambda>(env, e). is_ok (ig_publish env)) (zip (map si_env items) ms) = zip (map si_env items) ms"
    by (auto simp: filter_id_conv dest!: set_zip_leftD)
  ultimately have "snd (event_loop (ingest_event d (kafka_event_ingest.make (server_topic st))) items log) =
      log @ map (message_of d (server_topic st)) (zip (map si_env items) ms)"
    using event_loop_ingest [of items d "kafka_event_ingest.make (server_topic st)" log] reached_all [OF assms(2)] by (simp add: Let_def kafka_event_ingest.defs)
  then show ?thesis
    using assms(1)
    by (auto simp: server_event_stream_def service_event_stream_def stream_accepted_def is_ok_def kafka_event_ingest.defs split: sum.splits prod.splits)
qed

lemma server_streams_published:
  assumes "\<forall>x \<in> set streams. stream_accepted d st x"
    and "concat (map (\<lambda>(now, md, items). map si_event items) streams) = map Inr ms"
  shows "\<exists>envs. length envs = length ms \<and> server_streams d st streams log = log @ map (message_of d (server_topic st)) (zip envs ms)"
  using assms
proof (induction streams arbitrary: ms log)
  case (Cons x streams)
  obtain now md items where x: "x = (now, md, items)" by (cases x)
  obtain ms1 ms2 where ms: "ms = ms1 @ ms2" "map si_event items = map Inr ms1"
    "concat (map (\<lambda>(now, md, items). map si_event items) streams) = map Inr ms2"
    using Cons.prems(2) x by (auto simp: append_eq_map_conv)
  have l: "length (map si_env items) = length ms1" using arg_cong [OF ms(2), of length] by simp
  have "snd (server_event_stream d st now md items log) = log @ map (message_of d (server_topic st)) (zip (map si_env items) ms1)"
    by (rule server_stream_published [OF _ ms(2)]) (use Cons.prems(1) x in simp)
  moreover obtain envs where "length envs = length ms2"
    "server_streams d st streams (log @ map (message_of d (server_topic st)) (zip (map si_env items) ms1)) =
      (log @ map (message_of d (server_topic st)) (zip (map si_env items) ms1)) @ map (message_of d (server_topic st)) (zip envs ms2)"
    using Cons.IH [OF _ ms(3)] Cons.prems(1) by fastforce
  ultimately show ?case
    using l by (intro exI [of _ "map si_env items @ envs"]) (simp add: server_streams_def x ms(1))
qed (simp add: server_streams_def)

lemma zipped_with: "length envs = length ms \<Longrightarrow> m \<in> set ms \<Longrightarrow> \<exists>env. (env, m) \<in> set (zip envs ms)"
  by (auto simp: in_set_conv_nth set_zip)

section \<open>The path of an event\<close>

text \<open>\<open>serde\<close>'s derived \<open>Deserialize\<close> of the rule engine's \<open>TelemetryEvent\<close>, on a parsed value: an object by the names of
  the fields, an array by their order; \<open>raw_sequence_id\<close> may be missing or null.\<close>

definition telemetry_field :: "json \<Rightarrow> string \<Rightarrow> nat \<Rightarrow> json option" where
  "telemetry_field v k i =
     (case v of
        JObject kvs \<Rightarrow> map_of kvs k
      | JArray xs \<Rightarrow> if i < length xs \<and> length xs \<le> 7 then Some (xs ! i) else None
      | _ \<Rightarrow> None)"

definition telemetry_of_json :: "(string \<Rightarrow> uuid option) \<Rightarrow> json \<Rightarrow> telemetry_event option" where
  "telemetry_of_json uuid_parse v =
     Option.bind (Option.bind (telemetry_field v ''id'' 0) as_str) (\<lambda>i.
     Option.bind (Option.bind (Option.bind (telemetry_field v ''node_id'' 1) as_str) uuid_parse) (\<lambda>node.
     Option.bind (Option.bind (telemetry_field v ''hostname'' 2) as_str) (\<lambda>host.
     Option.bind (Option.bind (telemetry_field v ''event_type'' 3) as_str) (\<lambda>ty.
     Option.bind (Option.bind (telemetry_field v ''timestamp_ns'' 4) as_i64) (\<lambda>ts.
     Option.bind (telemetry_field v ''payload'' 5) (\<lambda>payload.
     Option.bind (case telemetry_field v ''raw_sequence_id'' 6 of
         None \<Rightarrow> Some None
       | Some JNull \<Rightarrow> Some None
       | Some (JString s) \<Rightarrow> Some (Some s)
       | Some _ \<Rightarrow> None) (\<lambda>raw.
     Some \<lparr>te_id = i, te_node_id = node, te_hostname = host, te_event_type = ty, te_timestamp_ns = word_of_int ts,
           te_payload = payload, te_raw_sequence_id = raw\<rparr>)))))))"

text \<open>A message of the fleet server, as the router receives it.\<close>

definition consumed :: "kafka_message \<Rightarrow> int \<Rightarrow> int \<Rightarrow> kafka_in" where
  "consumed m part off = kafka_in.make (Some (km_key m)) (km_payload m) (km_topic m) part off"

lemma as_i64_sint: "as_i64 (JInt (sint (w :: i64))) = Some (sint w)"
  using sint_range_size [of w] by (simp add: word_size)

lemma map_of_envelope [simp]:
  "jget ''id'' (telemetry_envelope d u e) = Some (JString (if ie_sequence_id e = [] then u else ie_sequence_id e))"
  "jget ''node_id'' (telemetry_envelope d u e) = Some (JString (ie_node_id e))"
  "jget ''hostname'' (telemetry_envelope d u e) = Some (JString [])"
  "jget ''event_type'' (telemetry_envelope d u e) = Some (JString (ie_event_type e))"
  "jget ''timestamp_ns'' (telemetry_envelope d u e) = Some (JInt (sint (ie_timestamp_ns e)))"
  "jget ''payload'' (telemetry_envelope d u e) =
     Some (unwrap_or (JObject [(''raw'', JString (fd_lossy d (ie_payload e)))]) (fd_from_slice d (ie_payload e)))"
  "jget ''raw_sequence_id'' (telemetry_envelope d u e) = Some (JString (ie_sequence_id e))"
  by (simp_all add: telemetry_envelope_def Let_def)

lemma telemetry_field_jget: "as_object v \<noteq> None \<Longrightarrow> telemetry_field v k i = jget k v"
  by (cases v) (simp_all add: telemetry_field_def)

lemma normalize_jget:
  "as_object v \<noteq> None \<Longrightarrow> jget k (normalize_event v c) = (if k = ''event_type'' then Some (JString c) else jget k v)"
  "as_object v \<noteq> None \<Longrightarrow> as_object (normalize_event v c) \<noteq> None"
  by (cases v; simp add: normalize_event_def)+

lemma envelope_object: "as_object (telemetry_envelope d u e) \<noteq> None"
  by (simp add: telemetry_envelope_def Let_def)

text \<open>The category the router writes is the one the engine reads.\<close>

lemma scan_category_normalized:
  assumes "topic \<in> {''aigis.events.process'', ''aigis.events.network'', ''aigis.events.file'', ''aigis.events.auth''}"
    and "te_event_type ev = category_of topic ty"
  shows "scan_category ev = category_of topic ty"
  using assms by (auto simp: scan_category_def category_of_def)

lemma process_typed:
  assumes "from_slice (km_payload m) = Some v" and "target_topic v \<noteq> DLQ"
    and "to_vec (normalize_event v (category_of (target_topic v) (event_type_of v))) = Some b"
  shows "process (\<lambda>x. ok_or err (from_slice x)) to_vec (Inr ()) (consumed m part off) s =
    (Ok (), s\<lparr>rt_metrics := inc_routed (target_topic v) (inc_consumed (rt_metrics s)),
       rt_sent := rt_sent s @ [\<lparr>ko_topic = target_topic v, ko_key = km_key m, ko_payload = b, ko_headers = []\<rparr>]\<rparr>)"
  using assms by (simp add: process_def consumed_def kafka_in.defs ok_or_def Let_def router_send_def)

lemma decode_normalized:
  assumes "fd_uuid_parse d (ie_node_id e) = Some u"
  shows "telemetry_of_json (fd_uuid_parse d) (normalize_event (telemetry_envelope d fresh e) c) =
    Some \<lparr>te_id = (if ie_sequence_id e = [] then fresh else ie_sequence_id e), te_node_id = u, te_hostname = [], te_event_type = c,
      te_timestamp_ns = ie_timestamp_ns e,
      te_payload = unwrap_or (JObject [(''raw'', JString (fd_lossy d (ie_payload e)))]) (fd_from_slice d (ie_payload e)),
      te_raw_sequence_id = Some (ie_sequence_id e)\<rparr>"
  unfolding telemetry_of_json_def
  by (simp add: telemetry_field_jget normalize_jget envelope_object as_i64_sint assms del: as_i64.simps)

lemma log_of_normalized:
  assumes "fd_uuid_parse d (ie_node_id e) = Some u" and "starts_with ''aigis.events'' topic"
    and "from_slice b = Some (normalize_event (telemetry_envelope d fresh e) c)"
  shows "parse_log_entity from_slice (fd_uuid_parse d) fresh_id now topic b =
    Some \<lparr>el_event_id = unwrap_or fresh_id (fd_uuid_parse d (if ie_sequence_id e = [] then fresh else ie_sequence_id e)),
      el_node_id = u, el_event_type = c, el_hostname = ''unknown'',
      el_payload = unwrap_or (JObject [(''raw'', JString (fd_lossy d (ie_payload e)))]) (fd_from_slice d (ie_payload e)),
      el_raw_sequence_id = Some (ie_sequence_id e), el_recorded_at = sint (ie_timestamp_ns e)\<rparr>"
  using assms
  by (simp add: parse_log_entity_def node_id_value_def event_type_value_def hostname_value_def timestamp_value_def
      nonempty_or_unknown_def normalize_jget envelope_object as_i64_sint del: as_i64.simps)

text \<open>The message on the raw topic is itself an event message: the API reads it as a row of the same id, with the type as the agent gave it.\<close>

lemma log_of_envelope:
  assumes "fd_uuid_parse d (ie_node_id e) = Some u" and "starts_with ''aigis.events'' topic"
    and "from_slice b = Some (telemetry_envelope d fresh e)"
  shows "parse_log_entity from_slice (fd_uuid_parse d) fresh_id now topic b =
    Some \<lparr>el_event_id = unwrap_or fresh_id (fd_uuid_parse d (if ie_sequence_id e = [] then fresh else ie_sequence_id e)),
      el_node_id = u, el_event_type = ie_event_type e, el_hostname = ''unknown'',
      el_payload = unwrap_or (JObject [(''raw'', JString (fd_lossy d (ie_payload e)))]) (fd_from_slice d (ie_payload e)),
      el_raw_sequence_id = Some (ie_sequence_id e), el_recorded_at = sint (ie_timestamp_ns e)\<rparr>"
  using assms
  by (simp add: parse_log_entity_def node_id_value_def event_type_value_def hostname_value_def timestamp_value_def
      nonempty_or_unknown_def envelope_object as_i64_sint del: as_i64.simps)

text \<open>A row the API makes of the published message or of the record the router makes of it, and what a select has to read of it.\<close>

definition row_of_event :: "fleet_deps \<Rightarrow> kafka_message \<Rightarrow> kafka_out \<Rightarrow> event_log \<Rightarrow> bool" where
  "row_of_event d m rec x \<longleftrightarrow> (\<exists>fresh now.
     parse_log_entity (fd_from_slice d) (fd_uuid_parse d) fresh now (km_topic m) (km_payload m) = Some x \<or>
     parse_log_entity (fd_from_slice d) (fd_uuid_parse d) fresh now (ko_topic rec) (ko_payload rec) = Some x)"

definition stores_event :: "(timestamp \<Rightarrow> timestamp) \<Rightarrow> proto_event \<Rightarrow> uuid \<Rightarrow> json \<Rightarrow> string \<Rightarrow> event_log \<Rightarrow> bool" where
  "stores_event tz e u payload category x \<longleftrightarrow> (\<exists>stored. log_entity (new_log_columns tz x) = Some stored \<and>
     el_node_id stored = u \<and> el_payload stored = payload \<and> el_raw_sequence_id stored = Some (pe_sequence_id e) \<and>
     \<bar>el_recorded_at stored - sint (pe_timestamp_ns e)\<bar> < 1000 \<and> el_event_type stored \<in> {category, pe_event_type e})"

lemma row_of_event_stores:
  assumes "fd_uuid_parse d (ie_node_id (incoming_of e)) = Some u" and "timestamptz_laws tz" and "row_of_event d m rec x"
    and "fd_from_slice d (km_payload m) = Some (telemetry_envelope d i (incoming_of e))"
    and "fd_from_slice d (ko_payload rec) = Some (normalize_event (telemetry_envelope d i (incoming_of e)) c)"
  shows "stores_event tz e u (unwrap_or (JObject [(''raw'', JString (fd_lossy d (pe_payload e)))]) (fd_from_slice d (pe_payload e))) c x"
proof -
  have e: "ie_event_type (incoming_of e) = pe_event_type e" "ie_payload (incoming_of e) = pe_payload e"
    "ie_sequence_id (incoming_of e) = pe_sequence_id e" "ie_timestamp_ns (incoming_of e) = pe_timestamp_ns e"
    by (simp_all add: incoming_of_def)
  obtain fresh now topic b where x: "parse_log_entity (fd_from_slice d) (fd_uuid_parse d) fresh now topic b = Some x"
    "(b = km_payload m \<or> b = ko_payload rec)" using assms(3) by (auto simp: row_of_event_def)
  then have t: "starts_with ''aigis.events'' topic" by (auto simp: parse_log_entity_def split: if_splits)
  from x(2) show ?thesis
    using x(1) log_of_envelope [OF assms(1) t, where from_slice = "fd_from_slice d" and b = "km_payload m", OF assms(4), of fresh now]
      log_of_normalized [OF assms(1) t, where from_slice = "fd_from_slice d" and b = "ko_payload rec", OF assms(5), of fresh now] assms(2)
    by (auto simp: stores_event_def selects_read_inserts timestamptz_laws_def e)
qed

text \<open>\<open>ON CONFLICT DO NOTHING\<close>: of the rows of one id the first that came stays.\<close>

lemma insert_logs_has:
  "el_event_id l \<in> el_event_id ` (set rows \<union> set ls) \<Longrightarrow>
     \<exists>x \<in> set (fold insert_log ls rows). el_event_id x = el_event_id l \<and> x \<in> set rows \<union> set ls"
proof (induction ls arbitrary: rows)
  case (Cons k ls)
  have sub: "set (insert_log k rows) \<subseteq> set rows \<union> {k}" by (auto simp: insert_log_def)
  have "el_event_id ` (set rows \<union> set (k # ls)) = el_event_id ` (set (insert_log k rows) \<union> set ls)" by (auto simp: insert_log_def)
  then show ?case using Cons.IH [of "insert_log k rows"] Cons.prems sub by fastforce
qed auto

text \<open>The type of an agent's osquery event, as the router reads it, is the name of the query.\<close>

lemma osquery_envelope_type:
  assumes "fd_from_slice d p = Some (osquery_result_json r)" and "pe_event_type e = ''osquery''" and "pe_payload e = p"
  shows "event_type_of (telemetry_envelope d fresh (incoming_of e)) = or_query_name r"
  using assms by (simp add: event_type_of_def incoming_of_def osquery_result_json_def)

end
