(* ===== verification/IsolationPath.thy ===== *)
theory IsolationPath
  imports Platform
begin

text \<open>
  An operator's isolation and the hosts. \<open>isolate_node\<close> of the API (\<open>api-backend/src/services/node_service.rs\<close>) writes the node's
  row and asks the fleet client to send a command; the agent's command task obeys what arrives on its stream, and the fleet server
  is the only writer of that stream. \<open>attached_step\<close> is a step of the running agent whose inbound queue holds only what the
  server sends.
\<close>

section \<open>An agent attached to the server\<close>

definition server_sends :: "fleet_deps \<Rightarrow> fleet_settings \<Rightarrow> server_command \<Rightarrow> bool" where
  "server_sends d st msg \<longleftrightarrow>
     (\<exists>now md items log cmds log'. server_event_stream d st now md items log = (Ok cmds, log') \<and> msg \<in> set cmds)"

definition inbound_queue :: "'w agent_system \<Rightarrow> server_command list" where
  "inbound_queue s = (case fc_inbound_rx (ct_client (sy_command s)) of None \<Rightarrow> [] | Some rx \<Rightarrow> ich_queue rx)"

definition attached_step :: "fleet_deps \<Rightarrow> fleet_settings \<Rightarrow> 'w agent_params \<Rightarrow> 'w agent_system \<Rightarrow> agent_obs list
    \<Rightarrow> 'w agent_system \<Rightarrow> bool" where
  "attached_step d st p s obs s' \<longleftrightarrow> agent_step p s obs s' \<and> (\<forall>msg \<in> set (inbound_queue s'). server_sends d st msg)"

section \<open>The server only acknowledges\<close>

definition is_ack :: "server_command \<Rightarrow> bool" where
  "is_ack msg \<longleftrightarrow> (\<exists>i. sc_command msg = Some (Ack i))"

lemma event_loop_acks: "event_loop ingest items s = (cmds, s') \<Longrightarrow> list_all is_ack cmds"
proof (induction items arbitrary: s cmds s')
  case (Cons it items)
  then show ?case
    by (auto simp: is_ack_def split: sum.splits prod.splits option.splits outgoing_command.splits if_splits)
qed simp

lemma server_sends_acks:
  assumes "server_sends d st msg"
  shows "is_ack msg"
proof -
  obtain now md items log cmds log' where s: "server_event_stream d st now md items log = (Ok cmds, log')" "msg \<in> set cmds"
    using assms by (auto simp: server_sends_def)
  have "list_all is_ack cmds"
    using s(1) by (cases "validate_token d now md (sv_jwt_secret (server_config st))")
      (auto simp: server_event_stream_def service_event_stream_def dest: event_loop_acks split: prod.splits)
  then show ?thesis using s(2) by (simp add: list_all_iff)
qed

lemma handle_ack: "is_ack msg \<Longrightarrow> handle n m msg w = (Ok (status_json ''acked''), w)"
  by (auto simp: is_ack_def handle_def)

section \<open>The host of an attached agent\<close>

lemma command_step_host:
  assumes "\<forall>msg \<in> set (case fc_inbound_rx (ct_client ct) of None \<Rightarrow> [] | Some rx \<Rightarrow> ich_queue rx). is_ack msg"
  shows "ct_host (command_task_step n m env ct) = ct_host ct"
proof -
  have "is_ack msg" if "try_receive (ct_client ct) = (Inr (Some msg), c1)" for msg c1
    using that assms by (auto simp: try_receive_def split: option.splits list.splits if_splits)
  then show ?thesis
    by (auto simp: command_task_step_def Let_def handle_ack split: prod.splits sum.splits option.splits)
qed

lemma agent_step_host:
  assumes "agent_step p s obs s'" "\<forall>msg \<in> set (inbound_queue s). is_ack msg"
  shows "ct_host (sy_command s') = ct_host (sy_command s)"
  using assms
proof cases
  case (ag_command ce)
  then show ?thesis using command_step_host [OF assms(2) [unfolded inbound_queue_def]] by simp
next
  case (ag_send events k)
  then show ?thesis by (auto simp: drain_send_def Let_def split: prod.splits sum.splits if_splits)
qed (auto simp: set_inbound_def collect_result_def drain_take_def requeue_next_def Let_def
    split: prod.splits sum.splits option.splits if_splits)

text \<open>The queue holds acknowledgements only and the host is as it was.\<close>

definition untouched :: "'w \<Rightarrow> 'w agent_system \<Rightarrow> bool" where
  "untouched w s \<longleftrightarrow> ct_host (sy_command s) = w \<and> (\<forall>msg \<in> set (inbound_queue s). is_ack msg)"

interpretation attached: step_invariant "attached_step d st p" "untouched w" for d st p w
proof
  fix s obs s' assume "untouched w s" "attached_step d st p s obs s'"
  then show "untouched w s'"
    using agent_step_host server_sends_acks unfolding untouched_def attached_step_def by metis
qed

section \<open>An isolation stays in the table\<close>

text \<open>An isolation stays in the database. Let the API confirm the isolation of a node. The answer says that the command was
  dispatched, and it is the same whatever reason was given and whether or not the fleet server could be reached; and in every run of an
  agent whose stream carries what the fleet server sends, whatever its tasks' interleaving, the command task leaves the packet
  filter of the host exactly as it was at the start: the only command the server ever sends is an acknowledgement.\<close>

lemma isolation_stays_in_the_table:
  assumes "isolate_node uuid_str env conn now i reason db = Ok (res, db')"
    and "runs (attached_step d st p) s tr s'" and "inbound_queue s = []"
  shows "ir_operator_status res = ''isolated'' \<and> ir_command_dispatched res \<and>
    isolate_node uuid_str env conn' now i reason' db = Ok (res, db') \<and>
    ct_host (sy_command s') = ct_host (sy_command s)"
proof -
  have u: "update_operator_status uuid_str env now i ''isolated'' db = Ok (res, db')" using assms(1) by (simp add: isolate_shapes)
  have "untouched (ct_host (sy_command s)) s'"
    by (rule attached.runs_inv [OF assms(2)]) (simp add: untouched_def assms(3))
  then show ?thesis using u by (auto simp: isolate_shapes untouched_def update_operator_Inr)
qed

text \<open>An agent on an open stream receives the acknowledgement of an event and handles it; meanwhile its node is isolated.\<close>

definition acked_agent :: "bool agent_system" where
  "acked_agent = set_inbound \<lparr>ich_open = True, ich_queue = [\<lparr>sc_command = Some (Ack ''b'')\<rparr>]\<rparr> demo_agent"

definition obeyed_agent :: "bool agent_system" where
  "obeyed_agent = acked_agent\<lparr>sy_command := command_task_step (ap_nft demo_agent_params) (ap_isolation demo_agent_params)
     (live_env good_env) (sy_command acked_agent)\<rparr>"

lemma sample_server_sends: "server_sends sample_deps sample_settings \<lparr>sc_command = Some (Ack ''b'')\<rparr>"
proof -
  let ?item = "\<lparr>si_event = Ok (sample_event ''b''), si_env = \<lparr>ig_uuid = ''y'', ig_publish = Ok ()\<rparr>, si_open = True\<rparr>"
  have "is_ok (validate_token sample_deps 3 [(''authorization'', ''Bearer 9.u1'')] (sv_jwt_secret (server_config sample_settings)))"
    by (simp add: validate_token_def sample_deps_def strip_prefix_def starts_with_def digits_value_def)
  then have "fst (server_event_stream sample_deps sample_settings 3 [(''authorization'', ''Bearer 9.u1'')] [?item] []) =
      Ok [\<lparr>sc_command = Some (Ack ''b'')\<rparr>]"
    by (subst stream_acks_are_published) (simp_all add: reached_def sample_event_def)
  then show ?thesis unfolding server_sends_def by (metis list.set_intros(1) prod.collapse)
qed

lemma demo_inbound: "fc_inbound_rx (ct_client (sy_command demo_agent)) = Some \<lparr>ich_open = True, ich_queue = []\<rparr>"
  by (simp add: demo_agent_def agent_spawn_def demo_client_def connect_def good_env_def Let_def)

lemma obeyed_inbound: "inbound_queue obeyed_agent = []" "ct_responses (sy_command obeyed_agent) = [Ok (status_json ''acked'')]"
  by (simp_all add: obeyed_agent_def acked_agent_def set_inbound_def inbound_queue_def command_task_step_def live_env_def
      try_receive_def handle_def demo_agent_def agent_spawn_def)

lemma obeyed_agent_run: "runs (attached_step sample_deps sample_settings demo_agent_params) demo_agent [] obeyed_agent"
proof -
  have a: "agent_step demo_agent_params demo_agent [] acked_agent"
    using ag_inbound [OF demo_inbound] by (simp add: acked_agent_def)
  have o: "agent_step demo_agent_params acked_agent [] obeyed_agent"
    unfolding obeyed_agent_def
    by (rule ag_command) (simp_all add: acked_agent_def set_inbound_def client_free_def demo_agent_def agent_spawn_def)
  have sa: "attached_step sample_deps sample_settings demo_agent_params demo_agent [] acked_agent"
    using a sample_server_sends by (simp add: attached_step_def acked_agent_def set_inbound_def inbound_queue_def)
  have so: "attached_step sample_deps sample_settings demo_agent_params acked_agent [] obeyed_agent"
    using o by (simp add: attached_step_def obeyed_inbound)
  show ?thesis
    using runs_step [of "attached_step sample_deps sample_settings demo_agent_params", OF so]
      runs_step_then [of "attached_step sample_deps sample_settings demo_agent_params", OF sa] by fastforce
qed

definition sample_repo :: repo_env where
  "sample_repo = \<lparr>re_pool = Inr (), re_fault = (\<lambda>_. None)\<rparr>"

lemma isolation_stays_in_the_table_witness:
  "(let res = \<lparr>ir_node_id = 1, ir_operator_status = ''isolated'', ir_command_dispatched = True, ir_updated_at = 5\<rparr>;
        db' = set_operator 1 ''isolated'' one_node_db
    in isolate_node (\<lambda>_. ''u'') sample_repo (Inr ()) 5 1 None one_node_db = Ok (res, db') \<and>
       isolate_node (\<lambda>_. ''u'') sample_repo (Inl ''refused'') 5 1 (Some ''malware'') one_node_db = Ok (res, db')) \<and>
   ct_responses (sy_command obeyed_agent) = [Ok (status_json ''acked'')] \<and>
   ct_host (sy_command obeyed_agent) = ct_host (sy_command demo_agent)"
proof -
  have i: "isolate_node (\<lambda>_. ''u'') sample_repo (Inr ()) 5 1 None one_node_db =
      Ok (\<lparr>ir_node_id = 1, ir_operator_status = ''isolated'', ir_command_dispatched = True, ir_updated_at = 5\<rparr>,
          set_operator 1 ''isolated'' one_node_db)"
    by (simp add: sample_repo_def isolate_shapes update_operator_status_def with_conn_def update_returning_def set_operator_def one_node_db_eq)
  have "inbound_queue demo_agent = []" by (simp add: inbound_queue_def demo_inbound)
  from isolation_stays_in_the_table [OF i obeyed_agent_run this, of "Inl ''refused''" "Some ''malware''"]
  show ?thesis using i by (simp add: Let_def obeyed_inbound)
qed

end
