(* ===== verification/AgentTests.thy ===== *)
theory AgentTests
  imports AgentCore AgentTypes
begin

text \<open>
  The tests of the agent's crates (\<open>event-buffer/tests/event_buffer_test.rs\<close> and the \<open>tests\<close> modules of \<open>osquery-client\<close>,
  \<open>isolation\<close>, \<open>fleet-client\<close> and \<open>agent-core\<close>), run on the model. A test is the truth of its assertions; each lemma says that the
  model passes it, whatever the clock, the identifiers drawn and the JSON library are.
\<close>

section \<open>Event buffer\<close>

text \<open>A push and a drain on a database that answers; \<open>None\<close> when the test's \<open>unwrap\<close> panics.\<close>

definition push_or_panic :: "timestamp \<Rightarrow> string \<Rightarrow> event_buffer \<Rightarrow> event_buffer option" where
  "push_or_panic now e b = (case push None now e b of (Inr _, b') \<Rightarrow> Some b' | (Inl _, b') \<Rightarrow> None)"

definition drain_or_panic :: "u64 \<Rightarrow> event_buffer \<Rightarrow> (string list \<times> event_buffer) option" where
  "drain_or_panic n b = (case drain None n b of (Inr es, b') \<Rightarrow> Some (es, b') | (Inl _, b') \<Rightarrow> None)"

definition test_event_buffer_flow :: "timestamp \<Rightarrow> bool" where
  "test_event_buffer_flow now =
     (case new None None 3 of
        Inl _ \<Rightarrow> False
      | Inr b0 \<Rightarrow>
          is_empty None b0 = Ok True \<and> len None b0 = Ok 0 \<and>
          (case Option.bind (push_or_panic now ''event 1'' b0) (\<lambda>b. Option.bind (push_or_panic now ''event 2'' b) (\<lambda>b.
                  Option.bind (push_or_panic now ''event 3'' b) (push_or_panic now ''event 4''))) of
             None \<Rightarrow> False
           | Some b4 \<Rightarrow>
               len None b4 = Ok 3 \<and>
               (case drain_or_panic 2 b4 of
                  None \<Rightarrow> False
                | Some (drained, b5) \<Rightarrow>
                    drained = [''event 2'', ''event 3''] \<and> len None b5 = Ok 1 \<and>
                    (case drain_or_panic 5 b5 of
                       None \<Rightarrow> False
                     | Some (remaining, b6) \<Rightarrow> remaining = [''event 4''] \<and> is_empty None b6 = Ok True))))"

section \<open>Schedule\<close>

definition test_query :: "string \<Rightarrow> u64 \<Rightarrow> bool \<Rightarrow> scheduled_query" where
  "test_query sql secs snapshot = \<lparr>sq_name = ''test_query'', sq_query = sql, sq_interval_secs = secs, sq_snapshot = snapshot\<rparr>"

text \<open>The query of that name among those loaded, and how many there are.\<close>

definition loaded_test_query :: "schedule \<Rightarrow> (nat \<times> scheduled_query) option" where
  "loaded_test_query t = Option.bind (ok_opt (load_queries t)) (\<lambda>loaded.
     map_option (Pair (length loaded)) (find (\<lambda>q. sq_name q = ''test_query'') loaded))"

definition test_upsert_and_load_queries :: "timestamp \<Rightarrow> bool" where
  "test_upsert_and_load_queries now =
     (case scheduler_new [] now [] of
        (Inl _, t) \<Rightarrow> False
      | (Inr _, t) \<Rightarrow>
          (case upsert_queries True now [test_query ''SELECT 1'' 60 False] t of
             (Inl _, t1) \<Rightarrow> False
           | (Inr _, t1) \<Rightarrow>
               loaded_test_query t1 = Some (4, test_query ''SELECT 1'' 60 False) \<and>
               (case upsert_queries True now [test_query ''SELECT 2'' 120 True] t1 of
                  (Inl _, t2) \<Rightarrow> False
                | (Inr _, t2) \<Rightarrow> loaded_test_query t2 = Some (4, test_query ''SELECT 2'' 120 True))))"

section \<open>Isolation and commands\<close>

definition test_ruleset_generation_ipv4 :: bool where
  "test_ruleset_generation_ipv4 \<longleftrightarrow>
     (let ruleset = isolation_ruleset \<lparr>im_fleet_ip = V4 0x01020304, im_fleet_port = 8443\<rparr> in
      contains_str ruleset ''ip saddr 1.2.3.4 tcp sport 8443 accept'' \<and>
      contains_str ruleset ''ip daddr 1.2.3.4 tcp dport 8443 accept'')"

definition test_manager :: isolation_manager where
  "test_manager = \<lparr>im_fleet_ip = V4 0x7F000001, im_fleet_port = 50051\<rparr>"

text \<open>The status in the answer to a command.\<close>

definition handled_status :: "'w nft \<Rightarrow> 'w \<Rightarrow> command \<Rightarrow> json option" where
  "handled_status n w c = map_option (\<lambda>v. jindex v ''status'') (ok_opt (fst (handle n test_manager \<lparr>sc_command = Some c\<rparr> w)))"

definition test_command_handling_ack :: "'w nft \<Rightarrow> 'w \<Rightarrow> bool" where
  "test_command_handling_ack n w \<longleftrightarrow> handled_status n w (Ack ''test-seq-123'') = Some (JString ''acked'')"

definition test_command_handling_config_update :: "'w nft \<Rightarrow> 'w \<Rightarrow> bool" where
  "test_command_handling_config_update n w \<longleftrightarrow>
     handled_status n w (ConfigUpdate (Some \<lparr>pac_osquery_schedule = [], pac_heartbeat_interval_secs = 60, pac_batch_size = 100\<rparr>)) =
       Some (JString ''config_updated'')"

section \<open>Fleet client\<close>

definition test_fleet_client_initial_state :: bool where
  "test_fleet_client_initial_state \<longleftrightarrow>
     (let client = client_new ''http://localhost:50051'' in
      fc_endpoint client = ''http://localhost:50051'' \<and> fc_node_id client = None \<and> fc_token client = None)"

definition test_fleet_client_with_assigned_identity :: "uuid \<Rightarrow> bool" where
  "test_fleet_client_with_assigned_identity expected_uuid \<longleftrightarrow>
     (let client = (client_new ''http://localhost:50051'')\<lparr>fc_node_id := Some expected_uuid, fc_token := Some ''test-jwt-token''\<rparr> in
      fc_node_id client = Some expected_uuid \<and> fc_token client = Some ''test-jwt-token'')"

section \<open>Encoding of results\<close>

definition test_result :: "string \<Rightarrow> int \<Rightarrow> osquery_result" where
  "test_result agent_uuid timestamp_ns = \<lparr>or_query_name = ''test_query'', or_agent_uuid = agent_uuid, or_timestamp_ns = timestamp_ns,
     or_rows = [\<lparr>orr_columns = [\<lparr>ce_name = ''col1'', ce_value = ''val1''\<rparr>]\<rparr>], or_action = Snapshot\<rparr>"

text \<open>\<open>to_string\<close> prints and \<open>from_str\<close> parses JSON.\<close>

definition test_osquery_result_encoding_happy_path :: "(json \<Rightarrow> string option) \<Rightarrow> (string \<Rightarrow> json option) \<Rightarrow> string \<Rightarrow> bool" where
  "test_osquery_result_encoding_happy_path to_string from_str new_uuid =
     (case Option.bind (encode_osquery_result to_string new_uuid (test_result ''test-agent-123'' 1718660000000000000)) from_str of
        None \<Rightarrow> False
      | Some event \<Rightarrow>
          jindex event ''node_id'' = JString ''test-agent-123'' \<and> jindex event ''event_type'' = JInt (event_type_as_i32 Proto.Osquery) \<and>
          jindex event ''timestamp_ns'' = JInt 1718660000000000000 \<and>
          jindex (jindex event ''payload'') ''query_name'' = JString ''test_query'' \<and>
          jindex (jindex event ''payload'') ''action'' = JString ''SNAPSHOT'')"

definition test_encode_result :: "(json \<Rightarrow> string option) \<Rightarrow> (string \<Rightarrow> json option) \<Rightarrow> string \<Rightarrow> bool" where
  "test_encode_result to_string from_str new_uuid =
     (case Option.bind (from_str (encode_result to_string new_uuid (test_result ''uuid-123'' 123456789))) agent_event_of_json of
        None \<Rightarrow> False
      | Some parsed \<Rightarrow>
          ae_node_id parsed = ''uuid-123'' \<and> ae_event_type parsed = event_type_as_i32 Proto.Osquery \<and> ae_timestamp_ns parsed = 123456789 \<and>
          as_str (jindex (ae_payload parsed) ''query_name'') = Some ''test_query'' \<and>
          as_str (jindex (ae_payload parsed) ''action'') = Some ''SNAPSHOT'')"

section \<open>Preflight\<close>

definition test_report :: "(string, unit) result \<Rightarrow> preflight_report" where
  "test_report config_dir = \<lparr>pf_config_dir_writable = config_dir, pf_data_dir_writable = Ok (), pf_log_dir_writable = Ok (),
     pf_bpf_jit_enabled = Ok True, pf_inotify_watches = Ok 524288, pf_osqueryd_installed = Ok ''Found'', pf_nft_installed = Ok ''Found'',
     pf_is_root = True\<rparr>"

definition test_preflight_is_ok_logic :: bool where
  "test_preflight_is_ok_logic \<longleftrightarrow> report_is_ok (test_report (Ok ())) \<and> \<not> report_is_ok (test_report (Err ''fail''))"

section \<open>The model passes\<close>

definition test_buffer :: "timestamp \<Rightarrow> (int \<times> string) list \<Rightarrow> int \<Rightarrow> event_buffer" where
  "test_buffer now rows sq = \<lparr>eb_rows = map (\<lambda>(i, e). \<lparr>br_id = i, br_payload = e, br_created_at = now\<rparr>) rows, eb_seq = sq, eb_max_events = 3\<rparr>"

lemmas buffer_test_defs = test_buffer_def push_or_panic_def drain_or_panic_def push_def drain_def Let_def max_rowid_def sql_limit_def
  order_by_id_def delete_ids_def

lemma test_pushes:
  "push_or_panic now e (test_buffer now [] 0) = Some (test_buffer now [(1, e)] 1)"
  "push_or_panic now e (test_buffer now [x] 1) = Some (test_buffer now [x, (2, e)] 2)"
  "push_or_panic now e (test_buffer now [x, y] 2) = Some (test_buffer now [x, y, (3, e)] 3)"
  by (simp_all add: buffer_test_defs)

lemma test_evicting_push:
  "push_or_panic now e (test_buffer now [(1, a), (2, b), (3, c)] 3) = Some (test_buffer now [(2, b), (3, c), (4, e)] 4)"
  by (simp add: buffer_test_defs)

lemma test_drains:
  "drain_or_panic 2 (test_buffer now [(2, b), (3, c), (4, e)] 4) = Some ([b, c], test_buffer now [(4, e)] 4)"
  "drain_or_panic 5 (test_buffer now [(4, e)] 4) = Some ([e], test_buffer now [] 4)"
  by (simp_all add: buffer_test_defs)

lemma test_lens: "len None (test_buffer now rows sq) = Ok (of_nat (length rows))"
  by (simp add: len_def test_buffer_def)

lemma test_event_buffer_flow_passes: "test_event_buffer_flow now"
proof -
  have "new None None 3 = Ok (test_buffer now [] 0)" by (simp add: new_def test_buffer_def)
  then show ?thesis by (simp add: test_event_buffer_flow_def test_pushes test_evicting_push test_drains test_lens is_empty_def)
qed

definition test_row :: "timestamp \<Rightarrow> string \<Rightarrow> u64 \<Rightarrow> bool \<Rightarrow> schedule_row" where
  "test_row now sql secs snapshot = \<lparr>sr_name = ''test_query'', sr_query = sql, sr_interval_secs = uint secs,
     sr_snapshot = (if snapshot then 1 else 0), sr_updated_at = now\<rparr>"

lemma upsert_test_query:
  assumes "\<forall>r \<in> set t. sr_name r \<noteq> ''test_query''" "uint secs < 2 ^ 63"
  shows "upsert_queries True now [test_query sql secs snapshot] t = (Ok (), t @ [test_row now sql secs snapshot])"
    and "upsert_queries True now [test_query sql secs snapshot] (t @ [test_row now sql' secs' snapshot']) =
      (Ok (), t @ [test_row now sql secs snapshot])"
  using assms by (auto simp: upsert_queries_def upsert_row_def test_query_def test_row_def Let_def intro!: map_idI)

lemma load_test_query:
  assumes "\<forall>r \<in> set t. sr_name r \<noteq> ''test_query'' \<and> 0 \<le> sr_interval_secs r"
  shows "loaded_test_query (t @ [test_row now sql secs snapshot]) = Some (Suc (length t), test_query sql secs snapshot)"
proof -
  have "load_queries (t @ [test_row now sql secs snapshot]) =
      Ok (map (\<lambda>r. \<lparr>sq_name = sr_name r, sq_query = sr_query r, sq_interval_secs = word_of_int (sr_interval_secs r),
        sq_snapshot = (sr_snapshot r \<noteq> 0)\<rparr>) t @ [test_query sql secs snapshot])"
    using assms by (induction t) (simp_all add: read_schedule_row_def test_row_def test_query_def)
  moreover have "find (\<lambda>q. sq_name q = ''test_query'') (map (\<lambda>r. \<lparr>sq_name = sr_name r, sq_query = sr_query r,
      sq_interval_secs = word_of_int (sr_interval_secs r), sq_snapshot = (sr_snapshot r \<noteq> 0)\<rparr>) t) = None"
    using assms by (auto simp: find_None_iff)
  ultimately show ?thesis by (simp add: loaded_test_query_def find_append test_query_def)
qed

lemma test_upsert_and_load_queries_passes: "test_upsert_and_load_queries now"
proof -
  obtain t where t: "scheduler_new [] now [] = (Ok (), t)" "\<forall>r \<in> set t. sr_name r \<noteq> ''test_query'' \<and> 0 \<le> sr_interval_secs r" "length t = 3"
    by (simp add: scheduler_new_def default_queries_def)
  then show ?thesis by (simp add: test_upsert_and_load_queries_def upsert_test_query load_test_query)
qed

lemma test_ruleset_generation_ipv4_passes: "test_ruleset_generation_ipv4"
proof -
  have "digit_char (Suc 0) = CHR ''1''" "digit_char 2 = CHR ''2''" "digit_char 3 = CHR ''3''" "digit_char 4 = CHR ''4''" "digit_char 8 = CHR ''8''"
    by code_simp+
  then have ip: "show_v4 0x01020304 = ''1.2.3.4''" "show_nat 8443 = ''8443''"
    by (simp_all add: show_v4_def show_nat.simps)
  show ?thesis
    unfolding test_ruleset_generation_ipv4_def isolation_ruleset_def Let_def
    by (intro conjI contains_joined_line [where pre = "''        ''"]) (simp_all add: ip ip_family_def)
qed

lemma command_tests_pass: "test_command_handling_ack n w" "test_command_handling_config_update n w"
  by (simp_all add: test_command_handling_ack_def test_command_handling_config_update_def handled_status_def handle_def jindex_def
    status_json_def)

lemma fleet_client_tests_pass: "test_fleet_client_initial_state" "test_fleet_client_with_assigned_identity u"
  by (simp_all add: test_fleet_client_initial_state_def test_fleet_client_with_assigned_identity_def client_new_def)

lemma encoding_tests_pass:
  assumes "\<And>v. \<exists>s. to_string v = Some s \<and> from_str s = Some v"
  shows "test_osquery_result_encoding_happy_path to_string from_str u" "test_encode_result to_string from_str u"
proof -
  have printed: "Option.bind (to_string v) from_str = Some v" "from_str (unwrap_or [] (to_string v)) = Some v" for v
    using assms [of v] by auto
  show "test_osquery_result_encoding_happy_path to_string from_str u"
    by (simp add: test_osquery_result_encoding_happy_path_def encode_osquery_result_def printed agent_event_json_def osquery_event_def
      osquery_result_json_def test_result_def jindex_def)
  have "agent_event_of_json (agent_event_json (osquery_event u (test_result ''uuid-123'' 123456789))) =
      Some (osquery_event u (test_result ''uuid-123'' 123456789))"
    by (rule agent_event_roundtrip) (simp_all add: osquery_event_def test_result_def is_i32_def)
  then show "test_encode_result to_string from_str u"
    by (simp add: test_encode_result_def encode_result_def printed osquery_event_def osquery_result_json_def test_result_def jindex_def)
qed

lemma test_preflight_is_ok_logic_passes: "test_preflight_is_ok_logic"
  by (simp add: test_preflight_is_ok_logic_def report_is_ok_def test_report_def)

end
