(* ===== verification/FleetTests.thy ===== *)
theory FleetTests
  imports FleetMain
begin

text \<open>
  The unit tests of the fleet server's crates (the \<open>tests\<close> modules of \<open>health-tracker/src/tracker.rs\<close>,
  \<open>node-enrollment/src/enroller.rs\<close>, \<open>node-enrollment/src/token.rs\<close>, \<open>grpc-listener/src/auth.rs\<close> and
  \<open>fleet-tracing/src/init.rs\<close>), run on the model: a test is the truth of its assertions, and each lemma says that the model passes it,
  for every clock, error and token library the test leaves open. The mock stores implement the traits of the real ones.
\<close>

section \<open>Health tracker\<close>

text \<open>\<open>MockHealthStore\<close>: the calls it has seen. \<open>FailingHealthStore\<close> fails with the error it is given.\<close>

definition mock_record_heartbeat :: "'e \<Rightarrow> heartbeat_record \<Rightarrow> heartbeat_record list \<Rightarrow> (store_error, unit) result \<times> heartbeat_record list" where
  "mock_record_heartbeat e r calls = (Ok (), calls @ [r])"

definition failing_record_heartbeat :: "store_error \<Rightarrow> 'e \<Rightarrow> heartbeat_record \<Rightarrow> 's \<Rightarrow> (store_error, unit) result \<times> 's" where
  "failing_record_heartbeat x e r s = (Err x, s)"

definition call_count :: "heartbeat_record list \<Rightarrow> nat" where
  "call_count calls = length calls"

definition last_call :: "heartbeat_record list \<Rightarrow> heartbeat_record option" where
  "last_call calls = (if calls = [] then None else Some (last calls))"

definition test_heartbeat :: "string \<Rightarrow> agent_heartbeat" where
  "test_heartbeat status = \<lparr>ah_node_id = ''a1b2c3d4-0001-0000-0000-000000000001'', ah_status = status, ah_events_buffered = 42\<rparr>"

text \<open>A heartbeat on a new mock at a time: whether it succeeds, and the store after it.\<close>

definition beat_once :: "timestamp \<Rightarrow> string \<Rightarrow> (grpc_status, unit) result \<times> heartbeat_record list" where
  "beat_once now status = tracker_record mock_record_heartbeat ((), now) (test_heartbeat status) []"

definition heartbeat_forwarded_to_store :: "timestamp \<Rightarrow> bool" where
  "heartbeat_forwarded_to_store now =
     (case beat_once now ''healthy'' of (r, store) \<Rightarrow> is_ok r \<and> call_count store = 1)"

definition healthy_status_passes_through_unchanged :: "timestamp \<Rightarrow> bool" where
  "healthy_status_passes_through_unchanged now =
     (case beat_once now ''healthy'' of (r, store) \<Rightarrow>
        is_ok r \<and> map_option hbr_agent_status (last_call store) = Some ''healthy'')"

definition isolated_status_from_agent_is_coerced_to_degraded :: "timestamp \<Rightarrow> bool" where
  "isolated_status_from_agent_is_coerced_to_degraded now =
     (case beat_once now ''isolated'' of (r, store) \<Rightarrow>
        is_ok r \<and> map_option hbr_agent_status (last_call store) = Some ''degraded'')"

definition record_contains_server_timestamp :: "timestamp \<Rightarrow> timestamp \<Rightarrow> timestamp \<Rightarrow> bool" where
  "record_contains_server_timestamp before now after =
     (case beat_once now ''healthy'' of (r, store) \<Rightarrow>
        is_ok r \<and> (case last_call store of None \<Rightarrow> False | Some call \<Rightarrow> before \<le> hbr_recorded_at call \<and> hbr_recorded_at call \<le> after))"

definition tracker_store_failure_maps_to_internal :: "store_error \<Rightarrow> timestamp \<Rightarrow> bool" where
  "tracker_store_failure_maps_to_internal x now =
     (case fst (tracker_record (failing_record_heartbeat x) ((), now) (test_heartbeat ''healthy'') ()) of
        Inl st \<Rightarrow> gs_code st = Internal
      | Inr _ \<Rightarrow> False)"

section \<open>Enroller\<close>

definition mock_upsert_node :: "string \<Rightarrow> 'e \<Rightarrow> node_record \<Rightarrow> 's \<Rightarrow> (store_error, string) result \<times> 's" where
  "mock_upsert_node node_id e r s = (Ok node_id, s)"

definition failing_upsert_node :: "store_error \<Rightarrow> 'e \<Rightarrow> node_record \<Rightarrow> 's \<Rightarrow> (store_error, string) result \<times> 's" where
  "failing_upsert_node x e r s = (Err x, s)"

definition test_registration :: agent_registration where
  "test_registration = \<lparr>rg_hostname = ''test-host'', rg_os_version = ''Ubuntu 24.04'', rg_agent_version = ''0.1.0'', rg_machine_id = ''mid-test-001''\<rparr>"

definition successful_enrollment_returns_node_id_and_token :: "fleet_deps \<Rightarrow> u64 option \<Rightarrow> bool" where
  "successful_enrollment_returns_node_id_and_token d now =
     (let expected_id = ''a1b2c3d4-0001-0000-0000-000000000001'' in
      case fst (enroller_register (mock_upsert_node expected_id) d ''test-secret-long-enough'' ((), now) test_registration ()) of
        Inl _ \<Rightarrow> False
      | Inr res \<Rightarrow> rr_node_id res = expected_id \<and> rr_token res \<noteq> [])"

definition enroller_store_failure_maps_to_internal :: "store_error \<Rightarrow> fleet_deps \<Rightarrow> u64 option \<Rightarrow> bool" where
  "enroller_store_failure_maps_to_internal x d now =
     (case fst (enroller_register (failing_upsert_node x) d ''test-secret-long-enough'' ((), now) test_registration ()) of
        Inl st \<Rightarrow> gs_code st = Internal
      | Inr _ \<Rightarrow> False)"

section \<open>Tokens\<close>

definition token_test_secret :: bytes where
  "token_test_secret = ''test-secret-long-enough-for-hs256-validation''"

definition token_test_node :: string where
  "token_test_node = ''a1b2c3d4-0001-0000-0000-000000000001''"

text \<open>Signing at a time and decoding at another.\<close>

definition sign_and_decode :: "fleet_deps \<Rightarrow> u64 option \<Rightarrow> timestamp \<Rightarrow> string \<Rightarrow> bytes \<Rightarrow> node_claims option" where
  "sign_and_decode d now later node_id key =
     Option.bind (ok_opt (sign_token d now node_id token_test_secret)) (\<lambda>token. ok_opt (fd_jwt_decode d later key token))"

definition signed_token_decodes_with_same_secret :: "fleet_deps \<Rightarrow> u64 option \<Rightarrow> timestamp \<Rightarrow> bool" where
  "signed_token_decodes_with_same_secret d now later =
     (map_option nc_node_id (sign_and_decode d now later token_test_node token_test_secret) = Some token_test_node)"

definition token_carries_correct_node_id :: "fleet_deps \<Rightarrow> u64 option \<Rightarrow> timestamp \<Rightarrow> bool" where
  "token_carries_correct_node_id d now later =
     (map_option nc_node_id (sign_and_decode d now later ''other-node'' token_test_secret) = Some ''other-node'')"

definition wrong_secret_fails_decode :: "fleet_deps \<Rightarrow> u64 option \<Rightarrow> timestamp \<Rightarrow> bool" where
  "wrong_secret_fails_decode d now later =
     (case sign_token d now token_test_node token_test_secret of
        Inl _ \<Rightarrow> False
      | Inr token \<Rightarrow> \<not> is_ok (fd_jwt_decode d later ''wrong-secret'' token))"

definition exp_is_24h_from_now :: "fleet_deps \<Rightarrow> u64 \<Rightarrow> u64 option \<Rightarrow> timestamp \<Rightarrow> bool" where
  "exp_is_24h_from_now d before now later =
     (case sign_and_decode d now later token_test_node token_test_secret of
        None \<Rightarrow> False
      | Some claims \<Rightarrow> before + TOKEN_TTL_SECS - 5 \<le> nc_exp claims \<and> nc_exp claims \<le> before + TOKEN_TTL_SECS + 5)"

section \<open>Validation of tokens\<close>

definition make_token :: "fleet_deps \<Rightarrow> u64 \<Rightarrow> string \<Rightarrow> bytes \<Rightarrow> i64 \<Rightarrow> (string, string) result" where
  "make_token d now node_id secret exp_offset_secs =
     fd_jwt_encode d secret \<lparr>nc_node_id = node_id, nc_exp = now + exp_offset_secs\<rparr>"

text \<open>A token made at a time in the header of a request that is validated at another.\<close>

definition validate_made :: "fleet_deps \<Rightarrow> u64 \<Rightarrow> timestamp \<Rightarrow> bytes \<Rightarrow> i64 \<Rightarrow> bytes \<Rightarrow> (grpc_status, node_claims) result option" where
  "validate_made d now later secret exp_offset_secs key =
     map_option (\<lambda>token. validate_token d later [(''authorization'', ''Bearer '' @ token)] key)
       (ok_opt (make_token d now ''node-123'' secret exp_offset_secs))"

definition is_unauthenticated :: "(grpc_status, 'a) result option \<Rightarrow> bool" where
  "is_unauthenticated r = (case r of Some (Inl st) \<Rightarrow> gs_code st = Unauthenticated | _ \<Rightarrow> False)"

definition accepts_valid_token :: "fleet_deps \<Rightarrow> u64 \<Rightarrow> timestamp \<Rightarrow> bool" where
  "accepts_valid_token d now later =
     (case validate_made d now later ''test-secret'' 3600 ''test-secret'' of
        Some (Inr claims) \<Rightarrow> nc_node_id claims = ''node-123''
      | _ \<Rightarrow> False)"

definition rejects_missing_header :: "fleet_deps \<Rightarrow> timestamp \<Rightarrow> bool" where
  "rejects_missing_header d later = is_unauthenticated (Some (validate_token d later [] ''secret''))"

definition rejects_expired_token :: "fleet_deps \<Rightarrow> u64 \<Rightarrow> timestamp \<Rightarrow> bool" where
  "rejects_expired_token d now later = is_unauthenticated (validate_made d now later ''test-secret'' (- 3600) ''test-secret'')"

definition rejects_wrong_secret :: "fleet_deps \<Rightarrow> u64 \<Rightarrow> timestamp \<Rightarrow> bool" where
  "rejects_wrong_secret d now later = is_unauthenticated (validate_made d now later ''correct-secret'' 3600 ''wrong-secret'')"

section \<open>Log formats\<close>

definition log_format_parses_json :: bool where
  "log_format_parses_json \<longleftrightarrow> log_format_from_str ''json'' = Ok FleetJson \<and> log_format_from_str ''JSON'' = Ok FleetJson"

definition log_format_parses_human :: bool where
  "log_format_parses_human \<longleftrightarrow> log_format_from_str ''human'' = Ok FleetHuman \<and> log_format_from_str ''pretty'' = Ok FleetHuman"

definition log_format_rejects_unknown :: bool where
  "log_format_rejects_unknown \<longleftrightarrow> \<not> is_ok (log_format_from_str ''xml'')"

definition tracing_config_default_is_sane :: bool where
  "tracing_config_default_is_sane \<longleftrightarrow>
     (let cfg = tracing_config_default in
      tc_log_level cfg = ''info'' \<and> tc_format cfg = FleetHuman \<and> tc_service_name cfg = ''fleet-server'')"

section \<open>The mocks are stores\<close>

text \<open>The mock has no operator's column and shows no agent's status; what it promises is the log of the statuses.\<close>

interpretation mock_health: health_store "\<lambda>_. True" "\<lambda>_ _. None" "\<lambda>_ _. None" "map hbr_agent_status" mock_record_heartbeat
  by unfold_locales (auto simp: mock_record_heartbeat_def)

interpretation failing_health: health_store "\<lambda>_. True" "\<lambda>_ _. None" "\<lambda>_ _. None" "\<lambda>_. []" "failing_record_heartbeat x" for x
  by unfold_locales (auto simp: failing_record_heartbeat_def)

interpretation failing_nodes: node_store "\<lambda>_. True" "\<lambda>_ _. None" "\<lambda>_. 0" "failing_upsert_node x" for x
  by unfold_locales (auto simp: failing_upsert_node_def)

section \<open>The model passes\<close>

lemmas tracker_test_defs = beat_once_def tracker_record_def mock_record_heartbeat_def failing_record_heartbeat_def test_heartbeat_def
  call_count_def last_call_def sanitize_status_def status_of_def

lemma tracker_tests_pass:
  "heartbeat_forwarded_to_store now" "healthy_status_passes_through_unchanged now"
  "isolated_status_from_agent_is_coerced_to_degraded now" "tracker_store_failure_maps_to_internal x now"
  by (simp_all add: tracker_test_defs heartbeat_forwarded_to_store_def healthy_status_passes_through_unchanged_def
    isolated_status_from_agent_is_coerced_to_degraded_def tracker_store_failure_maps_to_internal_def)

lemma record_contains_server_timestamp_passes:
  "\<lbrakk>before \<le> now; now \<le> after\<rbrakk> \<Longrightarrow> record_contains_server_timestamp before now after"
  by (simp add: record_contains_server_timestamp_def tracker_test_defs)

text \<open>What the tests rely on from \<open>jsonwebtoken\<close>: signing succeeds and gives a text, the laws of expiry, and a token that decodes under
  no other key.\<close>

definition token_library :: "fleet_deps \<Rightarrow> bool" where
  "token_library d \<longleftrightarrow> jwt_laws d \<and> (\<forall>secret c. \<exists>tok. fd_jwt_encode d secret c = Ok tok \<and> tok \<noteq> []) \<and>
     (\<forall>secret c tok key t. fd_jwt_encode d secret c = Ok tok \<longrightarrow> key \<noteq> secret \<longrightarrow> \<not> is_ok (fd_jwt_decode d t key tok))"

lemma token_libraryE:
  assumes "token_library d"
  obtains tok where "fd_jwt_encode d secret c = Ok tok" "tok \<noteq> []"
    "\<And>t. t \<le> uint (nc_exp c) \<Longrightarrow> fd_jwt_decode d t secret tok = Ok c"
    "\<And>t. t > uint (nc_exp c) + 60 \<Longrightarrow> \<not> is_ok (fd_jwt_decode d t secret tok)"
    "\<And>t key. key \<noteq> secret \<Longrightarrow> \<not> is_ok (fd_jwt_decode d t key tok)"
    "fd_to_str d (''Bearer '' @ tok) = Some (''Bearer '' @ tok)"
proof -
  obtain tok where "fd_jwt_encode d secret c = Ok tok" "tok \<noteq> []" using assms unfolding token_library_def by blast
  with assms show thesis by (intro that [of tok]) (auto simp: token_library_def jwt_laws_def)
qed

lemma successful_enrollment_passes:
  assumes "token_library d"
  shows "successful_enrollment_returns_node_id_and_token d (Some now)"
  by (rule token_libraryE [OF assms, of "''test-secret-long-enough''"
        "\<lparr>nc_node_id = ''a1b2c3d4-0001-0000-0000-000000000001'', nc_exp = saturating_add now TOKEN_TTL_SECS\<rparr>"])
    (simp add: successful_enrollment_returns_node_id_and_token_def enroller_register_def mock_upsert_node_def sign_token_def Let_def)

lemma enroller_store_failure_passes: "enroller_store_failure_maps_to_internal x d now"
  by (simp add: enroller_store_failure_maps_to_internal_def enroller_register_def failing_upsert_node_def status_of_def)

lemma ttl_exact:
  assumes "uint now + 86405 < 2 ^ 64"
  shows "saturating_add now TOKEN_TTL_SECS = now + TOKEN_TTL_SECS" "uint (now + TOKEN_TTL_SECS) = uint now + 86400"
  using assms by (simp_all add: TOKEN_TTL_SECS_def uint_word_ariths saturating_add_def)

lemma sign_and_decode_own:
  assumes "token_library d" "uint now + 86405 < 2 ^ 64" "later \<le> uint now + 86400"
  shows "sign_and_decode d (Some now) later node_id token_test_secret = Some \<lparr>nc_node_id = node_id, nc_exp = now + TOKEN_TTL_SECS\<rparr>"
  by (rule token_libraryE [OF assms(1), of token_test_secret "\<lparr>nc_node_id = node_id, nc_exp = now + TOKEN_TTL_SECS\<rparr>"])
    (simp add: sign_and_decode_def sign_token_def ttl_exact [OF assms(2)] assms(3))

lemma token_tests_pass:
  assumes "token_library d" "uint now + 86405 < 2 ^ 64" "later \<le> uint now + 86400"
  shows "signed_token_decodes_with_same_secret d (Some now) later" "token_carries_correct_node_id d (Some now) later"
  by (simp_all add: signed_token_decodes_with_same_secret_def token_carries_correct_node_id_def sign_and_decode_own [OF assms])

lemma wrong_secret_fails_decode_passes:
  assumes "token_library d"
  shows "wrong_secret_fails_decode d (Some now) later"
  by (rule token_libraryE [OF assms, of token_test_secret "\<lparr>nc_node_id = token_test_node, nc_exp = saturating_add now TOKEN_TTL_SECS\<rparr>"])
    (simp add: wrong_secret_fails_decode_def sign_token_def, simp add: token_test_secret_def)

text \<open>The test reads the clock before it signs: it passes when at most five seconds go by.\<close>

lemma exp_is_24h_from_now_passes:
  assumes "token_library d" "uint now + 86405 < 2 ^ 64" "later \<le> uint now + 86400"
    and "before \<le> now" "uint now \<le> uint before + 5"
  shows "exp_is_24h_from_now d before (Some now) later"
proof -
  have "uint before \<le> uint now" using assms(4) by (simp add: word_le_def)
  then have "uint (before + TOKEN_TTL_SECS - 5) = uint before + 86395" "uint (before + TOKEN_TTL_SECS + 5) = uint before + 86405"
    "uint (now + TOKEN_TTL_SECS) = uint now + 86400"
    using assms(2) by (simp_all add: TOKEN_TTL_SECS_def uint_word_ariths)
  then show ?thesis
    using \<open>uint before \<le> uint now\<close> assms(5) by (simp add: exp_is_24h_from_now_def sign_and_decode_own [OF assms(1-3)] word_le_def)
qed

lemma rejects_missing_header_passes: "rejects_missing_header d later"
  by (simp add: rejects_missing_header_def is_unauthenticated_def validate_token_def status_of_def)

lemma validate_madeE:
  assumes "token_library d"
  obtains tok where "validate_made d now later secret off key =
      Some (map_err (\<lambda>_. status_of Unauthenticated ''invalid or expired token'') (fd_jwt_decode d later key tok))"
    "later \<le> uint (now + off) \<Longrightarrow> fd_jwt_decode d later secret tok = Ok \<lparr>nc_node_id = ''node-123'', nc_exp = now + off\<rparr>"
    "later > uint (now + off) + 60 \<Longrightarrow> \<not> is_ok (fd_jwt_decode d later secret tok)"
    "key \<noteq> secret \<Longrightarrow> \<not> is_ok (fd_jwt_decode d later key tok)"
proof (rule token_libraryE [OF assms, of secret "\<lparr>nc_node_id = ''node-123'', nc_exp = now + off\<rparr>"])
  fix tok
  assume tok: "fd_jwt_encode d secret \<lparr>nc_node_id = ''node-123'', nc_exp = now + off\<rparr> = Ok tok"
    and "fd_to_str d (''Bearer '' @ tok) = Some (''Bearer '' @ tok)"
  then have "validate_made d now later secret off key =
      Some (map_err (\<lambda>_. status_of Unauthenticated ''invalid or expired token'') (fd_jwt_decode d later key tok))"
    unfolding validate_made_def make_token_def by (simp add: validate_bearer del: append_Cons)
  moreover assume "\<And>t. t \<le> uint (nc_exp \<lparr>nc_node_id = ''node-123'', nc_exp = now + off\<rparr>) \<Longrightarrow>
      fd_jwt_decode d t secret tok = Ok \<lparr>nc_node_id = ''node-123'', nc_exp = now + off\<rparr>"
    "\<And>t. t > uint (nc_exp \<lparr>nc_node_id = ''node-123'', nc_exp = now + off\<rparr>) + 60 \<Longrightarrow> \<not> is_ok (fd_jwt_decode d t secret tok)"
    "\<And>t key. key \<noteq> secret \<Longrightarrow> \<not> is_ok (fd_jwt_decode d t key tok)"
  ultimately show thesis by (intro that) simp_all
qed

lemma is_unauthenticated_map_err:
  "\<not> is_ok r \<Longrightarrow> is_unauthenticated (Some (map_err (\<lambda>_. status_of Unauthenticated m) r))"
  by (cases r) (simp_all add: is_unauthenticated_def status_of_def)

lemma accepts_valid_token_passes:
  assumes "token_library d" "uint now + 3600 < 2 ^ 64" "later \<le> uint now + 3600"
  shows "accepts_valid_token d now later"
proof -
  have exp: "uint (now + 3600) = uint now + 3600" using assms(2) by (simp add: uint_word_ariths)
  show ?thesis
    by (rule validate_madeE [OF assms(1), of now later "''test-secret''" 3600 "''test-secret''"])
      (simp add: accepts_valid_token_def assms(3) exp)
qed

lemma rejects_expired_token_passes:
  assumes "token_library d" "3600 \<le> uint now" "uint now \<le> later"
  shows "rejects_expired_token d now later"
proof -
  have exp: "uint (now - 3600) = uint now - 3600" using assms(2) uint_lt2p [of now] by (simp add: uint_word_ariths)
  show ?thesis
    by (rule validate_madeE [OF assms(1), of now later "''test-secret''" "- 3600" "''test-secret''"])
      (use assms(3) in \<open>simp add: rejects_expired_token_def is_unauthenticated_map_err exp\<close>)
qed

lemma rejects_wrong_secret_passes:
  assumes "token_library d"
  shows "rejects_wrong_secret d now later"
  by (rule validate_madeE [OF assms, of now later "''correct-secret''" 3600 "''wrong-secret''"])
    (simp add: rejects_wrong_secret_def is_unauthenticated_map_err)

lemma log_format_tests_pass:
  "log_format_parses_json" "log_format_parses_human" "log_format_rejects_unknown" "tracing_config_default_is_sane"
  by code_simp+

text \<open>Such a library exists: tokens that name their expiry, their key and their node.\<close>

definition keyed_deps :: fleet_deps where
  "keyed_deps = sample_deps\<lparr>
     fd_jwt_encode := (\<lambda>secret c. Ok (show_nat (unat (nc_exp c)) @ ''.'' @ show_nat (length secret) @ ''.'' @ secret @ nc_node_id c)),
     fd_jwt_decode := (\<lambda>t key tok.
        (case split_once (CHR ''.'') tok of
           None \<Rightarrow> Err ''malformed''
         | Some (e, rest) \<Rightarrow>
             (case split_once (CHR ''.'') rest of
                None \<Rightarrow> Err ''malformed''
              | Some (n, rest) \<Rightarrow>
                  if n = show_nat (length key) \<and> take (length key) rest = key \<and> t \<le> int (digits_value e) + 60
                  then Ok \<lparr>nc_node_id = drop (length key) rest, nc_exp = of_nat (digits_value e)\<rparr> else Err ''rejected'')))\<rparr>"

lemma keyed_deps_token_library: "token_library keyed_deps"
proof -
  have dot: "CHR ''.'' \<notin> set (show_nat n)" for n using show_nat_digits [of "CHR ''.''" n] by auto
  have inj: "show_nat m = show_nat n \<Longrightarrow> m = n" for m n by (metis digits_value_show_nat)
  show ?thesis
    unfolding token_library_def jwt_laws_def
    by (auto simp: keyed_deps_def sample_deps_def split_once_no_sep [OF dot] dest: inj split: if_splits)
qed

end
