(* ===== verification/DedupWindow.thy ===== *)
theory DedupWindow
  imports Dedup
begin

text \<open>
  The deduplicator of \<open>rule-engine/src/engine/dedup.rs\<close> refines a single unbounded table that remembers when each signature last passed
  (\<open>window_check\<close>): shards, hashing, promotion and capacity do not show, as long as the signatures of a run fit a shard.
\<close>

text \<open>A run on the table.\<close>

fun window_run :: "nat \<Rightarrow> (instant \<times> alert_signature) list \<Rightarrow> (alert_signature \<rightharpoonup> instant \<times> u64)
    \<Rightarrow> bool list \<times> (alert_signature \<rightharpoonup> instant \<times> u64)" where
  "window_run w [] m = ([], m)"
| "window_run w ((now, sig) # calls) m =
     (case window_check w now sig m of (b, m') \<Rightarrow> (case window_run w calls m' of (bs, m'') \<Rightarrow> (b # bs, m'')))"

lemma shard_has_room:
  assumes "dedup_inv entries cap n d" and "\<forall>c \<in> set (dd_shards d). fst ` set (entries c) \<subseteq> S"
    and "finite S" "card S \<le> n" "sig \<in> S"
  shows "length (entries (dd_shards d ! shard_index hash sig)) < n \<or> dedup_lookup hash entries d sig \<noteq> None"
proof (rule disjCI)
  let ?es = "entries (dd_shards d ! shard_index hash sig)"
  note s = dedup_inv_shard [OF assms(1)]
  have "fst ` set ?es \<subseteq> S" using assms(2) s(1) by simp
  moreover assume "\<not> dedup_lookup hash entries d sig \<noteq> None"
  ultimately have "fst ` set ?es \<subset> S" using assms(5) by (auto simp: dedup_lookup_def map_of_eq_None_iff)
  then have "card (fst ` set ?es) < card S" by (rule psubset_card_mono [OF assms(3)])
  then show "length ?es < n" using assms(4) distinct_card [OF s(5) [of hash sig]] by simp
qed

lemma step_keys:
  assumes "lru_laws ops entries cap" "dedup_inv entries cap n d"
    and "\<forall>c \<in> set (dd_shards d). fst ` set (entries c) \<subseteq> S" "sig \<in> S"
  shows "\<forall>c \<in> set (dd_shards (snd (check_and_record hash ops now sig d))). fst ` set (entries c) \<subseteq> S"
proof -
  note s = dedup_inv_shard [OF assms(2)]
  let ?es = "entries (dd_shards d ! shard_index hash sig)"
  obtain c where c: "snd (check_and_record hash ops now sig d) = d\<lparr>dd_shards := (dd_shards d)[shard_index hash sig := c]\<rparr>"
    "entries c = shard_after (dd_window d) now sig n ?es"
    using check_and_record_shard(1) [OF assms(1) s(1), of hash now sig] s(3) by metis
  have "fst ` set (entries c) \<subseteq> S"
    unfolding c(2) by (rule subset_trans [OF keys_shard_after [OF s(5)]]) (use assms(3,4) s(1) in simp)
  then show ?thesis
    using assms(3) set_update_subset_insert [of "dd_shards d" "shard_index hash sig" c] unfolding c(1) by simp blast
qed

lemma dedup_run_window:
  assumes "lru_laws ops entries cap" "finite S" "card S \<le> n"
  shows "dedup_inv entries cap n d \<Longrightarrow> \<forall>c \<in> set (dd_shards d). fst ` set (entries c) \<subseteq> S \<Longrightarrow> snd ` set calls \<subseteq> S \<Longrightarrow>
     map_prod id (dedup_lookup hash entries) (dedup_run hash ops calls d) = window_run (dd_window d) calls (dedup_lookup hash entries d)"
proof (induction calls arbitrary: d)
  case (Cons call calls)
  obtain now sig where call: "call = (now, sig)" by fastforce
  obtain b d1 where b: "check_and_record hash ops now sig d = (b, d1)" by fastforce
  obtain bs d2 where run: "dedup_run hash ops calls d1 = (bs, d2)" by fastforce
  have sig: "sig \<in> S" using Cons.prems(3) by (simp add: call)
  note look = check_and_record_lookup(1,4) [OF assms(1) Cons.prems(1), where hash = hash and now = now and sig = sig, unfolded b,
      simplified]
  have step: "window_check (dd_window d) now sig (dedup_lookup hash entries d) = (b, dedup_lookup hash entries d1)"
    using look shard_has_room [OF Cons.prems(1,2) assms(2,3) sig, of hash] by (auto intro: prod_eqI)
  have "window_run (dd_window d) calls (dedup_lookup hash entries d1) = (bs, dedup_lookup hash entries d2)"
    using Cons.IH [of d1] check_and_record_inv [OF assms(1) Cons.prems(1), of hash now sig]
      step_keys [OF assms(1) Cons.prems(1,2) sig, of hash now] Cons.prems(3) b run by simp
  then show ?case by (simp add: call b run step)
qed simp

lemma dedup_run_fresh:
  assumes "lru_laws ops entries cap" and "dedup_new ops capacity w = Inr d"
    and "card (snd ` set calls) \<le> capacity div SHARD_COUNT"
  shows "map_prod id (dedup_lookup hash entries) (dedup_run hash ops calls d) = window_run w calls Map.empty"
  using dedup_run_window [OF assms(1) _ assms(3) dedup_new_inv(1) [OF assms(1,2)], of calls hash] dedup_new_inv(2-4) [OF assms(1,2)]
  by simp

lemma dedup_verdicts_fresh:
  "\<lbrakk>lru_laws ops entries cap; dedup_new ops capacity w = Inr d; card (snd ` set calls) \<le> capacity div SHARD_COUNT\<rbrakk>
   \<Longrightarrow> fst (dedup_run hash ops calls d) = fst (window_run w calls Map.empty)"
  using dedup_run_fresh [of ops entries cap capacity w d calls hash] by (metis fst_map_prod id_apply)

text \<open>C23: The deduplicator refines the table. With a cache that keeps to its documented behaviour, any hash and any clock readings, a run on a
  fresh deduplicator gives the verdicts of one unbounded table that lets a signature pass when it last passed at least the window
  before, and remembers what the table remembers, as long as the run has no more distinct signatures than one shard holds; the
  table lets two alerts of a signature pass only if they are the window apart.\<close>

theorem dedup_refines_window:
  assumes "lru_laws ops entries cap" and "dedup_new ops capacity w = Inr d"
    and "card (snd ` set calls) \<le> capacity div SHARD_COUNT"
  shows "map_prod id (dedup_lookup hash entries) (dedup_run hash ops calls d) = window_run w calls Map.empty \<and>
    (\<forall>i j. i < j \<and> j < length calls \<and> snd (calls ! i) = snd (calls ! j) \<and> fst (window_run w calls Map.empty) ! i \<and>
       fst (window_run w calls Map.empty) ! j \<longrightarrow> w \<le> fst (calls ! j) - fst (calls ! i))"
proof (intro conjI allI impI)
  fix i j
  assume "i < j \<and> j < length calls \<and> snd (calls ! i) = snd (calls ! j) \<and> fst (window_run w calls Map.empty) ! i \<and>
      fst (window_run w calls Map.empty) ! j"
  then show "w \<le> fst (calls ! j) - fst (calls ! i)"
    using passes_apart [OF assms, of i j] dedup_verdicts_fresh [OF assms] by metis
qed (rule dedup_run_fresh [OF assms])

theorem dedup_refines_window_witness:
  "fst (dedup_run ucast list_lru demo_calls demo_dedup) = fst (window_run 60 demo_calls Map.empty) \<and>
   fst (window_run 60 demo_calls Map.empty) = [True, True, False, True] \<and> 60 \<le> fst (demo_calls ! 3) - fst (demo_calls ! 0)"
proof -
  have "card (snd ` set demo_calls) \<le> 33 div SHARD_COUNT" by (simp add: demo_calls_def SHARD_COUNT_def card_insert_if)
  note r = dedup_refines_window [OF list_lru_laws demo_dedup_new this, of ucast]
  from conjunct1 [OF r] have v: "fst (window_run 60 demo_calls Map.empty) = [True, True, False, True]"
    by (metis demo_dedup_run fst_map_prod id_apply)
  with conjunct2 [OF r] have "60 \<le> fst (demo_calls ! 3) - fst (demo_calls ! 0)"
    by (auto simp: demo_calls_def dest!: spec [of _ 0] spec [of _ 3])
  with v show ?thesis by (simp add: demo_dedup_run)
qed

text \<open>On the table: the first alert of a signature passes, those within the window of it are suppressed, the first one after the window
  passes again.\<close>

lemma window_run_append:
  "fst (window_run w (xs @ ys) m) = fst (window_run w xs m) @ fst (window_run w ys (snd (window_run w xs m)))"
  by (induction w xs m rule: window_run.induct) (auto split: prod.split)

lemma window_run_fresh:
  "distinct (map snd calls) \<Longrightarrow> \<forall>(now, sig) \<in> set calls. m sig = None \<Longrightarrow> fst (window_run w calls m) = replicate (length calls) True"
proof (induction calls arbitrary: m)
  case (Cons call calls)
  obtain now sig where call: "call = (now, sig)" by fastforce
  have "fst (window_run w calls (m(sig \<mapsto> (now, 1)))) = replicate (length calls) True"
    using Cons.prems by (intro Cons.IH) (force simp: call)+
  moreover have "window_check w now sig m = (True, m(sig \<mapsto> (now, 1)))" using Cons.prems(2) by (simp add: call window_check_def)
  ultimately show ?case by (simp add: call case_prod_beta)
qed simp

lemma window_run_repeats:
  assumes "m sig = Some (t, k)" and "\<forall>now \<in> set ts. now - t < w"
  shows "\<exists>k'. window_run w (map (\<lambda>now. (now, sig)) ts) m = (replicate (length ts) False, m(sig \<mapsto> (t, k')))"
  using assms
proof (induction ts arbitrary: m k)
  case Nil
  then show ?case by (auto intro!: exI [of _ k] simp: fun_upd_idem)
next
  case (Cons now ts)
  define m1 where "m1 = m(sig \<mapsto> (t, k + 1))"
  have step: "window_check w now sig m = (False, m1)" using Cons.prems by (simp add: window_check_def m1_def)
  have "m1 sig = Some (t, k + 1)" "\<forall>now \<in> set ts. now - t < w" using Cons.prems(2) by (simp_all add: m1_def)
  from Cons.IH [of m1 "k + 1", OF this] obtain k' where
    "window_run w (map (\<lambda>now. (now, sig)) ts) m1 = (replicate (length ts) False, m1(sig \<mapsto> (t, k')))" by blast
  moreover have "m1(sig \<mapsto> (t, k')) = m(sig \<mapsto> (t, k'))" by (simp add: m1_def)
  ultimately show ?case by (intro exI [of _ k']) (simp add: step fun_upd_def)
qed

end
