(* ===== verification/ServiceTests.thy ===== *)
theory ServiceTests
  imports ApiLive PipelineMain "HOL-Library.Countable"
begin

text \<open>
  The tests of the operators' service (the \<open>tests\<close> module of \<open>api-backend/src/kafka/consumer.rs\<close>) and of the pipeline
  (\<open>kafka-pipeline/tests/integration_test.rs\<close>), run on the model. JSON text is printed and parsed by \<open>to_vec\<close> and \<open>from_slice\<close>, UUIDs by
  \<open>uuid_str\<close> and \<open>uuid_parse\<close>; the tests print a value and parse the message they get.
\<close>

section \<open>Messages of the broker\<close>

record test_lib =
  tlb_to_vec :: "json \<Rightarrow> bytes option"
  tlb_from_slice :: "bytes \<Rightarrow> json option"
  tlb_from_live :: "bytes \<Rightarrow> live_event option"
  tlb_uuid_str :: "uuid \<Rightarrow> string"
  tlb_uuid_parse :: "string \<Rightarrow> uuid option"

definition parse_test_entity :: "test_lib \<Rightarrow> uuid \<Rightarrow> timestamp \<Rightarrow> string \<Rightarrow> json \<Rightarrow> event_log option" where
  "parse_test_entity lib fresh now topic payload =
     Option.bind (tlb_to_vec lib payload) (parse_log_entity (tlb_from_slice lib) (tlb_uuid_parse lib) fresh now topic)"

definition test_node_id :: string where "test_node_id = ''b6b8bed7-decf-4a56-80de-1600b762f750''"

definition raw_agent_event :: json where
  "raw_agent_event = JObject [(''action'', JString ''ADDED''), (''agent_uuid'', JString test_node_id),
     (''query_name'', JString ''running_processes''),
     (''rows'', JArray [JObject [(''columns'', JArray
        [JObject [(''name'', JString ''pid''), (''value'', JString ''1234'')],
         JObject [(''name'', JString ''name''), (''value'', JString ''curl'')]])]]),
     (''timestamp_ns'', JInt 1788880789164568263)]"

definition test_parse_log_entity_from_raw_agent_event :: "test_lib \<Rightarrow> uuid \<Rightarrow> timestamp \<Rightarrow> bool" where
  "test_parse_log_entity_from_raw_agent_event lib fresh now =
     (case parse_test_entity lib fresh now ''aigis.events.raw'' raw_agent_event of
        None \<Rightarrow> False
      | Some entity \<Rightarrow> tlb_uuid_str lib (el_node_id entity) = test_node_id \<and> el_event_type entity = ''running_processes'' \<and>
          el_hostname entity = ''unknown'' \<and> jget ''rows'' (el_payload entity) \<noteq> None)"

definition test_envelope :: json where
  "test_envelope = JObject [(''id'', JString ''c1b2c3d4-0001-0000-0000-000000000001''), (''node_id'', JString test_node_id),
     (''hostname'', JString ''hawkins''), (''event_type'', JString ''process_events''), (''timestamp_ns'', JInt 1788880789164568263),
     (''raw_sequence_id'', JString ''seq-999''), (''payload'', JObject [(''cmdline'', JString ''ls -la'')])]"

definition test_parse_log_entity_from_envelope :: "test_lib \<Rightarrow> uuid \<Rightarrow> timestamp \<Rightarrow> bool" where
  "test_parse_log_entity_from_envelope lib fresh now =
     (case parse_test_entity lib fresh now ''aigis.events.process'' test_envelope of
        None \<Rightarrow> False
      | Some entity \<Rightarrow> tlb_uuid_str lib (el_event_id entity) = ''c1b2c3d4-0001-0000-0000-000000000001'' \<and>
          tlb_uuid_str lib (el_node_id entity) = test_node_id \<and> el_hostname entity = ''hawkins'' \<and>
          el_event_type entity = ''process_events'' \<and> el_raw_sequence_id entity = Some ''seq-999'')"

definition test_parse_log_entity_ignores_non_event_topics :: "test_lib \<Rightarrow> uuid \<Rightarrow> timestamp \<Rightarrow> bool" where
  "test_parse_log_entity_ignores_non_event_topics lib fresh now \<longleftrightarrow>
     parse_test_entity lib fresh now ''aigis.alerts'' (JObject [(''foo'', JString ''bar'')]) = None \<and>
     parse_test_entity lib fresh now ''aigis.health'' (JObject [(''foo'', JString ''bar'')]) = None"

definition test_parse_kafka_message_extracts_agent_uuid :: "test_lib \<Rightarrow> int \<Rightarrow> bool" where
  "test_parse_kafka_message_extracts_agent_uuid lib now =
     (case Option.bind (tlb_to_vec lib (JObject [(''action'', JString ''ADDED''), (''agent_uuid'', JString test_node_id),
           (''query_name'', JString ''running_processes''), (''rows'', JArray [])]))
         (parse_kafka_message (tlb_from_live lib) (tlb_from_slice lib) now ''aigis.events.raw'') of
        Some (LiveLog node_id hostname event_type payload timestamp_ns) \<Rightarrow> node_id = test_node_id \<and> event_type = ''running_processes''
      | _ \<Rightarrow> False)"

section \<open>Counters of the pipeline\<close>

definition quoted_topic :: "string \<Rightarrow> string" where
  "quoted_topic t = ''aigis_pipeline_events_routed_total{topic='' @ [CHR 0x22] @ t @ [CHR 0x22] @ ''} 1''"

definition test_metrics_counter_increments :: bool where
  "test_metrics_counter_increments =
     (let topics = [''aigis.events.process'', ''aigis.events.network'', ''aigis.events.file'', ''aigis.events.auth'', ''aigis.events.dlq''];
          output = format_prometheus (inc_errors (fold inc_routed topics (inc_consumed metrics_new)))
      in contains_str output ''aigis_pipeline_events_consumed_total 1'' \<and> list_all (\<lambda>t. contains_str output (quoted_topic t)) topics \<and>
         contains_str output ''aigis_pipeline_routing_errors_total 1'')"

section \<open>The model passes\<close>

text \<open>What is printed is parsed back, the UUIDs of the tests have their canonical form, and a message without a \<open>type\<close> is no live event.\<close>

definition test_lib_laws :: "test_lib \<Rightarrow> bool" where
  "test_lib_laws lib \<longleftrightarrow>
     (\<forall>v. \<exists>b. tlb_to_vec lib v = Some b \<and> tlb_from_slice lib b = Some v \<and> (jget ''type'' v = None \<longrightarrow> tlb_from_live lib b = None)) \<and>
     (\<forall>s \<in> {test_node_id, ''c1b2c3d4-0001-0000-0000-000000000001''}. \<exists>u. tlb_uuid_parse lib s = Some u \<and> tlb_uuid_str lib u = s)"

lemma printed_message:
  assumes "test_lib_laws lib"
  obtains b where "tlb_to_vec lib v = Some b" "tlb_from_slice lib b = Some v" "jget ''type'' v = None \<Longrightarrow> tlb_from_live lib b = None"
  using assms unfolding test_lib_laws_def by blast

lemma test_uuids:
  assumes "test_lib_laws lib"
  obtains u w where "tlb_uuid_parse lib test_node_id = Some u" "tlb_uuid_str lib u = test_node_id"
    "tlb_uuid_parse lib ''c1b2c3d4-0001-0000-0000-000000000001'' = Some w"
    "tlb_uuid_str lib w = ''c1b2c3d4-0001-0000-0000-000000000001''"
  using assms unfolding test_lib_laws_def by blast

lemmas value_defs = node_id_value_def event_type_value_def hostname_value_def timestamp_value_def nonempty_or_unknown_def starts_with_def

lemma log_entity_tests_pass:
  assumes "test_lib_laws lib"
  shows "test_parse_log_entity_from_raw_agent_event lib fresh now" "test_parse_log_entity_from_envelope lib fresh now"
    "test_parse_log_entity_ignores_non_event_topics lib fresh now"
proof -
  obtain u w where u: "tlb_uuid_parse lib test_node_id = Some u" "tlb_uuid_str lib u = test_node_id"
    "tlb_uuid_parse lib ''c1b2c3d4-0001-0000-0000-000000000001'' = Some w"
    "tlb_uuid_str lib w = ''c1b2c3d4-0001-0000-0000-000000000001''"
    by (rule test_uuids [OF assms])
  have parse: "parse_test_entity lib fresh now topic v =
      parse_log_entity (\<lambda>_. Some v) (tlb_uuid_parse lib) fresh now topic []" for topic v
    by (rule printed_message [OF assms, of v]) (simp add: parse_test_entity_def parse_log_entity_def)
  show "test_parse_log_entity_from_raw_agent_event lib fresh now"
    by (simp add: test_parse_log_entity_from_raw_agent_event_def parse parse_log_entity_def raw_agent_event_def value_defs u)
  show "test_parse_log_entity_from_envelope lib fresh now"
    by (simp add: test_parse_log_entity_from_envelope_def parse parse_log_entity_def test_envelope_def value_defs u)
  show "test_parse_log_entity_ignores_non_event_topics lib fresh now"
    by (simp add: test_parse_log_entity_ignores_non_event_topics_def parse parse_log_entity_def value_defs)
qed

lemma kafka_message_test_passes:
  assumes "test_lib_laws lib"
  shows "test_parse_kafka_message_extracts_agent_uuid lib now"
  by (rule printed_message [OF assms, of "JObject [(''action'', JString ''ADDED''), (''agent_uuid'', JString test_node_id),
        (''query_name'', JString ''running_processes''), (''rows'', JArray [])]"])
    (simp add: test_parse_kafka_message_extracts_agent_uuid_def parse_kafka_message_def parse_live_log_def value_defs)

lemma metrics_test_passes: "test_metrics_counter_increments"
proof -
  have one: "show_nat (Suc 0) = ''1''" by code_simp
  have m: "inc_errors (fold inc_routed [''aigis.events.process'', ''aigis.events.network'', ''aigis.events.file'', ''aigis.events.auth'',
      ''aigis.events.dlq''] (inc_consumed metrics_new)) = \<lparr>pm_consumed = 1, pm_routed_process = 1, pm_routed_network = 1, pm_routed_file = 1,
      pm_routed_auth = 1, pm_routed_dlq = 1, pm_routing_errors = 1\<rparr>"
    by (simp add: inc_errors_def inc_routed_def inc_consumed_def metrics_new_def)
  show ?thesis
    unfolding test_metrics_counter_increments_def Let_def m format_prometheus_def list_all_iff
    by (intro conjI ballI contains_str_line) (auto simp: one quoted_topic_def topic_label_def)
qed

text \<open>A library as the laws want it: values print as the number that an enumeration of them gives, in decimal.\<close>

instance json :: countable
  by countable_datatype

definition numbering_lib :: test_lib where
  "numbering_lib = \<lparr>tlb_to_vec = (\<lambda>v. Some (show_nat (to_nat v))), tlb_from_slice = (\<lambda>b. Some (from_nat (digits_value b))),
     tlb_from_live = (\<lambda>_. None), tlb_uuid_str = (\<lambda>u. if u = 1 then test_node_id else ''c1b2c3d4-0001-0000-0000-000000000001''),
     tlb_uuid_parse = (\<lambda>s. Some (if s = test_node_id then 1 else 2))\<rparr>"

lemma numbering_lib_laws: "test_lib_laws numbering_lib"
  by (simp add: test_lib_laws_def numbering_lib_def test_node_id_def)

end
