(* ===== verification/Spec2Isabelle.thy ===== *)
theory Spec2Isabelle
  imports IsolationPath AgentTests FleetTests RuleTests ServiceTests
begin

text \<open>
  Verification of Aigis-Zero, an endpoint detection and response system in Rust: an agent on every host, a fleet server,
  a Kafka pipeline, a rule engine and an API for operators. All paths below are under \<open>src/\<close>.

  \<^bold>\<open>The program.\<close> The agent asks osquery, over a socket, for tables of the host at intervals, turns answers into snapshots
  and differentials, stores them as events in a bounded SQLite buffer and drains it over a gRPC stream to the fleet server; it also
  obeys the server's commands, isolation by nftables among them. The server enrolls agents, issues and checks tokens, records
  heartbeats in PostgreSQL and publishes events to Kafka. The pipeline routes each event to a topic by category, the rule engine
  scans it with YARA rules, deduplicates and stores alerts, and the API lets operators read nodes, alerts and logs, isolate nodes and
  watch live.

  \<^bold>\<open>Theories.\<close>
  \<^item> \<open>Prelude\<close>, \<open>Json\<close>, \<open>Floats\<close>: results, options, strings as bytes, machine integers as words, JSON values and their accessors,
    the conversions of doubles that the code uses.
  \<^item> \<open>Proto\<close>: messages of \<open>sdk/proto/fleet.proto\<close>, models and codec of \<open>sdk/src\<close>.
  \<^item> \<open>EventBuffer\<close> (\<open>agent/crates/event-buffer\<close>): the table with its ids, \<open>new\<close>, \<open>push\<close>, \<open>drain\<close>, \<open>len\<close>, \<open>is_empty\<close>, any statement
    failing. The locale \<open>bounded_fifo\<close> is what its callers rely on; \<open>push\<close> and \<open>drain\<close> refine it.
  \<^item> \<open>Osquery\<close>, \<open>OsqueryWire\<close>, \<open>OsqueryTool\<close> (\<open>agent/crates/osquery-client\<close>): schedule, differential and task of a query; the parser of
    responses over a Thrift reader and the loop that reads the socket; the tool that tries the socket with and without a length in front.
  \<^item> \<open>Runs\<close>: labelled step relations and their runs, with the contracts of an inductive invariant and of a stage that loses nothing
    as the locales \<open>step_invariant\<close>, \<open>conserving\<close> and \<open>conserving_bag\<close>. \<open>AgentSystem\<close>, \<open>RuleService\<close> and \<open>LiveSystem\<close> interpret them.
  \<^item> \<open>Isolation\<close>, \<open>Quarantine\<close>, \<open>FleetClient\<close>, \<open>AgentCore\<close>, \<open>Orchestrator\<close>, \<open>AgentBin\<close>, \<open>AgentSystem\<close>, \<open>AgentMain\<close> (\<open>agent/crates\<close>:
    \<open>isolation\<close>, \<open>fleet-client\<close>, \<open>agent-core\<close>, \<open>agent-bin\<close>, \<open>agent-tracing\<close>): nft rules and command handler; the packets that pass the chains of a ruleset, read from its text as
    nft reads it; connection, enrollment,
    stream; tasks, configuration and preflight; the collector and the orchestrator's loop; start-up, heartbeat and drain; the tasks
    interleaved over buffer, channel and client; \<open>main\<close> up to those tasks.
  \<^item> \<open>AgentTypes\<close>, \<open>AgentCodec\<close>, \<open>FleetModules\<close> (\<open>fleet-client/src/types.rs\<close>, \<open>codec.rs\<close>, and \<open>connection.rs\<close>, \<open>enrollment.rs\<close>, \<open>stream.rs\<close>, \<open>heartbeat.rs\<close>,
    which no crate declares and nothing compiles): the JSON forms of the agent's messages and what reads them back; the codec
    over them, with the locale \<open>wire_message\<close> of a type of messages; the managers
    that \<open>FleetClient\<close> replaced.
  \<^item> \<open>FleetStore\<close>, \<open>FleetServer\<close>, \<open>FleetMain\<close> (\<open>fleet-server/crates\<close>): tables and both stores, with the traits \<open>NodeStore\<close> and
    \<open>HealthStore\<close> as locales; enroller, tracker, tokens, the three calls of the service over the ports as locales; settings,
    logging, pool, publisher, listener and start.
  \<^item> \<open>KafkaPipeline\<close>, \<open>PipelineMain\<close> (\<open>kafka-pipeline/src\<close>): router, counters, consumer loop (the trait \<open>MessageProcessor\<close> is a
    locale), topics; \<open>main\<close> and probes.
  \<^item> \<open>RuleModels\<close>, \<open>Dedup\<close>, \<open>DedupWindow\<close>, \<open>RuleScan\<close>, \<open>RuleEngine\<close>, \<open>RuleService\<close> (\<open>rule-engine/src\<close>): events, alerts and taxonomy; the
    sharded deduplicator over an LRU cache, and the one table of last passes it refines; scanned text, rules and alerts; consumer, scanner loop, batcher, sink, reload and configuration;
    start, and the tasks interleaved over their bounded channels up to the join at shutdown.
  \<^item> \<open>ApiStore\<close>, \<open>ApiLive\<close>, \<open>ApiServer\<close>, \<open>LiveSystem\<close> (\<open>api-backend/src\<close>): errors, settings, login, the repositories (the contract of their status updates is
    the locale \<open>status_repository\<close>), services and handlers; the live consumer, the log writer and the websocket session; routes,
    requests and answers over HTTP, and start; consumer, writer and sessions interleaved over the channel and the broadcast.
  \<^item> \<open>Schema\<close>, \<open>AlertPath\<close>: the tables as each service declares them, with the columns it inserts and selects and what TIMESTAMPTZ keeps of a time; an alert from the
    engine's sink to the operator's answer.
  \<^item> \<open>Platform\<close>, \<open>IsolationPath\<close>: the services on their shared tables, and the path of an event through them; an operator's isolation
    from the API to the agents. This theory states what holds of the whole.
  \<^item> \<open>AgentTests\<close>, \<open>FleetTests\<close>, \<open>RuleTests\<close>, \<open>ServiceTests\<close>: the repository's own tests on the model. A test is a definition, the truth of
    its assertions, its mocks are instances of the locales of the traits, and the lemmas say that the model passes, for all that
    the test leaves to the library and the environment.

  \<^bold>\<open>State and effects.\<close> A component's state is a record that its operations return updated; SQL tables are lists of rows, with keys and
  foreign keys checked where the schema has them; Kafka topics and channels are the lists of what was accepted. What the environment
  decides is an argument: failing statements, the broker's and the peer's answers, clocks, fresh identifiers, iteration orders
  of hash maps, closing of channels. Loops over channels and streams are recursions over the list of what arrives; where several tasks share a
  state, each turn of a loop between two waits is one step of a relation, and a run shows what every step did. Fallible code returns
  \<open>Inl\<close> an error or \<open>Inr\<close> a value; \<open>None\<close> of a loop is that it is still waiting.

  \<^bold>\<open>What is shown.\<close> Agent: the buffer is a bounded queue whose ids are never reused; a response of osquery is read whatever its
  chunking and its parser ends; differentials reconstruct the table; results reach the buffer; under every interleaving of its tasks
  each event is delivered, held or seen to be lost, and an agent that is up can always deliver what it holds; of a packet the chains of the
  isolation let pass exactly what they should, and commands leave the host free or so isolated;
  the agent runs only enrolled, and its isolation leaves the fleet server reachable; connecting is bounded in attempts and delays. Server: ids of nodes identify machines; tokens and secrets guard every call; acknowledged events are published.
  Tokens live to their expiry and a minute of leeway.
  Pipeline: the records of a run are those of its messages, in order, changed in their type at most; counters add up. Rule engine: events and alerts are accounted for along every
  interleaving, every alert is on its way or represented by one within the window until the shutdown, which can always complete and
  in order loses nothing. API: requests are guarded and atomic; over HTTP a session lasts as configured and triage reads back; pages tile the answer and show every alert
  of a time of its own once; triage is last-write-wins; the log accounts for its rows, and a dashboard sees what it subscribed to. Whole: the operator status of a
  node is the last the API confirmed, under every interleaving with the agents' requests; statuses are typed; what an agent delivers is
  published if it arrives, and is scanned under the rules of its category and stored with the same data; an alert that the engine stored is what the operator reads.

  \<^bold>\<open>Parameters.\<close> Third-party crates are arguments of the definitions: \<open>serde_json\<close>, \<open>toml\<close>, \<open>uuid\<close>, \<open>jsonwebtoken\<close>, the password hashes,
  \<open>yara_x\<close>, \<open>lru\<close>, \<open>thrift\<close>, \<open>rdkafka\<close>, the SQL drivers, \<open>tonic\<close>. What a theorem needs of them is among its hypotheses
  (\<open>jwt_laws\<close>, \<open>op_jwt_laws\<close>, the laws of the cache, \<open>reader_laws\<close>, \<open>timestamptz_laws\<close>, \<open>nft_laws\<close>, that a printed value is read back), each with an instance.

  \<^bold>\<open>Bounds and fuel.\<close> The three nested loops of the Thrift parser have no bound in the code; they take fuel, and one more than the bytes
  of the buffer is enough because every field begins with a byte (\<open>parse_ends\<close>). The retry loops recurse over the attempts' outcomes. Word
  types keep the widths of the code: a capacity above \<open>2^63\<close> turns negative, counters wrap.

  \<^bold>\<open>Not modelled.\<close> Inside the third-party crates nothing is: sockets, drivers, the framing of HTTP and gRPC, log subscribers, systemd
  notifications and the file watcher are their calls. Time is an argument of the steps that read a clock; the delay between two steps
  is not. The wait of the agent's core for its tasks (\<open>await_tasks\<close>) is not a step of \<open>AgentSystem\<close>: it
  follows a token that nothing cancels. Of the tests, those of \<open>yara_x\<close>'s syntax, of files on disk, of \<open>tokio\<close> and of a live server are left out.
  Preemption inside a transaction is only modelled for enrollment (\<open>upsert_write\<close>). The dashboard, deployment files and YARA rules
  have no Rust. A table holds the values the services hand over; that a column keeps a time in microseconds is applied where a row is read
  back by its columns (\<open>Schema\<close>). Of \<open>nft\<close> only the language of the one ruleset is read, and what its chains do with a packet.
\<close>

section \<open>The nodes of the fleet\<close>

text \<open>C1: Isolation is the operators' alone. Take any interleaving of registrations, heartbeats and operators' requests on
  the shared tables, with any of their faults, authenticated or not: every node of the start is still there with its
  machine, its operator status is that of the last isolation or release of it that the API confirmed, or what it was when
  there was none, and the keys of the tables stay unique and its references valid.\<close>

theorem operator_status_is_last_confirmed:
  assumes "fleet_run d st db w db'" and "db_inv db" and "node_row_of db i = Some n"
  shows "db_inv db' \<and> (\<exists>n'. node_row_of db' i = Some n' \<and> nd_machine_id n' = nd_machine_id n \<and>
    nd_operator_status n' = written w i (nd_operator_status n))"
  using fleet_run_inv [OF assms(1,2)] fleet_run_row [OF assms(1,3)] by simp

definition sample_api_env :: api_env where
  "sample_api_env = \<lparr>ae_auth = sample_auth, ae_settings = sample_api_settings, ae_now = 5, ae_clock = 5,
     ae_uuid_str = (\<lambda>_. ''u''), ae_repo = \<lparr>re_pool = Inr (), re_fault = (\<lambda>_. None)\<rparr>, ae_ilike = (\<lambda>_ _. True),
     ae_scan_nodes = (\<lambda>x. x), ae_scan_health = (\<lambda>x. x), ae_scan_alerts = (\<lambda>x. x), ae_scan_logs = (\<lambda>x. x), ae_fleet = Inr ()\<rparr>"

lemma sample_isolation:
  "api_handle sample_api_env (Some ''Bearer tok'') (IsolateNode 1 None) \<lparr>ap_nodes = one_node_db, ap_alerts = [], ap_logs = []\<rparr> =
     (Inr (IsolateData \<lparr>ir_node_id = 1, ir_operator_status = ''isolated'', ir_command_dispatched = True, ir_updated_at = 5\<rparr>),
      \<lparr>ap_nodes = set_operator 1 ''isolated'' one_node_db, ap_alerts = [], ap_logs = []\<rparr>)"
proof -
  have "auth_user sample_auth sample_api_settings 5 (Some ''Bearer tok'') = Inr sample_claims"
    by (simp add: auth_user_def sample_auth_def strip_prefix_def starts_with_def trim_def trim_start_def trim_end_def is_ws_def)
  then show ?thesis
    by (simp add: api_handle_def sample_api_env_def isolate_shapes writing_def map_ok_def update_operator_status_def with_conn_def
        update_returning_def set_operator_def one_node_db_eq)
qed

lemma sample_isolated_run:
  "fleet_run sample_deps sample_settings one_node_db [(1, ''isolated'')]
     (snd (server_heartbeat sample_deps sample_settings now henv md hreq (set_operator 1 ''isolated'' one_node_db)))"
  using run_heartbeat [OF run_operator [OF run_start sample_isolation]] by (simp add: operator_writes_def is_ok_def)

lemma one_node_row: "node_row_of one_node_db 1 = Some (hd (db_nodes one_node_db))" "nd_operator_status (hd (db_nodes one_node_db)) = ''active''"
  by (simp_all add: node_row_of_def one_node_db_eq)

theorem operator_status_is_last_confirmed_witness:
  "\<exists>n'. node_row_of (snd (server_heartbeat sample_deps sample_settings 3 (\<lparr>he_pool_ok = True, he_fault = None, he_health_id = 9\<rparr>, 3)
      [(''authorization'', ''Bearer 9.u1'')] \<lparr>hr_node_id = ''u1'', hr_status = ''active'', hr_events_buffered = 0\<rparr>
      (set_operator 1 ''isolated'' one_node_db))) 1 = Some n' \<and> nd_operator_status n' = ''isolated''"
  using operator_status_is_last_confirmed [OF sample_isolated_run one_node_db_inv one_node_row(1)]
  by (fastforce simp: written_def)

text \<open>C25: The status columns are typed. From tables in which every operator status is active or isolated and every agent
  status healthy or degraded, and in particular from empty ones, every interleaving of registrations, heartbeats and
  operators' requests leads to such tables, whatever statuses the heartbeats of agents carry.\<close>

theorem statuses_well_typed:
  assumes "fleet_run d st db w db'" and "typed_db db"
  shows "typed_db db' \<and> typed_db empty_db"
  using fleet_run_typed [OF assms] by (simp add: typed_db_def empty_db_def)

theorem statuses_well_typed_witness:
  "typed_db one_node_db \<and> typed_db (snd (server_heartbeat sample_deps sample_settings 3 (\<lparr>he_pool_ok = True, he_fault = None, he_health_id = 9\<rparr>, 3)
      [(''authorization'', ''Bearer 9.u1'')] \<lparr>hr_node_id = ''u1'', hr_status = ''pwned'', hr_events_buffered = 0\<rparr>
      (set_operator 1 ''isolated'' one_node_db)))"
proof -
  have "typed_db one_node_db" by (simp add: typed_db_def typed_node_def one_node_db_eq)
  then show ?thesis using statuses_well_typed [OF sample_isolated_run] by blast
qed

section \<open>From the agent to the rules and the log\<close>

text \<open>C2: An event that the fleet server publishes is the event the rule engine evaluates and the API stores. Let the
  server's publisher accept an event whose type the router knows: the router forwards it to the topic of its category;
  what it forwards decodes at the rule engine as a telemetry event with the event's node, time, payload and sequence id,
  evaluated under the rules of that category; and at the API as a log row. Take any run of the API's live side in which the database took
  that row, and in which the rows of its id, before and during the run, were those of this event: the API may also have read the raw
  message, which has the same id, and the first of the two stays. Then the table has a row of that id, and a select reads of it the
  event's node, payload and sequence id, its time to the microsecond, and as its type the category or, where the raw message came
  first, the type the agent gave it. The hypotheses on \<open>serde_json\<close> are that it reads back the two values it printed.\<close>

theorem telemetry_reaches_rules_and_log:
  assumes "ig_publish env = Inr ()" and "fd_uuid_parse d (pe_node_id e) = Some u" and "timestamptz_laws tz"
    and "v = telemetry_envelope d (ig_uuid env) (incoming_of e)" and "target_topic v \<noteq> DLQ"
    and "c = category_of (target_topic v) (event_type_of v)"
    and "fd_to_vec d v = Some b" and "fd_from_slice d b = Some v"
    and "fd_to_vec d (normalize_event v c) = Some b'" and "fd_from_slice d b' = Some (normalize_event v c)"
  shows "\<exists>m s' rec ev l. snd (ingest_event d k env (incoming_of e) log) = log @ [m]
    \<and> process (\<lambda>x. ok_or err (fd_from_slice d x)) (fd_to_vec d) (Inr ()) (consumed m part off) s = (Ok (), s')
    \<and> rt_sent s' = rt_sent s @ [rec] \<and> ko_topic rec = target_topic v \<and> ko_key rec = pe_node_id e
    \<and> Option.bind (fd_from_slice d (ko_payload rec)) (telemetry_of_json (fd_uuid_parse d)) = Some ev
    \<and> te_node_id ev = u \<and> te_timestamp_ns ev = pe_timestamp_ns e \<and> te_raw_sequence_id ev = Some (pe_sequence_id e)
    \<and> te_payload ev = unwrap_or (JObject [(''raw'', JString (fd_lossy d (pe_payload e)))]) (fd_from_slice d (pe_payload e))
    \<and> scan_category ev = c
    \<and> parse_log_entity (fd_from_slice d) (fd_uuid_parse d) fresh now (ko_topic rec) (ko_payload rec) = Some l \<and> el_event_type l = c
    \<and> (\<forall>p rows tr ly. runs (live_step p) (start_kafka_consumer create subscribe brokers group_id topics rows) tr ly
        \<and> l \<in> set (taken_logs (shown lv_batches tr))
        \<and> (\<forall>x \<in> set rows \<union> set (taken_logs (shown lv_batches tr)). el_event_id x = el_event_id l \<longrightarrow> row_of_event d m rec x)
        \<longrightarrow> (\<exists>x \<in> set (ly_rows ly). el_event_id x = el_event_id l \<and> stores_event tz e u (te_payload ev) c x))"
proof -
  let ?m = "message_of d (FleetServer.ki_topic k) (env, e)"
  let ?rec = "\<lparr>ko_topic = target_topic v, ko_key = pe_node_id e, ko_payload = b', ko_headers = []\<rparr>"
  have topic: "target_topic v \<in> {''aigis.events.process'', ''aigis.events.network'', ''aigis.events.file'', ''aigis.events.auth''}"
    using target_topic_cases assms(5) by blast
  have m: "km_payload ?m = b" "km_key ?m = pe_node_id e"
    using assms(4,7) by (simp_all add: message_of_def)
  have ingest: "snd (ingest_event d k env (incoming_of e) log) = log @ [?m]"
    using assms(1) by (simp add: ingest_event_cases)
  have node: "fd_uuid_parse d (ie_node_id (incoming_of e)) = Some u"
    using assms(2) by (simp add: incoming_of_def)
  have events: "starts_with ''aigis.events'' (target_topic v)"
    using topic by (auto simp: starts_with_def)
  note routed = process_typed [of "fd_from_slice d" ?m v "fd_to_vec d" b', unfolded m, OF assms(8,5) assms(9) [unfolded assms(6)]]
  obtain ev where ev: "telemetry_of_json (fd_uuid_parse d) (normalize_event v c) = Some ev" "te_node_id ev = u"
    "te_timestamp_ns ev = pe_timestamp_ns e" "te_raw_sequence_id ev = Some (pe_sequence_id e)" "te_event_type ev = c"
    "te_payload ev = unwrap_or (JObject [(''raw'', JString (fd_lossy d (pe_payload e)))]) (fd_from_slice d (pe_payload e))"
    using decode_normalized [OF node, of "ig_uuid env" c] unfolding assms(4) by (simp add: incoming_of_def)
  obtain l where l: "parse_log_entity (fd_from_slice d) (fd_uuid_parse d) fresh now (target_topic v) b' = Some l" "el_event_type l = c"
    using log_of_normalized [OF node events, where from_slice = "fd_from_slice d" and b = b', OF assms(10) [unfolded assms(4)], of fresh now]
    unfolding assms(4) by simp
  have stored: "\<exists>x \<in> set (ly_rows ly). el_event_id x = el_event_id l \<and> stores_event tz e u (te_payload ev) c x"
    if run: "runs (live_step p) (start_kafka_consumer create subscribe brokers group_id topics rows) tr ly"
      and taken: "l \<in> set (taken_logs (shown lv_batches tr))"
      and ids: "\<forall>x \<in> set rows \<union> set (taken_logs (shown lv_batches tr)). el_event_id x = el_event_id l \<longrightarrow> row_of_event d ?m ?rec x" for p rows tr ly
  proof -
    have "ly_rows ly = fold insert_log (taken_logs (shown lv_batches tr)) rows"
      using live_runs_batches [OF run live_start_inv] by (simp add: start_kafka_consumer_def Let_def)
    then obtain x where x: "x \<in> set (ly_rows ly)" "el_event_id x = el_event_id l" "x \<in> set rows \<union> set (taken_logs (shown lv_batches tr))"
      using insert_logs_has [of l rows "taken_logs (shown lv_batches tr)"] taken by auto
    then have "stores_event tz e u (te_payload ev) c x"
      using row_of_event_stores [OF node assms(3), of ?m ?rec x "ig_uuid env" c] ids m(1) assms(8,10) ev(6) unfolding assms(4) by simp
    then show ?thesis using x by blast
  qed
  have "scan_category ev = c" using scan_category_normalized [OF topic] ev(5) assms(6) by simp
  then show ?thesis
    using ingest routed assms(10) ev l stored
    by (intro exI [of _ ?m] exI [of _ "snd (process (\<lambda>x. ok_or err (fd_from_slice d x)) (fd_to_vec d) (Inr ()) (consumed ?m part off) s)"]
        exI [of _ ?rec] exI [of _ ev] exI [of _ l])
      (simp, blast)
qed

definition sample_proto_event :: proto_event where
  "sample_proto_event = \<lparr>pe_node_id = ''u1'', pe_event_type = ''osquery'', pe_payload = ''P'', pe_timestamp_ns = 7, pe_sequence_id = ''s1''\<rparr>"

definition sample_payload :: json where
  "sample_payload = JObject [(''query_name'', JString ''listening_ports'')]"

definition sample_envelope :: json where
  "sample_envelope = JObject [(''id'', JString ''s1''), (''node_id'', JString ''u1''), (''hostname'', JString []),
     (''event_type'', JString ''osquery''), (''timestamp_ns'', JInt 7), (''payload'', sample_payload), (''raw_sequence_id'', JString ''s1'')]"

definition sample_normalized :: json where
  "sample_normalized = normalize_event sample_envelope ''network''"

definition sample_codec :: fleet_deps where
  "sample_codec = sample_deps\<lparr>fd_uuid_parse := (\<lambda>s. if s = ''u1'' then Some 1 else None),
     fd_from_slice := map_of [(''P'', sample_payload), (''E'', sample_envelope), (''N'', sample_normalized)],
     fd_to_vec := (\<lambda>j. if j = sample_envelope then Some ''E'' else if j = sample_normalized then Some ''N'' else None)\<rparr>"

lemma sample_codec_values:
  "telemetry_envelope sample_codec ''x'' (incoming_of sample_proto_event) = sample_envelope"
  "target_topic sample_envelope = ''aigis.events.network''" "event_type_of sample_envelope = ''listening_ports''"
  "sample_normalized \<noteq> sample_envelope"
  by (simp_all add: telemetry_envelope_def incoming_of_def sample_proto_event_def sample_codec_def sample_deps_def sample_envelope_def
      sample_payload_def target_topic_def event_type_of_def route_topic_def sample_normalized_def normalize_event_def jinsert_def)

theorem telemetry_reaches_rules_and_log_witness:
  "\<exists>m s' rec ev. snd (ingest_event sample_codec (kafka_event_ingest.make ''aigis.events.raw'') \<lparr>ig_uuid = ''x'', ig_publish = Inr ()\<rparr>
      (incoming_of sample_proto_event) []) = [m]
    \<and> process (\<lambda>x. ok_or ''bad'' (fd_from_slice sample_codec x)) (fd_to_vec sample_codec) (Inr ()) (consumed m 0 0) start_router = (Ok (), s')
    \<and> rt_sent s' = [rec] \<and> ko_topic rec = ''aigis.events.network''
    \<and> Option.bind (fd_from_slice sample_codec (ko_payload rec)) (telemetry_of_json (fd_uuid_parse sample_codec)) = Some ev
    \<and> te_node_id ev = 1 \<and> scan_category ev = ''network''
    \<and> (\<exists>p tr ly. runs (live_step p) (start_kafka_consumer (\<lambda>_. Inr ()) (\<lambda>_. Inr ()) ''b'' ''g'' LIVE_TOPICS []) tr ly
        \<and> (\<exists>x \<in> set (ly_rows ly). stores_event whole_micros sample_proto_event 1 (te_payload ev) ''network'' x))"
proof -
  let ?p = "\<lparr>lp_deps = \<lparr>ld_from_live = (\<lambda>_. None), ld_from_slice = fd_from_slice sample_codec, ld_uuid_parse = fd_uuid_parse sample_codec\<rparr>,
    lp_retained = 1\<rparr>"
  have c: "category_of (target_topic sample_envelope) (event_type_of sample_envelope) = ''network''" "target_topic sample_envelope \<noteq> DLQ"
    by (simp_all add: sample_codec_values category_of_def DLQ_def)
  have codec: "fd_uuid_parse sample_codec (pe_node_id sample_proto_event) = Some 1" "fd_to_vec sample_codec sample_envelope = Some ''E''"
    "fd_from_slice sample_codec ''E'' = Some sample_envelope" "fd_to_vec sample_codec (normalize_event sample_envelope ''network'') = Some ''N''"
    "fd_from_slice sample_codec ''N'' = Some (normalize_event sample_envelope ''network'')"
    using sample_codec_values(4) by (simp_all add: sample_codec_def sample_proto_event_def sample_normalized_def)
  have empty: "rt_sent start_router = []" by (simp add: start_router_def)
  have take_row: "\<exists>tr ly. runs (live_step ?p) (start_kafka_consumer (\<lambda>_. Inr ()) (\<lambda>_. Inr ()) ''b'' ''g'' LIVE_TOPICS []) tr ly \<and>
      taken_logs (shown lv_batches tr) = [l] \<and> row_of_event sample_codec m rec l"
    if "parse_log_entity (fd_from_slice sample_codec) (fd_uuid_parse sample_codec) 0 0 (ko_topic rec) (ko_payload rec) = Some l" for m rec l
    using row_can_be_taken [of ?p 0 0 "ko_topic rec" "ko_payload rec" l "''b''" "''g''" LIVE_TOPICS] that by (auto simp: row_of_event_def)
  obtain m s' rec ev l where t: "snd (ingest_event sample_codec (kafka_event_ingest.make ''aigis.events.raw'') \<lparr>ig_uuid = ''x'', ig_publish = Inr ()\<rparr>
      (incoming_of sample_proto_event) []) = [m]"
    "process (\<lambda>x. ok_or ''bad'' (fd_from_slice sample_codec x)) (fd_to_vec sample_codec) (Inr ()) (consumed m 0 0) start_router = (Ok (), s')"
    "rt_sent s' = [rec]" "ko_topic rec = ''aigis.events.network''"
    "Option.bind (fd_from_slice sample_codec (ko_payload rec)) (telemetry_of_json (fd_uuid_parse sample_codec)) = Some ev"
    "te_node_id ev = 1" "scan_category ev = ''network''"
    "parse_log_entity (fd_from_slice sample_codec) (fd_uuid_parse sample_codec) 0 0 (ko_topic rec) (ko_payload rec) = Some l"
    "\<forall>p rows tr ly. runs (live_step p) (start_kafka_consumer (\<lambda>_. Inr ()) (\<lambda>_. Inr ()) ''b'' ''g'' LIVE_TOPICS rows) tr ly
        \<and> l \<in> set (taken_logs (shown lv_batches tr))
        \<and> (\<forall>x \<in> set rows \<union> set (taken_logs (shown lv_batches tr)). el_event_id x = el_event_id l \<longrightarrow> row_of_event sample_codec m rec x)
        \<longrightarrow> (\<exists>x \<in> set (ly_rows ly). el_event_id x = el_event_id l \<and> stores_event whole_micros sample_proto_event 1 (te_payload ev) ''network'' x)"
    using telemetry_reaches_rules_and_log [of "\<lparr>ig_uuid = ''x'', ig_publish = Inr ()\<rparr>" sample_codec sample_proto_event 1 whole_micros sample_envelope
        "''network''" "''E''" "''N''" "kafka_event_ingest.make ''aigis.events.raw''" "[]" "''bad''" 0 0 start_router 0 0
        "\<lambda>_. Inr ()" "\<lambda>_. Inr ()" "''b''" "''g''" LIVE_TOPICS,
        OF _ codec(1) whole_micros_laws _ c(2) c(1) [symmetric] codec(2-5), unfolded sample_codec_values(2) empty append_Nil ingest_env.select_convs
          sample_codec_values(1), OF refl refl]
    by (elim exE conjE) (rule that; assumption)
  obtain tr ly where run: "runs (live_step ?p) (start_kafka_consumer (\<lambda>_. Inr ()) (\<lambda>_. Inr ()) ''b'' ''g'' LIVE_TOPICS []) tr ly"
      "taken_logs (shown lv_batches tr) = [l]" "row_of_event sample_codec m rec l" using take_row [OF t(8)] by blast
  then have "\<exists>x \<in> set (ly_rows ly). stores_event whole_micros sample_proto_event 1 (te_payload ev) ''network'' x"
    using t(9) [rule_format, of ?p "[]" tr ly] by auto
  then show ?thesis using t(1-7) run(1) by blast
qed

text \<open>C27: What osquery reports is scanned under the rules of its query. The event of a result, as the agent sends it
  and the fleet server wraps it, is routed by the name of the query; every query of the agent's default schedule goes to a
  typed topic, the processes, the ports and the users to their own; and every topic the router forwards to is among those the
  rule engine subscribes to by default and among those the API shows live.\<close>

theorem default_queries_are_scanned:
  assumes "to_proto_event to_vec (agent_event_json (osquery_event sequence_id r)) = Some e"
    and "to_vec (osquery_result_json r) = Some p" and "fd_from_slice d p = Some (osquery_result_json r)"
    and "from_env env cpus = Inr config" and "env ''KAFKA_TOPICS'' = None"
  shows "target_topic (telemetry_envelope d fresh (incoming_of e)) = unwrap_or DLQ (route_topic (or_query_name r))
    \<and> map (\<lambda>q. route_topic (fst q)) default_queries =
        [Some ''aigis.events.process'', Some ''aigis.events.network'', Some ''aigis.events.auth'']
    \<and> (target_topic v = DLQ \<or> target_topic v \<in> set (rc_kafka_topics config) \<inter> set LIVE_TOPICS)"
proof (intro conjI)
  have "pe_event_type e = ''osquery''" "pe_payload e = p"
    using assms(1,2) by (auto simp: to_proto_event_def agent_event_json_def osquery_event_def jindex_def event_type_text_def)
  then show "target_topic (telemetry_envelope d fresh (incoming_of e)) = unwrap_or DLQ (route_topic (or_query_name r))"
    using osquery_envelope_type [OF assms(3)] by (simp add: target_topic_def)
  show "map (\<lambda>q. route_topic (fst q)) default_queries =
      [Some ''aigis.events.process'', Some ''aigis.events.network'', Some ''aigis.events.auth'']"
    by (simp add: default_queries_def route_topic_def)
  have "rc_kafka_topics config = [''aigis.events.process'', ''aigis.events.network'', ''aigis.events.file'', ''aigis.events.auth'']"
    using assms(4,5) by (auto simp: from_env_def ok_or_def result_bind_def trim_def trim_start_def trim_end_def is_ws_def split: option.splits)
  then show "target_topic v = DLQ \<or> target_topic v \<in> set (rc_kafka_topics config) \<inter> set LIVE_TOPICS"
    using target_topic_cases [of v] by (auto simp: LIVE_TOPICS_def)
qed

theorem default_queries_are_scanned_witness:
  "target_topic (telemetry_envelope (sample_deps\<lparr>fd_from_slice := (\<lambda>_. Some (osquery_result_json sample_result))\<rparr>) ''x''
     (incoming_of (the (to_proto_event (\<lambda>_. Some ''P'') (agent_event_json (osquery_event ''s1'' sample_result)))))) = ''aigis.events.auth''"
proof -
  let ?d = "sample_deps\<lparr>fd_from_slice := (\<lambda>_. Some (osquery_result_json sample_result))\<rparr>"
  let ?e = "to_proto_event (\<lambda>_. Some ''P'') (agent_event_json (osquery_event ''s1'' sample_result))"
  let ?env = "\<lambda>k. if k = ''DATABASE_URL'' then Some ''pg'' else None"
  have e: "?e = Some (the ?e)" by (simp add: to_proto_event_def)
  have c: "from_env ?env 4 = Inr (projr (from_env ?env 4))" by (simp add: from_env_def ok_or_def)
  have "route_topic (or_query_name sample_result) = Some ''aigis.events.auth''"
    by (simp add: sample_result_def build_result_def route_topic_def)
  then show ?thesis
    using default_queries_are_scanned [OF e, of "''P''" ?d ?env 4, OF _ _ c] by simp
qed

section \<open>From the buffer to the broker\<close>

text \<open>C3: An event that the agent counts as delivered is on the broker. Take any run of the agent's tasks, over as many
  connections as it took, and let the server receive on them, authenticated, what the agent put on its streams, the agent listening
  and the broker taking the messages: then its log grows by one message for each event streamed, in order, under the identity of the
  node on the configured topic, and every text that the agent counts as delivered reads as an event that is among them.\<close>

theorem delivered_events_are_published:
  assumes "runs (agent_step p) s tr s'" and "agent_inv s"
    and "\<forall>x \<in> set streams. stream_accepted d st x"
    and "concat (map (\<lambda>(now, md, items). map si_event items) streams) = map Inr (shown ag_streamed tr)"
  shows "\<exists>envs. length envs = length (shown ag_streamed tr)
    \<and> server_streams d st streams log = log @ map (message_of d (server_topic st)) (zip envs (shown ag_streamed tr))
    \<and> (\<forall>e \<in> set (shown ag_delivered tr). \<exists>m. readable p e = Some m \<and>
        (\<exists>env \<in> set envs. message_of d (server_topic st) (env, m) \<in> set (server_streams d st streams log)))"
proof -
  obtain envs where envs: "length envs = length (shown ag_streamed tr)"
    "server_streams d st streams log = log @ map (message_of d (server_topic st)) (zip envs (shown ag_streamed tr))"
    using server_streams_published [OF assms(3,4)] by blast
  have "\<exists>m. readable p e = Some m \<and> (\<exists>env \<in> set envs. message_of d (server_topic st) (env, m) \<in> set (server_streams d st streams log))"
    if e: "e \<in> set (shown ag_delivered tr)" for e
  proof -
    obtain m where m: "readable p e = Some m" "m \<in> set (shown ag_streamed tr)"
      using bspec [OF conjunct1 [OF agent_runs_streams [OF assms(1,2)]] e] by blast
    then obtain env where "(env, m) \<in> set (zip envs (shown ag_streamed tr))" using zipped_with [OF envs(1)] by blast
    then show ?thesis using envs(2) m(1) by (auto dest: set_zip_leftD)
  qed
  then show ?thesis using envs by blast
qed

lemma delivered_left: "length (shown ag_delivered tr) \<le> length (shown ag_left tr)"
  by (induction tr) (simp_all add: ag_left_def)

lemma demo_delivered_run:
  "\<exists>tr s'. runs (agent_step demo_agent_params) demo_agent tr s' \<and> shown ag_delivered tr = [''a''] \<and> held_events s' = [''b''] \<and>
     shown ag_streamed tr = [\<lparr>pe_node_id = [], pe_event_type = [], pe_payload = ''{}'', pe_timestamp_ns = 0, pe_sequence_id = []\<rparr>]"
proof -
  obtain obs s' where d: "drain_send demo_agent_params None [''a''] demo_agent_taken = (obs, s')" by fastforce
  have up: "sy_up demo_agent_taken"
    by (simp add: demo_agent_taken_def drain_take_def demo_agent_def agent_spawn_def split: prod.split sum.split)
  have c: "ct_client (sy_command demo_agent_taken) = demo_client"
    by (simp add: demo_agent_taken_def drain_take_def demo_agent_def agent_spawn_def split: prod.split sum.split)
  have "shown ag_delivered obs = [''a'']"
    "shown ag_streamed obs = [\<lparr>pe_node_id = [], pe_event_type = [], pe_payload = ''{}'', pe_timestamp_ns = 0, pe_sequence_id = []\<rparr>]"
    using d
    by (auto simp: drain_send_def outcome_of_def readable_def c demo_agent_params_def demo_client_def connect_def good_env_def client_new_def send_events_def
        to_proto_event_def stream_of_def map_filter_simps jindex_def jget_def event_type_text_def Let_def)
  moreover have "held_events s' = [''b'']"
    using drain_send_effect(1,2) [OF demo_agent_taken_state(2) d] calculation(1) demo_agent_taken_state(3) delivered_left [of obs]
    by (cases "shown ag_left obs") (auto simp: held_events_def)
  ultimately show ?thesis
    using runs_snoc [where step = "agent_step demo_agent_params", OF demo_agent_run ag_send [OF up demo_agent_taken_state(2) d]]
    by (intro exI [of _ "[] @ obs"] exI [of _ s']) simp
qed

theorem delivered_events_are_published_witness:
  "\<exists>tr s' env. runs (agent_step demo_agent_params) demo_agent tr s' \<and> shown ag_delivered tr = [''a'']
    \<and> message_of sample_deps (server_topic sample_settings) (env, the (readable demo_agent_params ''a'')) \<in>
        set (server_streams sample_deps sample_settings [(3, [(''authorization'', ''Bearer 9.u1'')],
          [\<lparr>si_event = Inr (the (readable demo_agent_params ''a'')), si_env = \<lparr>ig_uuid = ''x'', ig_publish = Ok ()\<rparr>, si_open = True\<rparr>])] [])"
proof -
  let ?m = "\<lparr>pe_node_id = [], pe_event_type = [], pe_payload = ''{}'', pe_timestamp_ns = 0, pe_sequence_id = []\<rparr>"
  let ?stream = "(3 :: timestamp, [(''authorization'', ''Bearer 9.u1'')] :: metadata,
    [\<lparr>si_event = Inr ?m, si_env = \<lparr>ig_uuid = ''x'', ig_publish = Ok ()\<rparr>, si_open = True\<rparr>])"
  have r: "readable demo_agent_params ''a'' = Some ?m"
    by (simp add: readable_def demo_agent_params_def to_proto_event_def jindex_def jget_def event_type_text_def)
  have acc: "\<forall>x \<in> set [?stream]. stream_accepted sample_deps sample_settings x"
    by (simp add: stream_accepted_def validate_token_def sample_deps_def strip_prefix_def starts_with_def digits_value_def)
  obtain tr s' where run: "runs (agent_step demo_agent_params) demo_agent tr s'" "shown ag_delivered tr = [''a'']"
    "shown ag_streamed tr = [?m]" using demo_delivered_run by blast
  have inv: "agent_inv demo_agent" using agent_spawn_inv [OF sample_buffer_inv, of demo_client False] by (simp add: demo_agent_def)
  have "concat (map (\<lambda>(now, md, items). map si_event items) [?stream]) = map Inr (shown ag_streamed tr)" using run(3) by simp
  from delivered_events_are_published [OF run(1) inv acc this, of "[]"] show ?thesis using run(1,2) r by auto
qed

text \<open>The agent does not wait for the server: what it counts as delivered has been put on the stream, and where the connection
  breaks before the server reads it, the event is neither on the broker nor with the agent.\<close>

lemma delivered_may_be_lost:
  "\<exists>tr s'. runs (agent_step demo_agent_params) demo_agent tr s' \<and> shown ag_delivered tr = [''a''] \<and> ''a'' \<notin> set (held_events s')
    \<and> server_streams d st [(now, md, [\<lparr>si_event = Inl broken, si_env = env, si_open = True\<rparr>])] log = log"
proof -
  have "server_streams d st [(now, md, [\<lparr>si_event = Inl broken, si_env = env, si_open = True\<rparr>])] log = log"
    by (simp add: server_streams_def server_event_stream_def service_event_stream_def split: sum.split)
  then show ?thesis using demo_delivered_run by fastforce
qed

end
